theory Spec2Isabelle
  imports Main "HOL-Library.Word"
begin

unbundle bit_operations_syntax

section \<open>Machine types and constants\<close>

text \<open>
  The file system of \<^verbatim>\<open>Project_C_FileSystem\<close> is a C program over fixed-width integers.
  Stored fields are words of the width the C declarations give them; loop counters that
  the code keeps inside a checked range are natural numbers.
\<close>

type_synonym u8 = "8 word"
type_synonym u16 = "16 word"
type_synonym u32 = "32 word"
type_synonym u64 = "64 word"
type_synonym block = "u8 list"

definition BLOCK_SIZE :: nat where
  "BLOCK_SIZE = 1024"

definition DIRECT_BLOCKS :: nat where
  "DIRECT_BLOCKS = 12"

definition MAX_OPEN_FILES :: nat where
  "MAX_OPEN_FILES = 64"

section \<open>The block device (disk\_simulator.c)\<close>

datatype disk_error =
    DISK_ERROR_INVALID_PARAM
  | DISK_ERROR_BLOCK_RANGE
  | DISK_ERROR_NOT_INIT
  | DISK_ERROR_IO

text \<open>
  \<^verbatim>\<open>g_disk_state\<close>: the flags and the block count the bounds check reads, and the backing
  file as the content of each block slot behind the header. The operating-system calls
  \<^verbatim>\<open>lseek\<close>, \<^verbatim>\<open>read\<close> and \<^verbatim>\<open>write\<close> are taken to succeed; statistics are not modelled.
\<close>

record disk_state =
  is_initialized :: bool
  is_read_only :: bool
  total_blocks :: u32
  block_size :: u32
  storage :: "nat \<Rightarrow> block"

text \<open>
  \<^verbatim>\<open>disk_check_block_bounds(int block_num)\<close>: the block number is a C \<^verbatim>\<open>int\<close>, here the 32-bit
  pattern read as two's complement by \<open>sint\<close> and, after the cast to \<^verbatim>\<open>uint32_t\<close>, by \<open>unat\<close>.
\<close>

definition disk_check_block_bounds :: "disk_state \<Rightarrow> u32 \<Rightarrow> bool" where
  "disk_check_block_bounds d block_num \<longleftrightarrow>
     0 \<le> sint block_num \<and> is_initialized d \<and> unat block_num < unat (total_blocks d)"

text \<open>A buffer argument is \<open>None\<close> for a NULL pointer.\<close>

definition disk_write_block :: "disk_state \<Rightarrow> u32 \<Rightarrow> block option \<Rightarrow> disk_error + disk_state" where
  "disk_write_block d block_num data =
     (case data of
        None \<Rightarrow> Inl DISK_ERROR_INVALID_PARAM
      | Some bytes \<Rightarrow>
          if \<not> is_initialized d then Inl DISK_ERROR_NOT_INIT
          else if is_read_only d then Inl DISK_ERROR_IO
          else if \<not> disk_check_block_bounds d block_num then Inl DISK_ERROR_BLOCK_RANGE
          else Inr (d\<lparr>storage := (storage d)(unat block_num := bytes)\<rparr>))"

definition disk_read_block :: "disk_state \<Rightarrow> u32 \<Rightarrow> bool \<Rightarrow> disk_error + block" where
  "disk_read_block d block_num buffer_ok =
     (if \<not> buffer_ok then Inl DISK_ERROR_INVALID_PARAM
      else if \<not> is_initialized d then Inl DISK_ERROR_NOT_INIT
      else if \<not> disk_check_block_bounds d block_num then Inl DISK_ERROR_BLOCK_RANGE
      else Inr (storage d (unat block_num)))"

text \<open>The state after a call: a failed write leaves the disk as it was.\<close>

definition disk_after_write :: "disk_state \<Rightarrow> u32 \<Rightarrow> block option \<Rightarrow> disk_state" where
  "disk_after_write d block_num data =
     (case disk_write_block d block_num data of Inl e \<Rightarrow> d | Inr d' \<Rightarrow> d')"

section \<open>Bitmaps (fs\_ops.c, file\_ops.c)\<close>

datatype fs_error =
    FS_ERROR_INVALID_PARAM
  | FS_ERROR_NO_MEMORY
  | FS_ERROR_NO_SPACE
  | FS_ERROR_FILE_NOT_FOUND
  | FS_ERROR_FILE_EXISTS
  | FS_ERROR_NOT_DIRECTORY
  | FS_ERROR_IS_DIRECTORY
  | FS_ERROR_PERMISSION
  | FS_ERROR_TOO_MANY_OPEN
  | FS_ERROR_IO
  | FS_ERROR_CORRUPTED

text \<open>
  \<^verbatim>\<open>fs_bitmap_t\<close>. The \<^verbatim>\<open>bitmap\<close> pointer is \<open>None\<close> when it is NULL, else the byte array
  it points to.
\<close>

record fs_bitmap =
  bitmap :: "u8 list option"
  total_bits :: u32
  free_count :: u32
  last_allocated :: u32

text \<open>\<^verbatim>\<open>bitmap[bit_num / 8] & (1 << (bit_num % 8))\<close> and the two updates of that byte.\<close>

definition bit_is_set :: "u8 list \<Rightarrow> nat \<Rightarrow> bool" where
  "bit_is_set bytes bit_num \<longleftrightarrow> (bytes ! (bit_num div 8)) AND push_bit (bit_num mod 8) 1 \<noteq> 0"

definition mark_bit :: "u8 list \<Rightarrow> nat \<Rightarrow> u8 list" where
  "mark_bit bytes bit_num =
     bytes[bit_num div 8 := (bytes ! (bit_num div 8)) OR push_bit (bit_num mod 8) 1]"

definition clear_bit :: "u8 list \<Rightarrow> nat \<Rightarrow> u8 list" where
  "clear_bit bytes bit_num =
     bytes[bit_num div 8 := (bytes ! (bit_num div 8)) AND NOT (push_bit (bit_num mod 8) 1)]"

text \<open>\<^verbatim>\<open>(total_bits + 7) / 8\<close> in 32-bit arithmetic.\<close>

definition bitmap_bytes :: "u32 \<Rightarrow> nat" where
  "bitmap_bytes nbits = unat ((nbits + 7) div 8)"

text \<open>\<^verbatim>\<open>fs_ops_init_bitmap\<close>; \<^verbatim>\<open>calloc\<close> is taken to succeed.\<close>

definition fs_ops_init_bitmap :: "u32 \<Rightarrow> fs_error + fs_bitmap" where
  "fs_ops_init_bitmap nbits =
     (if nbits = 0 then Inl FS_ERROR_INVALID_PARAM
      else Inr \<lparr>bitmap = Some (replicate (bitmap_bytes nbits) 0), total_bits = nbits,
                free_count = nbits, last_allocated = 0\<rparr>)"

definition set_bitmap_bit :: "fs_bitmap \<Rightarrow> u32 \<Rightarrow> fs_bitmap" where
  "set_bitmap_bit bm bit_num =
     (case bitmap bm of
        None \<Rightarrow> bm
      | Some bytes \<Rightarrow>
          if total_bits bm \<le> bit_num then bm
          else if \<not> bit_is_set bytes (unat bit_num)
          then bm\<lparr>bitmap := Some (mark_bit bytes (unat bit_num)), free_count := free_count bm - 1\<rparr>
          else bm)"

text \<open>
  The bit the allocation loops look at in iteration \<open>i\<close>:
  \<^verbatim>\<open>(start_bit + i) % total_bits\<close>, with \<^verbatim>\<open>start_bit = last_allocated\<close>.
\<close>

definition scan_bit :: "fs_bitmap \<Rightarrow> nat \<Rightarrow> u32" where
  "scan_bit bm i = (last_allocated bm + of_nat i) mod total_bits bm"

text \<open>The \<^verbatim>\<open>for\<close> loop of both allocators: the first iteration whose bit is clear.\<close>

function alloc_scan :: "fs_bitmap \<Rightarrow> u8 list \<Rightarrow> nat \<Rightarrow> u32 option" where
  "alloc_scan bm bytes i =
     (if i < unat (total_bits bm)
      then (if \<not> bit_is_set bytes (unat (scan_bit bm i)) then Some (scan_bit bm i)
            else alloc_scan bm bytes (Suc i))
      else None)"
  by pat_completeness auto
termination
  by (relation "measure (\<lambda>(bm, bytes, i). unat (total_bits bm) - i)") auto

declare alloc_scan.simps [simp del]

text \<open>\<^verbatim>\<open>alloc_bitmap_bit\<close> of fs\_ops.c: the returned number and the bitmap afterwards.\<close>

definition alloc_bitmap_bit :: "fs_bitmap \<Rightarrow> u32 \<times> fs_bitmap" where
  "alloc_bitmap_bit bm =
     (case bitmap bm of
        None \<Rightarrow> (0, bm)
      | Some bytes \<Rightarrow>
          if free_count bm = 0 then (0, bm)
          else (case alloc_scan bm bytes 0 of
                  Some bit_num \<Rightarrow>
                    (bit_num, bm\<lparr>bitmap := Some (mark_bit bytes (unat bit_num)),
                                  free_count := free_count bm - 1,
                                  last_allocated := bit_num\<rparr>)
                | None \<Rightarrow> (0, bm)))"

definition free_bitmap_bit :: "fs_bitmap \<Rightarrow> u32 \<Rightarrow> fs_bitmap" where
  "free_bitmap_bit bm bit_num =
     (case bitmap bm of
        None \<Rightarrow> bm
      | Some bytes \<Rightarrow>
          if total_bits bm \<le> bit_num then bm
          else if bit_is_set bytes (unat bit_num)
          then bm\<lparr>bitmap := Some (clear_bit bytes (unat bit_num)), free_count := free_count bm + 1\<rparr>
          else bm)"

text \<open>
  \<^verbatim>\<open>alloc_data_block_from_bitmap\<close> of file\_ops.c works on \<^verbatim>\<open>g_fs_state.block_bitmap\<close> and
  returns the absolute block number \<^verbatim>\<open>bit_num + data_blocks_start\<close>. It reads the byte array
  without a NULL check.
\<close>

definition alloc_data_block_from_bitmap :: "fs_bitmap \<Rightarrow> u32 \<Rightarrow> u32 \<times> fs_bitmap" where
  "alloc_data_block_from_bitmap bm data_start =
     (if free_count bm = 0 then (0, bm)
      else (case alloc_scan bm (the (bitmap bm)) 0 of
              Some bit_num \<Rightarrow>
                (bit_num + data_start,
                 bm\<lparr>bitmap := Some (mark_bit (the (bitmap bm)) (unat bit_num)),
                     free_count := free_count bm - 1,
                     last_allocated := bit_num\<rparr>)
            | None \<Rightarrow> (0, bm)))"

text \<open>
  The number of clear bits below \<open>n\<close>, as the counting loop at the end of
  \<^verbatim>\<open>fs_ops_read_bitmap\<close> computes it, and the invariant of a bitmap whose array is allocated.
\<close>

definition count_free :: "u8 list \<Rightarrow> nat \<Rightarrow> nat" where
  "count_free bytes n = length (filter (\<lambda>i. \<not> bit_is_set bytes i) [0..<n])"

definition bitmap_inv :: "fs_bitmap \<Rightarrow> bool" where
  "bitmap_inv bm \<longleftrightarrow>
     (case bitmap bm of
        None \<Rightarrow> False
      | Some bytes \<Rightarrow>
          length bytes = bitmap_bytes (total_bits bm)
        \<and> unat (total_bits bm) + 7 < 2 ^ 32
        \<and> unat (free_count bm) = count_free bytes (unat (total_bits bm)))"

section \<open>Structures in blocks (fs.h)\<close>

text \<open>
  The code moves structures between memory and disk blocks with \<^verbatim>\<open>memcpy\<close>. The
  structures are packed; integers are stored in the byte order of the host, taken to be
  little-endian, and \<^verbatim>\<open>time_t\<close> is taken to be 64 bits wide.
\<close>

fun le_bytes :: "nat \<Rightarrow> 'a::len word \<Rightarrow> u8 list" where
  "le_bytes 0 w = []"
| "le_bytes (Suc n) w = ucast w # le_bytes n (drop_bit 8 w)"

fun le_word :: "u8 list \<Rightarrow> 'a::len word" where
  "le_word [] = 0"
| "le_word (b # bs) = ucast b OR push_bit 8 (le_word bs)"

text \<open>\<open>n\<close> bytes at offset \<open>off\<close> of a buffer, and \<^verbatim>\<open>memcpy(dst + off, src, length src)\<close>.\<close>

definition slice :: "u8 list \<Rightarrow> nat \<Rightarrow> nat \<Rightarrow> u8 list" where
  "slice buf off n = take n (drop off buf)"

definition memcpy_at :: "u8 list \<Rightarrow> nat \<Rightarrow> u8 list \<Rightarrow> u8 list" where
  "memcpy_at dst off src = take off dst @ src @ drop (off + length src) dst"

text \<open>A C string in a buffer: the bytes before the first NUL.\<close>

definition c_str :: "u8 list \<Rightarrow> u8 list" where
  "c_str buf = takeWhile (\<lambda>b. b \<noteq> 0) buf"

subsection \<open>Superblock\<close>

definition FS_MAGIC_NUMBER :: u32 where
  "FS_MAGIC_NUMBER = 0x53465321"

definition ROOT_INODE_NUM :: u32 where
  "ROOT_INODE_NUM = 1"

definition FS_SUPERBLOCK_BLOCK :: u32 where
  "FS_SUPERBLOCK_BLOCK = 0"

definition FS_INODE_BITMAP_BLOCK :: u32 where
  "FS_INODE_BITMAP_BLOCK = 1"

definition FS_DATA_BITMAP_BLOCK :: u32 where
  "FS_DATA_BITMAP_BLOCK = 2"

definition FS_INODE_TABLE_START :: u32 where
  "FS_INODE_TABLE_START = 8"

definition FS_DEFAULT_MAX_INODES :: u32 where
  "FS_DEFAULT_MAX_INODES = 1024"

definition FS_BITMAP_BLOCKS :: u32 where
  "FS_BITMAP_BLOCKS = 4"

record fs_superblock =
  magic_number :: u32
  version :: u32
  sb_block_size :: u32
  sb_total_blocks :: u32
  total_inodes :: u32
  free_blocks :: u32
  free_inodes :: u32
  inode_table_start :: u32
  inode_table_blocks :: u32
  data_blocks_start :: u32
  root_inode :: u32
  mount_count :: u32
  max_mount_count :: u32
  created_time :: u64
  last_mount_time :: u64
  last_write_time :: u64
  last_check_time :: u64
  sb_reserved :: "u8 list"
  checksum :: u32

text \<open>\<^verbatim>\<open>sizeof(fs_superblock_t)\<close> is 152 and \<^verbatim>\<open>offsetof(fs_superblock_t, checksum)\<close> is 148.\<close>

definition enc_superblock :: "fs_superblock \<Rightarrow> u8 list" where
  "enc_superblock sb =
     le_bytes 4 (magic_number sb) @ le_bytes 4 (version sb) @ le_bytes 4 (sb_block_size sb)
   @ le_bytes 4 (sb_total_blocks sb) @ le_bytes 4 (total_inodes sb) @ le_bytes 4 (free_blocks sb)
   @ le_bytes 4 (free_inodes sb) @ le_bytes 4 (inode_table_start sb)
   @ le_bytes 4 (inode_table_blocks sb) @ le_bytes 4 (data_blocks_start sb)
   @ le_bytes 4 (root_inode sb) @ le_bytes 4 (mount_count sb) @ le_bytes 4 (max_mount_count sb)
   @ le_bytes 8 (created_time sb) @ le_bytes 8 (last_mount_time sb)
   @ le_bytes 8 (last_write_time sb) @ le_bytes 8 (last_check_time sb)
   @ sb_reserved sb @ le_bytes 4 (checksum sb)"

definition dec_superblock :: "u8 list \<Rightarrow> fs_superblock" where
  "dec_superblock b =
     \<lparr>magic_number = le_word (slice b 0 4), version = le_word (slice b 4 4),
      sb_block_size = le_word (slice b 8 4), sb_total_blocks = le_word (slice b 12 4),
      total_inodes = le_word (slice b 16 4), free_blocks = le_word (slice b 20 4),
      free_inodes = le_word (slice b 24 4), inode_table_start = le_word (slice b 28 4),
      inode_table_blocks = le_word (slice b 32 4), data_blocks_start = le_word (slice b 36 4),
      root_inode = le_word (slice b 40 4), mount_count = le_word (slice b 44 4),
      max_mount_count = le_word (slice b 48 4), created_time = le_word (slice b 52 8),
      last_mount_time = le_word (slice b 60 8), last_write_time = le_word (slice b 68 8),
      last_check_time = le_word (slice b 76 8), sb_reserved = slice b 84 64,
      checksum = le_word (slice b 148 4)\<rparr>"

text \<open>\<^verbatim>\<open>fs_ops_calculate_checksum\<close>: the bitwise CRC-32 loop.\<close>

definition crc_bit :: "u32 \<Rightarrow> u32" where
  "crc_bit c = (if c AND 1 \<noteq> 0 then drop_bit 1 c XOR 0xEDB88320 else drop_bit 1 c)"

definition crc_byte :: "u32 \<Rightarrow> u8 \<Rightarrow> u32" where
  "crc_byte c b = (crc_bit ^^ 8) (c XOR ucast b)"

definition fs_ops_calculate_checksum :: "u8 list \<Rightarrow> u32" where
  "fs_ops_calculate_checksum bytes =
     (if bytes = [] then 0 else NOT (foldl crc_byte 0xFFFFFFFF bytes))"

text \<open>
  The checksum both \<^verbatim>\<open>format_disk\<close> and \<^verbatim>\<open>fs_ops_read_superblock\<close> compute: over the
  bytes before the \<^verbatim>\<open>checksum\<close> field, with that field set to 0 first.
\<close>

definition superblock_checksum :: "fs_superblock \<Rightarrow> u32" where
  "superblock_checksum sb =
     fs_ops_calculate_checksum (take 148 (enc_superblock (sb\<lparr>checksum := 0\<rparr>)))"

subsection \<open>Inodes\<close>

definition FS_FILE_TYPE_REGULAR :: u16 where
  "FS_FILE_TYPE_REGULAR = 1"

definition FS_FILE_TYPE_DIRECTORY :: u16 where
  "FS_FILE_TYPE_DIRECTORY = 2"

record fs_inode =
  inode_number :: u32
  file_type :: u16
  permissions :: u16
  owner_uid :: u32
  owner_gid :: u32
  link_count :: u32
  file_size :: u64
  block_count :: u32
  access_time :: u64
  modify_time :: u64
  change_time :: u64
  create_time :: u64
  direct_blocks :: "u32 list"
  indirect_block :: u32
  double_indirect_block :: u32
  triple_indirect_block :: u32
  flags :: u32
  generation :: u32
  inode_reserved :: "u8 list"

text \<open>\<^verbatim>\<open>sizeof(fs_inode_t)\<close>, and \<^verbatim>\<open>BLOCK_SIZE / sizeof(fs_inode_t)\<close>.\<close>

definition INODE_SIZE :: nat where
  "INODE_SIZE = 148"

definition inodes_per_block :: nat where
  "inodes_per_block = BLOCK_SIZE div INODE_SIZE"

definition enc_inode :: "fs_inode \<Rightarrow> u8 list" where
  "enc_inode i =
     le_bytes 4 (inode_number i) @ le_bytes 2 (file_type i) @ le_bytes 2 (permissions i)
   @ le_bytes 4 (owner_uid i) @ le_bytes 4 (owner_gid i) @ le_bytes 4 (link_count i)
   @ le_bytes 8 (file_size i) @ le_bytes 4 (block_count i)
   @ le_bytes 8 (access_time i) @ le_bytes 8 (modify_time i)
   @ le_bytes 8 (change_time i) @ le_bytes 8 (create_time i)
   @ concat (map (le_bytes 4) (direct_blocks i))
   @ le_bytes 4 (indirect_block i) @ le_bytes 4 (double_indirect_block i)
   @ le_bytes 4 (triple_indirect_block i) @ le_bytes 4 (flags i) @ le_bytes 4 (generation i)
   @ inode_reserved i"

definition dec_inode :: "u8 list \<Rightarrow> fs_inode" where
  "dec_inode b =
     \<lparr>inode_number = le_word (slice b 0 4), file_type = le_word (slice b 4 2),
      permissions = le_word (slice b 6 2), owner_uid = le_word (slice b 8 4),
      owner_gid = le_word (slice b 12 4), link_count = le_word (slice b 16 4),
      file_size = le_word (slice b 20 8), block_count = le_word (slice b 28 4),
      access_time = le_word (slice b 32 8), modify_time = le_word (slice b 40 8),
      change_time = le_word (slice b 48 8), create_time = le_word (slice b 56 8),
      direct_blocks = map (\<lambda>k. le_word (slice b (64 + 4 * k) 4)) [0..<DIRECT_BLOCKS],
      indirect_block = le_word (slice b 112 4), double_indirect_block = le_word (slice b 116 4),
      triple_indirect_block = le_word (slice b 120 4), flags = le_word (slice b 124 4),
      generation = le_word (slice b 128 4), inode_reserved = slice b 132 16\<rparr>"

text \<open>\<^verbatim>\<open>memset(&inode, 0, sizeof(fs_inode_t))\<close>.\<close>

definition zero_inode :: fs_inode where
  "zero_inode =
     \<lparr>inode_number = 0, file_type = 0, permissions = 0, owner_uid = 0, owner_gid = 0,
      link_count = 0, file_size = 0, block_count = 0, access_time = 0, modify_time = 0,
      change_time = 0, create_time = 0, direct_blocks = replicate DIRECT_BLOCKS 0,
      indirect_block = 0, double_indirect_block = 0, triple_indirect_block = 0, flags = 0,
      generation = 0, inode_reserved = replicate 16 0\<rparr>"

subsection \<open>Directory entries\<close>

text \<open>
  \<^verbatim>\<open>fs_dir_entry_t\<close> is 76 bytes: inode\_number at 0, entry\_length at 4, filename\_length
  at 6, file\_type at 7, filename[64] at 8, is\_valid at 72, padding[3] at 73. The code reads
  and writes the entries in place in a block buffer cast to an array of entries.
\<close>

definition DIRENT_SIZE :: nat where
  "DIRENT_SIZE = 76"

definition MAX_FILENAME_LEN :: nat where
  "MAX_FILENAME_LEN = 64"

definition max_entries :: nat where
  "max_entries = BLOCK_SIZE div DIRENT_SIZE"

definition entry_is_valid :: "block \<Rightarrow> nat \<Rightarrow> bool" where
  "entry_is_valid blk i \<longleftrightarrow> blk ! (i * DIRENT_SIZE + 72) \<noteq> 0"

definition entry_filename :: "block \<Rightarrow> nat \<Rightarrow> u8 list" where
  "entry_filename blk i = c_str (drop (i * DIRENT_SIZE + 8) blk)"

definition entry_inode_number :: "block \<Rightarrow> nat \<Rightarrow> u32" where
  "entry_inode_number blk i = le_word (slice blk (i * DIRENT_SIZE) 4)"

text \<open>
  \<^verbatim>\<open>strncpy(dst, src, MAX_FILENAME_LEN - 1); dst[MAX_FILENAME_LEN - 1] = 0\<close>: the 64 bytes of
  the filename field afterwards.
\<close>

definition filename_field :: "u8 list \<Rightarrow> u8 list" where
  "filename_field name =
     take (MAX_FILENAME_LEN - 1) (c_str name)
   @ replicate (MAX_FILENAME_LEN - length (take (MAX_FILENAME_LEN - 1) (c_str name))) 0"

text \<open>
  The assignments that fill entry \<open>i\<close>: every field but the padding. The file type is
  given by the caller of this definition, as the two places that fill entries differ in it.
\<close>

definition write_entry :: "block \<Rightarrow> nat \<Rightarrow> u32 \<Rightarrow> u8 \<Rightarrow> u8 \<Rightarrow> u8 list \<Rightarrow> block" where
  "write_entry blk i ino name_len ftype name_bytes =
     memcpy_at blk (i * DIRENT_SIZE)
       (le_bytes 4 ino @ le_bytes 2 (of_nat DIRENT_SIZE :: u16) @ [name_len] @ [ftype]
        @ name_bytes @ [1])"

section \<open>Users and permissions (user\_manager.c)\<close>

definition FS_PERM_OWNER_READ :: u32 where "FS_PERM_OWNER_READ = 256"
definition FS_PERM_OWNER_WRITE :: u32 where "FS_PERM_OWNER_WRITE = 128"
definition FS_PERM_OWNER_EXEC :: u32 where "FS_PERM_OWNER_EXEC = 64"
definition FS_PERM_GROUP_READ :: u32 where "FS_PERM_GROUP_READ = 32"
definition FS_PERM_GROUP_WRITE :: u32 where "FS_PERM_GROUP_WRITE = 16"
definition FS_PERM_GROUP_EXEC :: u32 where "FS_PERM_GROUP_EXEC = 8"
definition FS_PERM_OTHER_READ :: u32 where "FS_PERM_OTHER_READ = 4"
definition FS_PERM_OTHER_WRITE :: u32 where "FS_PERM_OTHER_WRITE = 2"
definition FS_PERM_OTHER_EXEC :: u32 where "FS_PERM_OTHER_EXEC = 1"

definition USER_MANAGER_ROOT_UID :: u32 where "USER_MANAGER_ROOT_UID = 0"

text \<open>\<^verbatim>\<open>fs_user_t\<close> without the name, the password hash and the creation time.\<close>

record fs_user =
  uid :: u32
  gid :: u32
  is_active :: bool

definition user_manager_is_root :: "u32 \<Rightarrow> bool" where
  "user_manager_is_root u \<longleftrightarrow> u = USER_MANAGER_ROOT_UID"

text \<open>The three \<^verbatim>\<open>switch\<close> statements: which kind of access \<^verbatim>\<open>required_perm\<close> names.\<close>

definition is_read_perm :: "u32 \<Rightarrow> bool" where
  "is_read_perm p \<longleftrightarrow> p = FS_PERM_OWNER_READ \<or> p = FS_PERM_GROUP_READ \<or> p = FS_PERM_OTHER_READ"

definition is_write_perm :: "u32 \<Rightarrow> bool" where
  "is_write_perm p \<longleftrightarrow> p = FS_PERM_OWNER_WRITE \<or> p = FS_PERM_GROUP_WRITE \<or> p = FS_PERM_OTHER_WRITE"

definition is_exec_perm :: "u32 \<Rightarrow> bool" where
  "is_exec_perm p \<longleftrightarrow> p = FS_PERM_OWNER_EXEC \<or> p = FS_PERM_GROUP_EXEC \<or> p = FS_PERM_OTHER_EXEC"

definition user_manager_check_permission_detailed ::
  "u32 \<Rightarrow> u32 \<Rightarrow> u32 \<Rightarrow> u32 \<Rightarrow> u16 \<Rightarrow> u32 \<Rightarrow> bool" where
  "user_manager_check_permission_detailed user_uid user_gid file_uid file_gid
       file_permissions required_perm =
     (if user_manager_is_root user_uid then True
      else
        let actual_perm =
          (if user_uid = file_uid then
             (if is_read_perm required_perm then FS_PERM_OWNER_READ
              else if is_write_perm required_perm then FS_PERM_OWNER_WRITE
              else if is_exec_perm required_perm then FS_PERM_OWNER_EXEC
              else required_perm)
           else if user_gid = file_gid then
             (if is_read_perm required_perm then FS_PERM_GROUP_READ
              else if is_write_perm required_perm then FS_PERM_GROUP_WRITE
              else if is_exec_perm required_perm then FS_PERM_GROUP_EXEC
              else required_perm)
           else
             (if is_read_perm required_perm then FS_PERM_OTHER_READ
              else if is_write_perm required_perm then FS_PERM_OTHER_WRITE
              else if is_exec_perm required_perm then FS_PERM_OTHER_EXEC
              else required_perm))
        in (ucast file_permissions AND actual_perm) \<noteq> 0)"

text \<open>\<^verbatim>\<open>find_user_by_uid\<close> and the copy of the slot it finds: the first active user with the uid.\<close>

definition find_user_by_uid :: "fs_user list \<Rightarrow> u32 \<Rightarrow> fs_user option" where
  "find_user_by_uid us u = find (\<lambda>x. is_active x \<and> uid x = u) us"

section \<open>File system state (fs.h, fs\_ops.c)\<close>

text \<open>\<^verbatim>\<open>fs_file_handle_t\<close>; two of its fields share their names with inode fields.\<close>

record fs_file_handle =
  fh_inode_number :: u32
  fh_flags :: u32
  file_position :: u64
  reference_count :: u32
  open_time :: u64
  fh_owner_uid :: u32

definition zero_handle :: fs_file_handle where
  "zero_handle = \<lparr>fh_inode_number = 0, fh_flags = 0, file_position = 0, reference_count = 0,
                  open_time = 0, fh_owner_uid = 0\<rparr>"

definition FS_OPEN_READ :: u32 where "FS_OPEN_READ = 1"
definition FS_OPEN_WRITE :: u32 where "FS_OPEN_WRITE = 2"

record fs_state =
  superblock :: fs_superblock
  inode_bitmap :: fs_bitmap
  block_bitmap :: fs_bitmap
  open_files :: "fs_file_handle list"
  users :: "fs_user list"
  current_user_uid :: u32

text \<open>The two globals \<^verbatim>\<open>g_fs_state\<close> and \<^verbatim>\<open>g_disk_state\<close>.\<close>

record sys =
  g_fs_state :: fs_state
  g_disk_state :: disk_state

definition user_manager_check_permission :: "fs_state \<Rightarrow> fs_inode \<Rightarrow> u32 \<Rightarrow> bool" where
  "user_manager_check_permission fs inode required_perm =
     (case find_user_by_uid (users fs) (current_user_uid fs) of
        None \<Rightarrow> False
      | Some current_user \<Rightarrow>
          user_manager_check_permission_detailed (uid current_user) (gid current_user)
            (owner_uid inode) (owner_gid inode) (permissions inode) required_perm)"

definition user_manager_get_current_uid :: "fs_state \<Rightarrow> u32" where
  "user_manager_get_current_uid fs = current_user_uid fs"

subsection \<open>Inode table\<close>

text \<open>
  \<^verbatim>\<open>fs_ops_read_inode\<close> and \<^verbatim>\<open>fs_ops_write_inode\<close>; \<^verbatim>\<open>read_inode_from_disk\<close> and
  \<^verbatim>\<open>write_inode_to_disk\<close> of file\_ops.c have the same bodies.
\<close>

definition inode_block_num :: "fs_superblock \<Rightarrow> u32 \<Rightarrow> u32" where
  "inode_block_num sb ino = inode_table_start sb + ino div of_nat inodes_per_block"

definition inode_offset :: "u32 \<Rightarrow> nat" where
  "inode_offset ino = (unat ino mod inodes_per_block) * INODE_SIZE"

definition fs_ops_read_inode :: "sys \<Rightarrow> u32 \<Rightarrow> fs_error + fs_inode" where
  "fs_ops_read_inode s ino =
     (if ino = 0 \<or> total_inodes (superblock (g_fs_state s)) \<le> ino
      then Inl FS_ERROR_INVALID_PARAM
      else case disk_read_block (g_disk_state s)
                  (inode_block_num (superblock (g_fs_state s)) ino) True of
             Inl e \<Rightarrow> Inl FS_ERROR_IO
           | Inr inode_block \<Rightarrow> Inr (dec_inode (slice inode_block (inode_offset ino) INODE_SIZE)))"

definition fs_ops_write_inode :: "sys \<Rightarrow> u32 \<Rightarrow> fs_inode \<Rightarrow> fs_error + sys" where
  "fs_ops_write_inode s ino inode =
     (if ino = 0 \<or> total_inodes (superblock (g_fs_state s)) \<le> ino
      then Inl FS_ERROR_INVALID_PARAM
      else case disk_read_block (g_disk_state s)
                  (inode_block_num (superblock (g_fs_state s)) ino) True of
             Inl e \<Rightarrow> Inl FS_ERROR_IO
           | Inr inode_block \<Rightarrow>
               (case disk_write_block (g_disk_state s)
                       (inode_block_num (superblock (g_fs_state s)) ino)
                       (Some (memcpy_at inode_block (inode_offset ino) (enc_inode inode))) of
                  Inl e \<Rightarrow> Inl FS_ERROR_IO
                | Inr d \<Rightarrow> Inr (s\<lparr>g_disk_state := d\<rparr>)))"

definition read_inode_from_disk :: "sys \<Rightarrow> u32 \<Rightarrow> fs_error + fs_inode" where
  "read_inode_from_disk s ino = fs_ops_read_inode s ino"

definition write_inode_to_disk :: "sys \<Rightarrow> u32 \<Rightarrow> fs_inode \<Rightarrow> fs_error + sys" where
  "write_inode_to_disk s ino inode = fs_ops_write_inode s ino inode"

subsection \<open>Superblock\<close>

text \<open>
  \<^verbatim>\<open>fs_ops_init_superblock\<close>. The inode table size is computed in \<^verbatim>\<open>size_t\<close> arithmetic and
  stored in 32 bits; \<open>now\<close> is the value \<^verbatim>\<open>time(NULL)\<close> returns.
\<close>

definition fs_ops_init_superblock :: "u32 \<Rightarrow> u64 \<Rightarrow> fs_superblock" where
  "fs_ops_init_superblock nblocks now =
     (let sb0 = \<lparr>magic_number = FS_MAGIC_NUMBER, version = 1, sb_block_size = of_nat BLOCK_SIZE,
                 sb_total_blocks = nblocks, total_inodes = FS_DEFAULT_MAX_INODES,
                 free_blocks = 0, free_inodes = 0,
                 inode_table_start = FS_INODE_TABLE_START,
                 inode_table_blocks =
                   of_nat ((unat FS_DEFAULT_MAX_INODES * INODE_SIZE + BLOCK_SIZE - 1) div BLOCK_SIZE),
                 data_blocks_start = 0, root_inode = ROOT_INODE_NUM,
                 mount_count = 0, max_mount_count = 100,
                 created_time = now, last_mount_time = now, last_write_time = now,
                 last_check_time = now, sb_reserved = replicate 64 0, checksum = 0\<rparr>;
          sb1 = sb0\<lparr>data_blocks_start := inode_table_start sb0 + inode_table_blocks sb0\<rparr>;
          sb2 = sb1\<lparr>free_blocks := nblocks - data_blocks_start sb1,
                    free_inodes := total_inodes sb1 - 1\<rparr>
      in sb2\<lparr>checksum := superblock_checksum sb2\<rparr>)"

definition fs_ops_write_superblock :: "disk_state \<Rightarrow> fs_superblock \<Rightarrow> fs_error + disk_state" where
  "fs_ops_write_superblock d sb =
     (case disk_write_block d FS_SUPERBLOCK_BLOCK
             (Some (memcpy_at (replicate BLOCK_SIZE 0) 0 (enc_superblock sb))) of
        Inl e \<Rightarrow> Inl FS_ERROR_IO
      | Inr d' \<Rightarrow> Inr d')"

text \<open>
  \<^verbatim>\<open>fs_ops_read_superblock(sb)\<close>: the status and the content of \<^verbatim>\<open>*sb\<close> afterwards, which is
  overwritten before the magic number and the checksum are checked.
\<close>

definition fs_ops_read_superblock ::
  "disk_state \<Rightarrow> fs_superblock \<Rightarrow> (fs_error + unit) \<times> fs_superblock" where
  "fs_ops_read_superblock d sb_old =
     (case disk_read_block d FS_SUPERBLOCK_BLOCK True of
        Inl e \<Rightarrow> (Inl FS_ERROR_IO, sb_old)
      | Inr buffer \<Rightarrow>
          let sb = dec_superblock (slice buffer 0 152) in
          if magic_number sb \<noteq> FS_MAGIC_NUMBER then (Inl FS_ERROR_CORRUPTED, sb)
          else if checksum sb \<noteq> superblock_checksum sb then (Inl FS_ERROR_CORRUPTED, sb)
          else (Inr (), sb))"

subsection \<open>Bitmaps on disk\<close>

text \<open>
  The copy loop of \<^verbatim>\<open>fs_ops_write_bitmap\<close>. A failed block write ends it with the I/O
  error; the blocks written before stay written.
\<close>

function write_bitmap_loop ::
  "disk_state \<Rightarrow> u8 list \<Rightarrow> nat \<Rightarrow> u32 \<Rightarrow> nat \<Rightarrow> nat \<Rightarrow> nat \<Rightarrow> (fs_error + unit) \<times> disk_state" where
  "write_bitmap_loop d bytes nbytes start_block nblocks blk bytes_written =
     (if blk < nblocks \<and> bytes_written < nbytes then
        (let bytes_to_copy = min (nbytes - bytes_written) BLOCK_SIZE;
             buffer = memcpy_at (replicate BLOCK_SIZE 0) 0 (slice bytes bytes_written bytes_to_copy)
         in case disk_write_block d (start_block + of_nat blk) (Some buffer) of
              Inl e \<Rightarrow> (Inl FS_ERROR_IO, d)
            | Inr d' \<Rightarrow>
                write_bitmap_loop d' bytes nbytes start_block nblocks (Suc blk)
                  (bytes_written + bytes_to_copy))
      else (Inr (), d))"
  by pat_completeness auto
termination
  by (relation "measure (\<lambda>(d, bytes, nbytes, start_block, nblocks, blk, bw). nblocks - blk)") auto

declare write_bitmap_loop.simps [simp del]

text \<open>\<^verbatim>\<open>fs_ops_write_bitmap\<close>; the size test is in 32-bit arithmetic.\<close>

definition fs_ops_write_bitmap ::
  "disk_state \<Rightarrow> fs_bitmap \<Rightarrow> u32 \<Rightarrow> u32 \<Rightarrow> (fs_error + unit) \<times> disk_state" where
  "fs_ops_write_bitmap d bm start_block nblocks =
     (case bitmap bm of
        None \<Rightarrow> (Inl FS_ERROR_INVALID_PARAM, d)
      | Some bytes \<Rightarrow>
          let nbytes = (total_bits bm + 7) div 8;
              total_bytes_needed = (nbytes + 1024 - 1) div 1024 * 1024
          in if nblocks * 1024 < total_bytes_needed then (Inl FS_ERROR_NO_SPACE, d)
             else write_bitmap_loop d bytes (unat nbytes) start_block (unat nblocks) 0 0)"

text \<open>
  The copy loop of \<^verbatim>\<open>fs_ops_read_bitmap\<close>, which writes through the \<^verbatim>\<open>bitmap\<close> pointer
  without a NULL check, and the counting loop after it.
\<close>

function read_bitmap_loop ::
  "disk_state \<Rightarrow> u8 list option \<Rightarrow> nat \<Rightarrow> u32 \<Rightarrow> nat \<Rightarrow> nat \<Rightarrow> nat
     \<Rightarrow> (fs_error + unit) \<times> u8 list option" where
  "read_bitmap_loop d bytes nbytes start_block nblocks blk bytes_read =
     (if blk < nblocks \<and> bytes_read < nbytes then
        (case disk_read_block d (start_block + of_nat blk) True of
           Inl e \<Rightarrow> (Inl FS_ERROR_IO, bytes)
         | Inr buffer \<Rightarrow>
             (let bytes_to_copy = min (nbytes - bytes_read) BLOCK_SIZE
              in read_bitmap_loop d
                   (Some (memcpy_at (the bytes) bytes_read (slice buffer 0 bytes_to_copy)))
                   nbytes start_block nblocks (Suc blk) (bytes_read + bytes_to_copy)))
      else (Inr (), bytes))"
  by pat_completeness auto
termination
  by (relation "measure (\<lambda>(d, bytes, nbytes, start_block, nblocks, blk, br). nblocks - blk)") auto

declare read_bitmap_loop.simps [simp del]

definition fs_ops_read_bitmap ::
  "disk_state \<Rightarrow> fs_bitmap \<Rightarrow> u32 \<Rightarrow> u32 \<Rightarrow> (fs_error + unit) \<times> fs_bitmap" where
  "fs_ops_read_bitmap d bm start_block nblocks =
     (case read_bitmap_loop d (bitmap bm) (bitmap_bytes (total_bits bm)) start_block
             (unat nblocks) 0 0 of
        (Inl e, bytes) \<Rightarrow> (Inl e, bm\<lparr>bitmap := bytes\<rparr>)
      | (Inr u, bytes) \<Rightarrow>
          (Inr (), bm\<lparr>bitmap := bytes,
                      free_count := of_nat (count_free (the bytes) (unat (total_bits bm)))\<rparr>))"

subsection \<open>Formatting\<close>

definition FS_ROOT_PERMISSIONS :: u16 where
  "FS_ROOT_PERMISSIONS = 493"

text \<open>
  \<^verbatim>\<open>fs_ops_create_root_directory\<close>. The directory block is zeroed before the two entries
  are filled, so \<^verbatim>\<open>strcpy\<close> leaves the same filename bytes as \<open>filename_field\<close>.
\<close>

definition root_dir_block :: block where
  "root_dir_block =
     write_entry
       (write_entry (replicate BLOCK_SIZE 0) 0 ROOT_INODE_NUM 1 (ucast FS_FILE_TYPE_DIRECTORY)
          (filename_field [0x2E]))
       1 ROOT_INODE_NUM 2 (ucast FS_FILE_TYPE_DIRECTORY) (filename_field [0x2E, 0x2E])"

definition fs_ops_create_root_directory :: "sys \<Rightarrow> u64 \<Rightarrow> (fs_error + unit) \<times> sys" where
  "fs_ops_create_root_directory s now =
     (let fs = g_fs_state s; sb = superblock fs;
          data_block = data_blocks_start sb;
          root =
            zero_inode\<lparr>inode_number := ROOT_INODE_NUM, file_type := FS_FILE_TYPE_DIRECTORY,
                       permissions := FS_ROOT_PERMISSIONS, owner_uid := 0, owner_gid := 0,
                       link_count := 2, access_time := now, modify_time := now,
                       change_time := now, create_time := now,
                       direct_blocks := (direct_blocks zero_inode)[0 := data_block],
                       block_count := 1, file_size := of_nat (2 * DIRENT_SIZE)\<rparr>
      in case disk_write_block (g_disk_state s) data_block (Some root_dir_block) of
           Inl e \<Rightarrow> (Inl FS_ERROR_IO, s)
         | Inr d1 \<Rightarrow>
             (let inode_block =
                    (case disk_read_block d1 (inode_block_num sb ROOT_INODE_NUM) True of
                       Inl e \<Rightarrow> replicate BLOCK_SIZE 0
                     | Inr blk \<Rightarrow> blk)
              in case disk_write_block d1 (inode_block_num sb ROOT_INODE_NUM)
                        (Some (memcpy_at inode_block (inode_offset ROOT_INODE_NUM) (enc_inode root))) of
                   Inl e \<Rightarrow> (Inl FS_ERROR_IO, s\<lparr>g_disk_state := d1\<rparr>)
                 | Inr d2 \<Rightarrow>
                     (Inr (),
                      s\<lparr>g_disk_state := d2,
                        g_fs_state :=
                          fs\<lparr>inode_bitmap := set_bitmap_bit (inode_bitmap fs) ROOT_INODE_NUM,
                             block_bitmap :=
                               set_bitmap_bit (block_bitmap fs)
                                 (data_block - data_blocks_start sb)\<rparr>\<rparr>)))"

text \<open>The \<^verbatim>\<open>cleanup\<close> label of \<^verbatim>\<open>format_disk\<close>: both bitmap arrays are freed.\<close>

definition format_cleanup :: "sys \<Rightarrow> sys" where
  "format_cleanup s =
     s\<lparr>g_fs_state :=
         (g_fs_state s)\<lparr>inode_bitmap := (inode_bitmap (g_fs_state s))\<lparr>bitmap := None\<rparr>,
                        block_bitmap := (block_bitmap (g_fs_state s))\<lparr>bitmap := None\<rparr>\<rparr>\<rparr>"

text \<open>
  \<^verbatim>\<open>format_disk\<close> returns nothing; the model returns the two globals as it leaves them.
  \<open>now_sb\<close> and \<open>now_root\<close> are the two readings of the clock.
\<close>

definition format_disk :: "sys \<Rightarrow> u64 \<Rightarrow> u64 \<Rightarrow> sys" where
  "format_disk s now_sb now_root =
     (let d = g_disk_state s in
      if \<not> is_initialized d then s
      else if block_size d \<noteq> of_nat BLOCK_SIZE then s
      else
        let sb = fs_ops_init_superblock (total_blocks d) now_sb;
            s1 = s\<lparr>g_fs_state := (g_fs_state s)\<lparr>superblock := sb\<rparr>\<rparr>
        in case fs_ops_write_superblock d sb of
             Inl e \<Rightarrow> s1
           | Inr d1 \<Rightarrow>
               (let s2 = s1\<lparr>g_disk_state := d1\<rparr> in
                case fs_ops_init_bitmap (total_inodes sb) of
                  Inl e \<Rightarrow> s2
                | Inr ibm \<Rightarrow>
                    (let s3 = s2\<lparr>g_fs_state := (g_fs_state s2)\<lparr>inode_bitmap := ibm\<rparr>\<rparr> in
                     case fs_ops_init_bitmap (total_blocks d - data_blocks_start sb) of
                       Inl e \<Rightarrow> s3
                     | Inr bbm \<Rightarrow>
                         (let s4 = s3\<lparr>g_fs_state := (g_fs_state s3)\<lparr>block_bitmap := bbm\<rparr>\<rparr> in
                          case fs_ops_create_root_directory s4 now_root of
                            (Inl e, s5) \<Rightarrow> format_cleanup s5
                          | (Inr u, s5) \<Rightarrow>
                              (case fs_ops_write_bitmap (g_disk_state s5)
                                      (inode_bitmap (g_fs_state s5))
                                      FS_INODE_BITMAP_BLOCK FS_BITMAP_BLOCKS of
                                 (Inl e, d6) \<Rightarrow> format_cleanup (s5\<lparr>g_disk_state := d6\<rparr>)
                               | (Inr u, d6) \<Rightarrow>
                                   (case fs_ops_write_bitmap d6 (block_bitmap (g_fs_state s5))
                                           FS_DATA_BITMAP_BLOCK FS_BITMAP_BLOCKS of
                                      (Inl e, d7) \<Rightarrow> format_cleanup (s5\<lparr>g_disk_state := d7\<rparr>)
                                    | (Inr u, d7) \<Rightarrow>
                                        (let fs5 = g_fs_state s5;
                                             sb8 = (superblock fs5)
                                                     \<lparr>free_inodes := free_count (inode_bitmap fs5),
                                                      free_blocks := free_count (block_bitmap fs5)\<rparr>;
                                             sb9 = sb8\<lparr>checksum := superblock_checksum sb8\<rparr>;
                                             s9 = s5\<lparr>g_disk_state := d7,
                                                     g_fs_state := fs5\<lparr>superblock := sb9\<rparr>\<rparr>
                                         in case fs_ops_write_superblock d7 sb9 of
                                              Inl e \<Rightarrow> format_cleanup s9
                                            | Inr d10 \<Rightarrow> s9\<lparr>g_disk_state := d10\<rparr>)))))))"

subsection \<open>Directories\<close>

text \<open>
  \<^verbatim>\<open>parse_path\<close>: the parent inode and the file name, cut to 63 characters. \<open>0x2F\<close> is the
  slash.
\<close>

definition parse_path :: "u8 list \<Rightarrow> fs_error + (u32 \<times> u8 list)" where
  "parse_path path =
     (let p = c_str path in
      if p \<noteq> [] \<and> hd p = 0x2F then
        (let name_start = tl p in
         if name_start = [] then Inr (ROOT_INODE_NUM, [])
         else if 0x2F \<in> set name_start then Inl FS_ERROR_INVALID_PARAM
         else Inr (ROOT_INODE_NUM, take (MAX_FILENAME_LEN - 1) name_start))
      else if 0x2F \<in> set p then Inl FS_ERROR_INVALID_PARAM
      else Inr (ROOT_INODE_NUM, take (MAX_FILENAME_LEN - 1) p))"

text \<open>The inner loop of \<^verbatim>\<open>find_file_in_directory\<close>: the first valid entry with the name.\<close>

definition find_entry :: "block \<Rightarrow> u8 list \<Rightarrow> nat option" where
  "find_entry blk filename =
     find (\<lambda>i. entry_is_valid blk i \<and> entry_filename blk i = c_str filename) [0..<max_entries]"

function find_file_loop :: "disk_state \<Rightarrow> fs_inode \<Rightarrow> u8 list \<Rightarrow> nat \<Rightarrow> u32" where
  "find_file_loop d dir_inode filename block_idx =
     (if block_idx < DIRECT_BLOCKS \<and> direct_blocks dir_inode ! block_idx \<noteq> 0 then
        (case disk_read_block d (direct_blocks dir_inode ! block_idx) True of
           Inl e \<Rightarrow> find_file_loop d dir_inode filename (Suc block_idx)
         | Inr block_data \<Rightarrow>
             (case find_entry block_data filename of
                Some i \<Rightarrow> entry_inode_number block_data i
              | None \<Rightarrow> find_file_loop d dir_inode filename (Suc block_idx)))
      else 0)"
  by pat_completeness auto
termination
  by (relation "measure (\<lambda>(d, dir_inode, filename, block_idx). DIRECT_BLOCKS - block_idx)") auto

declare find_file_loop.simps [simp del]

definition find_file_in_directory :: "sys \<Rightarrow> u32 \<Rightarrow> u8 list \<Rightarrow> u32" where
  "find_file_in_directory s dir_inode_num filename =
     (if dir_inode_num = 0 then 0
      else case fs_ops_read_inode s dir_inode_num of
             Inl e \<Rightarrow> 0
           | Inr dir_inode \<Rightarrow>
               if file_type dir_inode \<noteq> FS_FILE_TYPE_DIRECTORY then 0
               else find_file_loop (g_disk_state s) dir_inode filename 0)"

text \<open>The inner loop of \<^verbatim>\<open>add_file_to_directory\<close>: the first entry that is not valid.\<close>

definition find_free_entry :: "block \<Rightarrow> nat option" where
  "find_free_entry blk = find (\<lambda>i. \<not> entry_is_valid blk i) [0..<max_entries]"

text \<open>
  The outer loop of \<^verbatim>\<open>add_file_to_directory\<close>, over the direct block pointers of the local
  copy of the directory inode. The result of the final \<^verbatim>\<open>fs_ops_write_inode\<close> is ignored.
\<close>

function add_file_loop ::
  "sys \<Rightarrow> fs_inode \<Rightarrow> u32 \<Rightarrow> u8 list \<Rightarrow> u32 \<Rightarrow> u64 \<Rightarrow> nat \<Rightarrow> (fs_error + unit) \<times> sys" where
  "add_file_loop s dir_inode dir_inode_num filename file_inode_num now block_idx =
     (if block_idx < DIRECT_BLOCKS then
        (let fs = g_fs_state s;
             step =
               (if direct_blocks dir_inode ! block_idx = 0 then
                  (case alloc_bitmap_bit (block_bitmap fs) of
                     (new_block, bm) \<Rightarrow>
                       if new_block = 0
                       then Inl (FS_ERROR_NO_SPACE, s\<lparr>g_fs_state := fs\<lparr>block_bitmap := bm\<rparr>\<rparr>)
                       else Inr (s\<lparr>g_fs_state := fs\<lparr>block_bitmap := bm\<rparr>\<rparr>,
                                 dir_inode\<lparr>direct_blocks :=
                                             (direct_blocks dir_inode)
                                               [block_idx := new_block + data_blocks_start (superblock fs)],
                                           block_count := block_count dir_inode + 1\<rparr>,
                                 replicate BLOCK_SIZE 0))
                else
                  (case disk_read_block (g_disk_state s) (direct_blocks dir_inode ! block_idx) True of
                     Inl e \<Rightarrow> Inl (FS_ERROR_IO, s)
                   | Inr block_data \<Rightarrow> Inr (s, dir_inode, block_data)))
         in case step of
              Inl (e, s') \<Rightarrow> (Inl e, s')
            | Inr (s1, dir_inode1, block_data) \<Rightarrow>
                (case find_free_entry block_data of
                   Some i \<Rightarrow>
                     (case disk_write_block (g_disk_state s1) (direct_blocks dir_inode1 ! block_idx)
                             (Some (write_entry block_data i file_inode_num
                                      (of_nat (length (c_str filename)))
                                      (ucast FS_FILE_TYPE_REGULAR) (filename_field filename))) of
                        Inl e \<Rightarrow> (Inl FS_ERROR_IO, s1)
                      | Inr d2 \<Rightarrow>
                          (let s2 = s1\<lparr>g_disk_state := d2\<rparr>;
                               dir_inode2 =
                                 dir_inode1\<lparr>file_size := of_nat ((block_idx + 1) * BLOCK_SIZE),
                                            modify_time := now, change_time := now\<rparr>
                           in (Inr (),
                               (case fs_ops_write_inode s2 dir_inode_num dir_inode2 of
                                  Inl e \<Rightarrow> s2
                                | Inr s3 \<Rightarrow> s3))))
                 | None \<Rightarrow>
                     add_file_loop s1 dir_inode1 dir_inode_num filename file_inode_num now
                       (Suc block_idx)))
      else (Inl FS_ERROR_NO_SPACE, s))"
  by pat_completeness auto
termination
  by (relation "measure (\<lambda>(s, dir_inode, dir_inode_num, filename, file_inode_num, now, block_idx).
                            DIRECT_BLOCKS - block_idx)") auto

declare add_file_loop.simps [simp del]

definition add_file_to_directory ::
  "sys \<Rightarrow> u32 \<Rightarrow> u8 list \<Rightarrow> u32 \<Rightarrow> u64 \<Rightarrow> (fs_error + unit) \<times> sys" where
  "add_file_to_directory s dir_inode_num filename file_inode_num now =
     (if dir_inode_num = 0 \<or> file_inode_num = 0 then (Inl FS_ERROR_INVALID_PARAM, s)
      else case fs_ops_read_inode s dir_inode_num of
             Inl e \<Rightarrow> (Inl FS_ERROR_IO, s)
           | Inr dir_inode \<Rightarrow>
               if file_type dir_inode \<noteq> FS_FILE_TYPE_DIRECTORY then (Inl FS_ERROR_NOT_DIRECTORY, s)
               else add_file_loop s dir_inode dir_inode_num filename file_inode_num now 0)"

subsection \<open>Opening files\<close>

text \<open>
  \<^verbatim>\<open>load_filesystem_state\<close> of fs\_ops.c, run by \<^verbatim>\<open>fs_open\<close> when the magic number of the
  superblock in memory is not set. It ends by clearing the table of open files.
\<close>

definition load_filesystem_state :: "sys \<Rightarrow> (fs_error + unit) \<times> sys" where
  "load_filesystem_state s =
     (let d = g_disk_state s; fs = g_fs_state s in
      case fs_ops_read_superblock d (superblock fs) of
        (Inl e, sb) \<Rightarrow> (Inl e, s\<lparr>g_fs_state := fs\<lparr>superblock := sb\<rparr>\<rparr>)
      | (Inr u, sb) \<Rightarrow>
          (case fs_ops_read_bitmap d (inode_bitmap fs) FS_INODE_BITMAP_BLOCK FS_BITMAP_BLOCKS of
             (Inl e, ibm) \<Rightarrow> (Inl e, s\<lparr>g_fs_state := fs\<lparr>superblock := sb, inode_bitmap := ibm\<rparr>\<rparr>)
           | (Inr u, ibm) \<Rightarrow>
               (case fs_ops_read_bitmap d (block_bitmap fs) FS_DATA_BITMAP_BLOCK FS_BITMAP_BLOCKS of
                  (Inl e, bbm) \<Rightarrow>
                    (Inl e, s\<lparr>g_fs_state := fs\<lparr>superblock := sb, inode_bitmap := ibm,
                                                block_bitmap := bbm\<rparr>\<rparr>)
                | (Inr u, bbm) \<Rightarrow>
                    (Inr (), s\<lparr>g_fs_state := fs\<lparr>superblock := sb, inode_bitmap := ibm,
                                                block_bitmap := bbm,
                                                open_files := replicate MAX_OPEN_FILES zero_handle\<rparr>\<rparr>))))"

text \<open>
  \<^verbatim>\<open>load_filesystem_state_if_needed\<close> of file\_ops.c: the same without clearing the table,
  and only when the magic number is not set.
\<close>

definition load_filesystem_state_if_needed :: "sys \<Rightarrow> (fs_error + unit) \<times> sys" where
  "load_filesystem_state_if_needed s =
     (let d = g_disk_state s; fs = g_fs_state s in
      if magic_number (superblock fs) = FS_MAGIC_NUMBER then (Inr (), s)
      else
        case fs_ops_read_superblock d (superblock fs) of
          (Inl e, sb) \<Rightarrow> (Inl e, s\<lparr>g_fs_state := fs\<lparr>superblock := sb\<rparr>\<rparr>)
        | (Inr u, sb) \<Rightarrow>
            (case fs_ops_read_bitmap d (inode_bitmap fs) FS_INODE_BITMAP_BLOCK FS_BITMAP_BLOCKS of
               (Inl e, ibm) \<Rightarrow> (Inl e, s\<lparr>g_fs_state := fs\<lparr>superblock := sb, inode_bitmap := ibm\<rparr>\<rparr>)
             | (Inr u, ibm) \<Rightarrow>
                 (case fs_ops_read_bitmap d (block_bitmap fs) FS_DATA_BITMAP_BLOCK FS_BITMAP_BLOCKS of
                    (Inl e, bbm) \<Rightarrow>
                      (Inl e, s\<lparr>g_fs_state := fs\<lparr>superblock := sb, inode_bitmap := ibm,
                                                  block_bitmap := bbm\<rparr>\<rparr>)
                  | (Inr u, bbm) \<Rightarrow>
                      (Inr (), s\<lparr>g_fs_state := fs\<lparr>superblock := sb, inode_bitmap := ibm,
                                                  block_bitmap := bbm\<rparr>\<rparr>))))"

text \<open>The descriptor loop of \<^verbatim>\<open>fs_open\<close>: the first slot with reference count 0.\<close>

definition find_free_fd :: "fs_file_handle list \<Rightarrow> nat option" where
  "find_free_fd tbl = find (\<lambda>fd. reference_count (tbl ! fd) = 0) [0..<MAX_OPEN_FILES]"

text \<open>
  The part of \<^verbatim>\<open>fs_open\<close> after the state is loaded. The result is the descriptor or the
  error code; \<open>now_open\<close> and \<open>now_access\<close> are the two readings of the clock.
\<close>

definition fs_open_loaded :: "sys \<Rightarrow> u8 list \<Rightarrow> u64 \<Rightarrow> u64 \<Rightarrow> (fs_error + nat) \<times> sys" where
  "fs_open_loaded s path now_open now_access =
     (case parse_path path of
        Inl e \<Rightarrow> (Inl e, s)
      | Inr (parent_inode, filename) \<Rightarrow>
          if filename = [] then (Inl FS_ERROR_INVALID_PARAM, s)
          else
            let file_inode_num = find_file_in_directory s parent_inode filename in
            if file_inode_num = 0 then (Inl FS_ERROR_FILE_NOT_FOUND, s)
            else
              case fs_ops_read_inode s file_inode_num of
                Inl e \<Rightarrow> (Inl e, s)
              | Inr file_inode \<Rightarrow>
                  if file_type file_inode = FS_FILE_TYPE_DIRECTORY
                  then (Inl FS_ERROR_IS_DIRECTORY, s)
                  else if \<not> user_manager_check_permission (g_fs_state s) file_inode FS_PERM_OWNER_READ
                  then (Inl FS_ERROR_PERMISSION, s)
                  else
                    case find_free_fd (open_files (g_fs_state s)) of
                      None \<Rightarrow> (Inl FS_ERROR_TOO_MANY_OPEN, s)
                    | Some fd \<Rightarrow>
                        (let fs = g_fs_state s;
                             h = \<lparr>fh_inode_number = file_inode_num,
                                  fh_flags = FS_OPEN_READ OR FS_OPEN_WRITE,
                                  file_position = 0, reference_count = 1,
                                  open_time = now_open,
                                  fh_owner_uid = user_manager_get_current_uid fs\<rparr>;
                             s1 = s\<lparr>g_fs_state := fs\<lparr>open_files := (open_files fs)[fd := h]\<rparr>\<rparr>
                         in (Inr fd,
                             (case fs_ops_write_inode s1 file_inode_num
                                     (file_inode\<lparr>access_time := now_access\<rparr>) of
                                Inl e \<Rightarrow> s1
                              | Inr s2 \<Rightarrow> s2))))"

text \<open>\<^verbatim>\<open>fs_open\<close>; the path is \<open>None\<close> for a NULL pointer.\<close>

definition fs_open :: "sys \<Rightarrow> u8 list option \<Rightarrow> u64 \<Rightarrow> u64 \<Rightarrow> (fs_error + nat) \<times> sys" where
  "fs_open s path now_open now_access =
     (case path of
        None \<Rightarrow> (Inl FS_ERROR_INVALID_PARAM, s)
      | Some p \<Rightarrow>
          if magic_number (superblock (g_fs_state s)) \<noteq> FS_MAGIC_NUMBER then
            (case load_filesystem_state s of
               (Inl e, s') \<Rightarrow> (Inl e, s')
             | (Inr u, s') \<Rightarrow> fs_open_loaded s' p now_open now_access)
          else fs_open_loaded s p now_open now_access)"

section \<open>Reading and writing files (file\_ops.c)\<close>

text \<open>\<^verbatim>\<open>file_ops_validate_fd\<close>; the descriptor is a C \<^verbatim>\<open>int\<close>.\<close>

definition file_ops_validate_fd :: "fs_state \<Rightarrow> int \<Rightarrow> fs_error + unit" where
  "file_ops_validate_fd fs fd =
     (if fd < 0 \<or> int MAX_OPEN_FILES \<le> fd then Inl FS_ERROR_INVALID_PARAM
      else if reference_count (open_files fs ! nat fd) = 0 then Inl FS_ERROR_INVALID_PARAM
      else Inr ())"

text \<open>
  \<^verbatim>\<open>file_ops_calculate_block_position\<close>: the block index is stored in 32 bits.
\<close>

definition block_index_of :: "nat \<Rightarrow> nat" where
  "block_index_of file_offset = (file_offset div BLOCK_SIZE) mod 2 ^ 32"

definition block_offset_of :: "nat \<Rightarrow> nat" where
  "block_offset_of file_offset = file_offset mod BLOCK_SIZE"

definition file_ops_get_data_block :: "fs_inode \<Rightarrow> nat \<Rightarrow> u32" where
  "file_ops_get_data_block inode block_index =
     (if block_index < DIRECT_BLOCKS then direct_blocks inode ! block_index else 0)"

text \<open>
  \<^verbatim>\<open>file_ops_allocate_data_block\<close>: the block number it returns, the inode and the block
  bitmap afterwards.
\<close>

definition file_ops_allocate_data_block ::
  "fs_state \<Rightarrow> fs_inode \<Rightarrow> nat \<Rightarrow> u32 \<times> fs_inode \<times> fs_state" where
  "file_ops_allocate_data_block fs inode block_index =
     (if block_index < DIRECT_BLOCKS then
        (if direct_blocks inode ! block_index = 0 then
           (case alloc_data_block_from_bitmap (block_bitmap fs) (data_blocks_start (superblock fs)) of
              (new_block, bm) \<Rightarrow>
                if 0 < new_block
                then (new_block,
                      inode\<lparr>direct_blocks := (direct_blocks inode)[block_index := new_block]\<rparr>,
                      fs\<lparr>block_bitmap := bm\<rparr>)
                else (direct_blocks inode ! block_index, inode, fs\<lparr>block_bitmap := bm\<rparr>))
         else (direct_blocks inode ! block_index, inode, fs))
      else (0, inode, fs))"

text \<open>
  The loop of \<^verbatim>\<open>fs_write\<close>. \<^verbatim>\<open>current_offset\<close> and \<^verbatim>\<open>bytes_written\<close> advance together, so
  the loop is indexed by \<open>bytes_written\<close> and \<^verbatim>\<open>current_offset\<close> is
  \<open>start_offset + bytes_written\<close>; \<^verbatim>\<open>end_offset\<close> is computed in 64 bits. The state of the
  loop is the two globals, the local inode and \<^verbatim>\<open>bytes_written\<close>. One pass through the body
  either ends the loop (\<open>Inl\<close>, at one of the three \<^verbatim>\<open>break\<close> statements) or goes on (\<open>Inr\<close>).
\<close>

definition fs_write_body ::
  "sys \<Rightarrow> fs_inode \<Rightarrow> nat \<Rightarrow> u8 list \<Rightarrow> nat \<Rightarrow> nat
     \<Rightarrow> (sys \<times> fs_inode \<times> nat) + (sys \<times> fs_inode \<times> nat)" where
  "fs_write_body s inode start_offset data sz bytes_written =
     (let current_offset = start_offset + bytes_written;
          block_index = block_index_of current_offset;
          block_offset = block_offset_of current_offset;
          (block_num, inode1, fs1) =
            (if file_ops_get_data_block inode block_index = 0
             then file_ops_allocate_data_block (g_fs_state s) inode block_index
             else (file_ops_get_data_block inode block_index, inode, g_fs_state s));
          s1 = s\<lparr>g_fs_state := fs1\<rparr>
      in if block_num = 0 then Inl (s1, inode1, bytes_written)
         else
           case disk_read_block (g_disk_state s1) block_num True of
             Inl e \<Rightarrow> Inl (s1, inode1, bytes_written)
           | Inr block_data \<Rightarrow>
               (let bytes_to_write = min (BLOCK_SIZE - block_offset) (sz - bytes_written)
                in case disk_write_block (g_disk_state s1) block_num
                          (Some (memcpy_at block_data block_offset
                                   (slice data bytes_written bytes_to_write))) of
                     Inl e \<Rightarrow> Inl (s1, inode1, bytes_written)
                   | Inr d2 \<Rightarrow>
                       Inr (s1\<lparr>g_disk_state := d2\<rparr>, inode1, bytes_written + bytes_to_write)))"

function fs_write_loop ::
  "sys \<Rightarrow> fs_inode \<Rightarrow> nat \<Rightarrow> u8 list \<Rightarrow> nat \<Rightarrow> nat \<Rightarrow> sys \<times> fs_inode \<times> nat" where
  "fs_write_loop s inode start_offset data sz bytes_written =
     (if start_offset + bytes_written < (start_offset + sz) mod 2 ^ 64 then
        (case fs_write_body s inode start_offset data sz bytes_written of
           Inl r \<Rightarrow> r
         | Inr (s', inode', bw') \<Rightarrow> fs_write_loop s' inode' start_offset data sz bw')
      else (s, inode, bytes_written))"
  by pat_completeness auto
termination
proof (relation "measure (\<lambda>(s, inode, start_offset, data, sz, bytes_written). sz - bytes_written)",
    goal_cases)
  case 1
  then show ?case by simp
next
  case (2 s inode start_offset data sz bytes_written r s' rest inode' bw')
  have "(start_offset + sz) mod 2 ^ 64 \<le> start_offset + sz" by simp
  with 2(1) have lt: "bytes_written < sz" by linarith
  have "block_offset_of (start_offset + bytes_written) < BLOCK_SIZE"
    by (simp add: block_offset_of_def BLOCK_SIZE_def)
  moreover from 2
  have "fs_write_body s inode start_offset data sz bytes_written = Inr (s', inode', bw')"
    by simp
  ultimately have "bytes_written < bw' \<and> bw' \<le> sz"
    using lt by (auto simp: fs_write_body_def Let_def split: prod.splits if_splits sum.splits)
  then show ?case by auto
qed

declare fs_write_loop.simps [simp del]

text \<open>
  \<^verbatim>\<open>fs_write\<close>. The result is the error code or the value of \<^verbatim>\<open>bytes_written\<close>; the result of
  \<^verbatim>\<open>write_inode_to_disk\<close> only produces a warning.
\<close>

definition fs_write :: "sys \<Rightarrow> int \<Rightarrow> u8 list option \<Rightarrow> int \<Rightarrow> u64 \<Rightarrow> (fs_error + int) \<times> sys" where
  "fs_write s fd data sz now =
     (if data = None \<or> sz \<le> 0 then (Inl FS_ERROR_INVALID_PARAM, s)
      else case file_ops_validate_fd (g_fs_state s) fd of
        Inl e \<Rightarrow> (Inl e, s)
      | Inr u \<Rightarrow>
          (case load_filesystem_state_if_needed s of
             (Inl e, s') \<Rightarrow> (Inl e, s')
           | (Inr u, s0) \<Rightarrow>
               (let handle = open_files (g_fs_state s0) ! nat fd in
                case read_inode_from_disk s0 (fh_inode_number handle) of
                  Inl e \<Rightarrow> (Inl e, s0)
                | Inr inode \<Rightarrow>
                    if file_type inode \<noteq> FS_FILE_TYPE_REGULAR then (Inl FS_ERROR_INVALID_PARAM, s0)
                    else if \<not> user_manager_check_permission (g_fs_state s0) inode FS_PERM_OWNER_WRITE
                    then (Inl FS_ERROR_PERMISSION, s0)
                    else
                      (case fs_write_loop s0 inode (unat (file_position handle)) (the data)
                              (nat sz) 0 of
                         (s1, inode1, bytes_written) \<Rightarrow>
                           if 0 < bytes_written then
                             (let new_size = file_position handle + of_nat bytes_written;
                                  inode2 =
                                    (if file_size inode1 < new_size
                                     then inode1\<lparr>file_size := new_size,
                                                 block_count :=
                                                   ucast ((new_size + of_nat BLOCK_SIZE - 1)
                                                            div of_nat BLOCK_SIZE)\<rparr>
                                     else inode1);
                                  inode3 = inode2\<lparr>modify_time := now, change_time := now\<rparr>;
                                  s2 = (case write_inode_to_disk s1 (fh_inode_number handle) inode3 of
                                          Inl e \<Rightarrow> s1
                                        | Inr s' \<Rightarrow> s');
                                  fs2 = g_fs_state s2
                              in (Inr (int bytes_written),
                                  s2\<lparr>g_fs_state :=
                                       fs2\<lparr>open_files :=
                                             (open_files fs2)
                                               [nat fd := (open_files fs2 ! nat fd)
                                                  \<lparr>file_position :=
                                                     file_position (open_files fs2 ! nat fd)
                                                       + of_nat bytes_written\<rparr>]\<rparr>\<rparr>))
                           else (Inr (int bytes_written), s1)))))"

text \<open>
  The loop of \<^verbatim>\<open>fs_read\<close>, indexed like the loop of \<^verbatim>\<open>fs_write\<close>; \<open>buffer\<close> is what has been
  copied to the caller's buffer so far. The end of the range cannot pass \<^verbatim>\<open>file_size\<close>, so
  it does not wrap.
\<close>

definition fs_read_body ::
  "disk_state \<Rightarrow> fs_inode \<Rightarrow> nat \<Rightarrow> nat \<Rightarrow> u8 list \<Rightarrow> nat
     \<Rightarrow> (u8 list \<times> nat) + (u8 list \<times> nat)" where
  "fs_read_body d inode start_offset sz buffer bytes_read =
     (let current_offset = start_offset + bytes_read;
          block_index = block_index_of current_offset;
          block_offset = block_offset_of current_offset;
          block_num = file_ops_get_data_block inode block_index
      in if block_num = 0 then Inl (buffer, bytes_read)
         else
           case disk_read_block d block_num True of
             Inl e \<Rightarrow> Inl (buffer, bytes_read)
           | Inr block_data \<Rightarrow>
               (let bytes_to_read = min (BLOCK_SIZE - block_offset) (sz - bytes_read)
                in Inr (buffer @ slice block_data block_offset bytes_to_read,
                        bytes_read + bytes_to_read)))"

function fs_read_loop ::
  "disk_state \<Rightarrow> fs_inode \<Rightarrow> nat \<Rightarrow> nat \<Rightarrow> u8 list \<Rightarrow> nat \<Rightarrow> u8 list \<times> nat" where
  "fs_read_loop d inode start_offset sz buffer bytes_read =
     (if start_offset + bytes_read < start_offset + sz then
        (case fs_read_body d inode start_offset sz buffer bytes_read of
           Inl r \<Rightarrow> r
         | Inr (buffer', br') \<Rightarrow> fs_read_loop d inode start_offset sz buffer' br')
      else (buffer, bytes_read))"
  by pat_completeness auto
termination
proof (relation "measure (\<lambda>(d, inode, start_offset, sz, buffer, bytes_read). sz - bytes_read)",
    goal_cases)
  case 1
  then show ?case by simp
next
  case (2 d inode start_offset sz buffer bytes_read r buffer' br')
  then have lt: "bytes_read < sz" by simp
  have "block_offset_of (start_offset + bytes_read) < BLOCK_SIZE"
    by (simp add: block_offset_of_def BLOCK_SIZE_def)
  moreover from 2
  have "fs_read_body d inode start_offset sz buffer bytes_read = Inr (buffer', br')"
    by simp
  ultimately have "bytes_read < br' \<and> br' \<le> sz"
    using lt by (auto simp: fs_read_body_def Let_def split: if_splits sum.splits)
  then show ?case by auto
qed

declare fs_read_loop.simps [simp del]

text \<open>
  \<^verbatim>\<open>fs_read\<close>: the error code or \<^verbatim>\<open>bytes_read\<close>, the bytes copied to the caller's buffer, and
  the state. \<open>buffer_ok\<close> is false for a NULL buffer.
\<close>

definition fs_read :: "sys \<Rightarrow> int \<Rightarrow> bool \<Rightarrow> int \<Rightarrow> u64 \<Rightarrow> (fs_error + int) \<times> u8 list \<times> sys" where
  "fs_read s fd buffer_ok sz now =
     (if \<not> buffer_ok \<or> sz \<le> 0 then (Inl FS_ERROR_INVALID_PARAM, [], s)
      else case file_ops_validate_fd (g_fs_state s) fd of
        Inl e \<Rightarrow> (Inl e, [], s)
      | Inr u \<Rightarrow>
          (case load_filesystem_state_if_needed s of
             (Inl e, s') \<Rightarrow> (Inl e, [], s')
           | (Inr u, s0) \<Rightarrow>
               (let handle = open_files (g_fs_state s0) ! nat fd in
                case read_inode_from_disk s0 (fh_inode_number handle) of
                  Inl e \<Rightarrow> (Inl e, [], s0)
                | Inr inode \<Rightarrow>
                    if file_type inode \<noteq> FS_FILE_TYPE_REGULAR then (Inl FS_ERROR_INVALID_PARAM, [], s0)
                    else if \<not> user_manager_check_permission (g_fs_state s0) inode FS_PERM_OWNER_READ
                    then (Inl FS_ERROR_PERMISSION, [], s0)
                    else if file_size inode \<le> file_position handle then (Inr 0, [], s0)
                    else
                      (let available_bytes = unat (file_size inode - file_position handle);
                           sz1 = (if available_bytes < nat sz then available_bytes else nat sz)
                       in case fs_read_loop (g_disk_state s0) inode (unat (file_position handle))
                                 sz1 [] 0 of
                            (buffer, bytes_read) \<Rightarrow>
                              if 0 < bytes_read then
                                (let fs0 = g_fs_state s0;
                                     s1 = s0\<lparr>g_fs_state :=
                                              fs0\<lparr>open_files :=
                                                    (open_files fs0)
                                                      [nat fd := handle
                                                         \<lparr>file_position :=
                                                            file_position handle + of_nat bytes_read\<rparr>]\<rparr>\<rparr>
                                 in (Inr (int bytes_read), buffer,
                                     (case write_inode_to_disk s1 (fh_inode_number handle)
                                             (inode\<lparr>access_time := now\<rparr>) of
                                        Inl e \<Rightarrow> s1
                                      | Inr s' \<Rightarrow> s')))
                              else (Inr (int bytes_read), buffer, s0)))))"


section \<open>Well-formed values and a small file system for examples\<close>

text \<open>
  An inode as the code holds it in memory: twelve direct block pointers and sixteen reserved
  bytes.
\<close>

definition inode_wf :: "fs_inode \<Rightarrow> bool" where
  "inode_wf i \<longleftrightarrow> length (direct_blocks i) = DIRECT_BLOCKS \<and> length (inode_reserved i) = 16"

text \<open>
  Every block slot of the backing file holds \<^verbatim>\<open>BLOCK_SIZE\<close> bytes.
\<close>

definition disk_wf :: "disk_state \<Rightarrow> bool" where
  "disk_wf d \<longleftrightarrow> (\<forall>n. length (storage d n) = BLOCK_SIZE)"

text \<open>
  What the loops of \<^verbatim>\<open>fs_write\<close> and of \<^verbatim>\<open>add_file_to_directory\<close> leave alone: everything in
  the two globals but the block bitmap and the content of the blocks.
\<close>

definition sys_frame :: "sys \<Rightarrow> sys \<Rightarrow> bool" where
  "sys_frame s s' \<longleftrightarrow>
     superblock (g_fs_state s') = superblock (g_fs_state s)
   \<and> inode_bitmap (g_fs_state s') = inode_bitmap (g_fs_state s)
   \<and> open_files (g_fs_state s') = open_files (g_fs_state s)
   \<and> users (g_fs_state s') = users (g_fs_state s)
   \<and> current_user_uid (g_fs_state s') = current_user_uid (g_fs_state s)
   \<and> is_initialized (g_disk_state s') = is_initialized (g_disk_state s)
   \<and> is_read_only (g_disk_state s') = is_read_only (g_disk_state s)
   \<and> total_blocks (g_disk_state s') = total_blocks (g_disk_state s)
   \<and> block_size (g_disk_state s') = block_size (g_disk_state s)"

text \<open>
  The blocks of a file belong to it alone: the twelve entries of \<^verbatim>\<open>direct_blocks\<close> that are
  not zero are distinct and lie in the data region; and either the block bitmap has no
  free block (\<^verbatim>\<open>free_count\<close> 0, as it is also after a restart, which leaves the array
  unallocated), or its array is allocated, holds \<^verbatim>\<open>total_bits\<close> bits with the bit of each
  of these blocks set, and the data region ends within 32 bits.
  \<^verbatim>\<open>file_ops_allocate_data_block\<close> keeps this.
\<close>

definition blocks_owned :: "fs_state \<Rightarrow> fs_inode \<Rightarrow> bool" where
  "blocks_owned fs inode \<longleftrightarrow>
     length (direct_blocks inode) = DIRECT_BLOCKS
   \<and> (\<forall>i < DIRECT_BLOCKS. \<forall>j < DIRECT_BLOCKS.
         i \<noteq> j \<and> direct_blocks inode ! i \<noteq> 0 \<longrightarrow>
           direct_blocks inode ! i \<noteq> direct_blocks inode ! j)
   \<and> (\<forall>i < DIRECT_BLOCKS. direct_blocks inode ! i \<noteq> 0 \<longrightarrow>
         data_blocks_start (superblock fs) \<le> direct_blocks inode ! i)
   \<and> (free_count (block_bitmap fs) = 0
      \<or> unat (data_blocks_start (superblock fs)) + unat (total_bits (block_bitmap fs)) \<le> 2 ^ 32
        \<and> (\<exists>bytes. bitmap (block_bitmap fs) = Some bytes
              \<and> unat (total_bits (block_bitmap fs)) \<le> 8 * length bytes
              \<and> (\<forall>i < DIRECT_BLOCKS. direct_blocks inode ! i \<noteq> 0 \<longrightarrow>
                    bit_is_set bytes
                      (unat (direct_blocks inode ! i - data_blocks_start (superblock fs))))))"

text \<open>
  A disk of 200 blocks with the layout \<^verbatim>\<open>format_disk\<close> gives it: the root directory is
  inode 1 with its entries in block 156, and the directory holds one more entry, the file
  \<^verbatim>\<open>a\<close> with inode 2. The inode of the file, the block bitmap, the table of open files
  and the user who is logged in are parameters.
\<close>

definition demo_superblock :: fs_superblock where
  "demo_superblock = fs_ops_init_superblock 200 0"

definition demo_root :: fs_inode where
  "demo_root = zero_inode\<lparr>inode_number := 1, file_type := FS_FILE_TYPE_DIRECTORY,
      permissions := FS_ROOT_PERMISSIONS, link_count := 2,
      direct_blocks := (direct_blocks zero_inode)[0 := 156], block_count := 1, file_size := 1024\<rparr>"

definition demo_dir_block :: block where
  "demo_dir_block = write_entry root_dir_block 2 2 1 (ucast FS_FILE_TYPE_REGULAR) (filename_field [0x61])"

definition demo_inode_block :: "fs_inode \<Rightarrow> block" where
  "demo_inode_block file =
     memcpy_at (memcpy_at (replicate BLOCK_SIZE 0) (inode_offset 1) (enc_inode demo_root))
       (inode_offset 2) (enc_inode file)"

definition no_bitmap :: fs_bitmap where
  "no_bitmap = \<lparr>bitmap = None, total_bits = 0, free_count = 0, last_allocated = 0\<rparr>"

definition demo_sys :: "fs_inode \<Rightarrow> fs_bitmap \<Rightarrow> fs_file_handle list \<Rightarrow> fs_user \<Rightarrow> sys" where
  "demo_sys file bbm tbl user =
     \<lparr>g_fs_state =
        \<lparr>superblock = demo_superblock,
         inode_bitmap = no_bitmap,
         block_bitmap = bbm, open_files = tbl, users = [user], current_user_uid = uid user\<rparr>,
      g_disk_state =
        \<lparr>is_initialized = True, is_read_only = False, total_blocks = 200, block_size = 1024,
         storage = (\<lambda>n. if n = 8 then demo_inode_block file
                         else if n = 156 then demo_dir_block else replicate BLOCK_SIZE 0)\<rparr>\<rparr>"

text \<open>A regular file of user 1000 with the given permission bits, and that user.\<close>

definition demo_file :: "u16 \<Rightarrow> fs_inode" where
  "demo_file perms = zero_inode\<lparr>inode_number := 2, file_type := FS_FILE_TYPE_REGULAR,
      permissions := perms, owner_uid := 1000, owner_gid := 1000, link_count := 1\<rparr>"

definition demo_user :: fs_user where
  "demo_user = \<lparr>uid = 1000, gid = 1000, is_active = True\<rparr>"

text \<open>
  An open handle on the file at the given position, in slot 0 of the table; the block
  bitmap as formatting 200 blocks leaves it (the block of the root directory in use), and
  one with no free block.
\<close>

definition demo_handle :: "u64 \<Rightarrow> fs_file_handle" where
  "demo_handle pos = \<lparr>fh_inode_number = 2, fh_flags = 3, file_position = pos,
                       reference_count = 1, open_time = 0, fh_owner_uid = 1000\<rparr>"

definition demo_table :: "u64 \<Rightarrow> fs_file_handle list" where
  "demo_table pos = (replicate MAX_OPEN_FILES zero_handle)[0 := demo_handle pos]"

definition demo_bitmap :: fs_bitmap where
  "demo_bitmap = \<lparr>bitmap = Some [1, 0, 0, 0, 0, 0], total_bits = 44, free_count = 43,
                   last_allocated = 0\<rparr>"

definition full_bitmap :: fs_bitmap where
  "full_bitmap = \<lparr>bitmap = Some [255, 255, 255, 255, 255, 15], total_bits = 44, free_count = 0,
                   last_allocated = 0\<rparr>"

text \<open>The file with one block, block 157, holding its first 1024 bytes.\<close>

definition demo_file_1block :: fs_inode where
  "demo_file_1block = (demo_file 420)\<lparr>file_size := 1024, block_count := 1,
      direct_blocks := (direct_blocks (demo_file 420))[0 := 157]\<rparr>"


text \<open>
  The file as a seek to 2048 and a write of 10 bytes leave it, with the first two block
  indices unmapped; and a file of the same size whose block index 1 alone is unmapped.
\<close>

definition demo_file_hole :: fs_inode where
  "demo_file_hole = (demo_file 420)\<lparr>file_size := 2058, block_count := 3,
      direct_blocks := (direct_blocks (demo_file 420))[2 := 157]\<rparr>"

definition demo_file_gap :: fs_inode where
  "demo_file_gap = (demo_file 420)\<lparr>file_size := 2058, block_count := 3,
      direct_blocks := (direct_blocks (demo_file 420))[0 := 157, 2 := 158]\<rparr>"

text \<open>
  The session as \<^verbatim>\<open>user_manager_init\<close> leaves it: the current uid is 0, and the table of
  users holds the user \<^verbatim>\<open>root\<close>, whom \<^verbatim>\<open>user_manager_create_user\<close>, asked for uid 0 and gid
  0, stores under the first free uid from 1000 and the default gid 1000, and the anonymous
  user.
\<close>

definition root_session :: "fs_inode \<Rightarrow> sys" where
  "root_session file =
     (let s = demo_sys file no_bitmap (replicate MAX_OPEN_FILES zero_handle) demo_user
      in s\<lparr>g_fs_state := (g_fs_state s)
             \<lparr>users := [demo_user, \<lparr>uid = 65534, gid = 65534, is_active = True\<rparr>],
              current_user_uid := 0\<rparr>\<rparr>)"

text \<open>
  The block bitmap of the 200 blocks with one block left, block 157 (bit 1).
\<close>

definition one_free_bitmap :: fs_bitmap where
  "one_free_bitmap = \<lparr>bitmap = Some [253, 255, 255, 255, 255, 15], total_bits = 44,
                       free_count = 1, last_allocated = 0\<rparr>"

text \<open>
  The two globals as a program has them after \<^verbatim>\<open>disk_init\<close> on a new backing file of the
  given number of blocks: the file system state zeroed, the disk initialized and filled with
  zero bytes.
\<close>

definition zero_superblock :: fs_superblock where
  "zero_superblock =
     \<lparr>magic_number = 0, version = 0, sb_block_size = 0, sb_total_blocks = 0, total_inodes = 0,
      free_blocks = 0, free_inodes = 0, inode_table_start = 0, inode_table_blocks = 0,
      data_blocks_start = 0, root_inode = 0, mount_count = 0, max_mount_count = 0,
      created_time = 0, last_mount_time = 0, last_write_time = 0, last_check_time = 0,
      sb_reserved = replicate 64 0, checksum = 0\<rparr>"

definition fresh_sys :: "u32 \<Rightarrow> sys" where
  "fresh_sys nblocks =
     \<lparr>g_fs_state =
        \<lparr>superblock = zero_superblock, inode_bitmap = no_bitmap, block_bitmap = no_bitmap,
         open_files = replicate MAX_OPEN_FILES zero_handle, users = [], current_user_uid = 0\<rparr>,
      g_disk_state =
        \<lparr>is_initialized = True, is_read_only = False, total_blocks = nblocks, block_size = 1024,
         storage = (\<lambda>n. replicate BLOCK_SIZE 0)\<rparr>\<rparr>"

section \<open>Theorems\<close>

subsection \<open>Block device\<close>

text \<open>
  C5 (as amended). On an initialized disk that is not read-only, with a non-NULL buffer,
  every block number that is negative as a C int or at least total\_blocks makes both
  disk\_read\_block and disk\_write\_block fail with the block-range error, and the write
  leaves every stored block unchanged. (The read-only check of disk\_write\_block comes
  before the range check.)
\<close>

theorem disk_block_range_error:
  assumes "is_initialized d" and "\<not> is_read_only d"
    and "sint b < 0 \<or> unat (total_blocks d) \<le> unat b"
  shows "disk_read_block d b True = Inl DISK_ERROR_BLOCK_RANGE
       \<and> disk_write_block d b (Some data) = Inl DISK_ERROR_BLOCK_RANGE
       \<and> storage (disk_after_write d b (Some data)) = storage d"
  using assms
  by (auto simp: disk_read_block_def disk_write_block_def disk_after_write_def
      disk_check_block_bounds_def)

theorem disk_block_range_error_witness:
  "is_initialized \<lparr>is_initialized = True, is_read_only = False, total_blocks = 64,
                    block_size = 1024, storage = (\<lambda>n. replicate 1024 0)\<rparr>
 \<and> unat (total_blocks \<lparr>is_initialized = True, is_read_only = False, total_blocks = 64,
                    block_size = 1024, storage = (\<lambda>n. replicate 1024 0)\<rparr>) \<le> unat (64 :: u32)
 \<and> disk_read_block \<lparr>is_initialized = True, is_read_only = False, total_blocks = 64,
                    block_size = 1024, storage = (\<lambda>n. replicate 1024 0)\<rparr> 64 True = Inl DISK_ERROR_BLOCK_RANGE
 \<and> disk_write_block \<lparr>is_initialized = True, is_read_only = False, total_blocks = 64,
                    block_size = 1024, storage = (\<lambda>n. replicate 1024 0)\<rparr> 64 (Some [1, 2, 3])
      = Inl DISK_ERROR_BLOCK_RANGE"
  using disk_block_range_error [of "\<lparr>is_initialized = True, is_read_only = False,
      total_blocks = 64, block_size = 1024, storage = (\<lambda>n. replicate 1024 0)\<rparr>" 64 "[1, 2, 3]"]
  by simp

subsection \<open>Bitmap allocation\<close>

lemma bit_is_set_iff: "bit_is_set bytes n \<longleftrightarrow> bit (bytes ! (n div 8)) (n mod 8)"
  by (simp add: bit_is_set_def bit_iff_and_push_bit_not_eq_0)

lemma bit_is_set_mark_bit:
  assumes "n div 8 < length bytes"
  shows "bit_is_set (mark_bit bytes n) m \<longleftrightarrow> m = n \<or> bit_is_set bytes m"
proof (cases "m div 8 = n div 8")
  case True
  have "m = n \<longleftrightarrow> m mod 8 = n mod 8"
    using True by (metis div_mult_mod_eq)
  moreover have "m mod 8 < 8" "n mod 8 < 8" by simp_all
  ultimately show ?thesis
    using True assms
    by (auto simp: bit_is_set_iff mark_bit_def bit_or_iff bit_push_bit_iff bit_1_iff
        bit_exp_iff possible_bit_word)
next
  case False
  then have "m \<noteq> n" by auto
  with False show ?thesis by (simp add: bit_is_set_iff mark_bit_def)
qed

lemma alloc_scan_first:
  assumes "i < unat (total_bits bm)" and "\<not> bit_is_set bytes (unat (scan_bit bm i))"
    and "\<forall>j. i0 \<le> j \<and> j < i \<longrightarrow> bit_is_set bytes (unat (scan_bit bm j))" and "i0 \<le> i"
  shows "alloc_scan bm bytes i0 = Some (scan_bit bm i)"
  using assms
proof (induction "i - i0" arbitrary: i0)
  case 0
  then have "i0 = i" by simp
  with 0 show ?case by (simp add: alloc_scan.simps)
next
  case (Suc k)
  then have lt: "i0 < i" and set0: "bit_is_set bytes (unat (scan_bit bm i0))" by auto
  have "alloc_scan bm bytes (Suc i0) = Some (scan_bit bm i)"
    using Suc by (intro Suc.hyps(1)) auto
  with lt set0 Suc.prems(1) show ?case
    by (subst alloc_scan.simps) simp
qed

lemma alloc_scan_none:
  assumes "\<forall>j. i0 \<le> j \<and> j < unat (total_bits bm) \<longrightarrow> bit_is_set bytes (unat (scan_bit bm j))"
  shows "alloc_scan bm bytes i0 = None"
  using assms
proof (induction "unat (total_bits bm) - i0" arbitrary: i0)
  case 0
  then show ?case by (subst alloc_scan.simps) simp
next
  case (Suc k)
  then have "alloc_scan bm bytes (Suc i0) = None" by (intro Suc.hyps(1)) auto
  with Suc show ?case by (subst alloc_scan.simps) auto
qed

lemma unat_scan_bit:
  assumes "unat (last_allocated bm) + i < 2 ^ 32"
  shows "unat (scan_bit bm i) = (unat (last_allocated bm) + i) mod unat (total_bits bm)"
proof -
  have "unat (last_allocated bm + of_nat i) = unat (last_allocated bm) + i"
    using assms by (simp add: unat_word_ariths unat_of_nat)
  then show ?thesis by (simp add: scan_bit_def unat_mod)
qed

lemma scan_bit_covers:
  assumes n: "n < unat (total_bits bm)" and s: "unat (last_allocated bm) < unat (total_bits bm)"
    and t: "unat (total_bits bm) \<le> 2 ^ 31"
  shows "\<exists>i < unat (total_bits bm). unat (scan_bit bm i) = n"
proof -
  define t where "t = unat (total_bits bm)"
  define s where "s = unat (last_allocated bm)"
  define i where "i = (n + t - s) mod t"
  have tpos: "0 < t" using n by (simp add: t_def)
  have ilt: "i < t" using tpos by (simp add: i_def)
  have "s + i < 2 ^ 32" using ilt s t by (simp add: s_def t_def)
  then have "unat (scan_bit bm i) = (s + i) mod t"
    by (simp add: unat_scan_bit s_def t_def)
  also have "\<dots> = (s + (n + t - s)) mod t"
    by (simp add: i_def mod_add_right_eq)
  also have "\<dots> = (n + t) mod t" using s by (simp add: s_def t_def)
  also have "\<dots> = n" using n by (simp add: t_def)
  finally show ?thesis using ilt by (auto simp: t_def)
qed

lemma count_free_pos:
  assumes "0 < count_free bytes n"
  shows "\<exists>k < n. \<not> bit_is_set bytes k"
proof -
  from assms have "filter (\<lambda>i. \<not> bit_is_set bytes i) [0..<n] \<noteq> []"
    by (simp add: count_free_def)
  then obtain k where "k \<in> set [0..<n]" "\<not> bit_is_set bytes k"
    by (auto simp: filter_empty_conv)
  then show ?thesis by auto
qed

lemma first_clear_exists:
  assumes "\<exists>i < t. \<not> P (i::nat)"
  shows "\<exists>i < t. \<not> P i \<and> (\<forall>j < i. P j)"
proof -
  from assms obtain i where i: "i < t" "\<not> P i" by auto
  define m where "m = (LEAST k. \<not> P k)"
  have "\<not> P m" unfolding m_def using i(2) by (rule LeastI)
  moreover have "m \<le> i" unfolding m_def using i(2) by (rule Least_le)
  moreover have "\<forall>j < m. P j" unfolding m_def using not_less_Least by blast
  ultimately show ?thesis using i(1) by (intro exI[of _ m]) auto
qed

text \<open>
  C2 (as amended). For a bitmap whose array is allocated, whose free\_count equals the
  number of clear bits and whose cursor is below total\_bits: alloc\_bitmap\_bit returns 0
  and changes nothing when free\_count is 0 (checked before the scan). Otherwise it scans
  the bits (last\_allocated + i) mod total\_bits for i = 0, 1, ..., so starting at the
  last-allocated index itself, sets the first clear bit it meets, decrements free\_count
  and moves the cursor to that bit; the value returned is that bit's index whenever the
  index is not 0.
\<close>

theorem alloc_bitmap_bit_scan:
  assumes bm: "bitmap bm = Some bytes" and inv: "bitmap_inv bm"
    and la: "last_allocated bm < total_bits bm" and sz: "unat (total_bits bm) \<le> 2 ^ 31"
  shows "(free_count bm = 0 \<longrightarrow> alloc_bitmap_bit bm = (0, bm))
       \<and> (free_count bm \<noteq> 0 \<longrightarrow>
            (\<exists>i < unat (total_bits bm).
               \<not> bit_is_set bytes (unat (scan_bit bm i))
             \<and> (\<forall>j < i. bit_is_set bytes (unat (scan_bit bm j)))
             \<and> snd (alloc_bitmap_bit bm) =
                 bm\<lparr>bitmap := Some (mark_bit bytes (unat (scan_bit bm i))),
                     free_count := free_count bm - 1,
                     last_allocated := scan_bit bm i\<rparr>
             \<and> (scan_bit bm i \<noteq> 0 \<longrightarrow> fst (alloc_bitmap_bit bm) = scan_bit bm i)))"
proof (intro conjI impI)
  assume "free_count bm = 0"
  then show "alloc_bitmap_bit bm = (0, bm)" using bm by (simp add: alloc_bitmap_bit_def)
next
  assume fc: "free_count bm \<noteq> 0"
  then have "0 < unat (free_count bm)" by (simp add: unat_gt_0)
  with inv bm have "0 < count_free bytes (unat (total_bits bm))"
    by (simp add: bitmap_inv_def)
  then obtain n where n: "n < unat (total_bits bm)" "\<not> bit_is_set bytes n"
    using count_free_pos by blast
  from la have "unat (last_allocated bm) < unat (total_bits bm)" by (simp add: word_less_nat_alt)
  with n sz obtain i0 where "i0 < unat (total_bits bm)" "unat (scan_bit bm i0) = n"
    using scan_bit_covers by blast
  with n have "\<exists>i < unat (total_bits bm). \<not> bit_is_set bytes (unat (scan_bit bm i))" by auto
  then obtain i where i: "i < unat (total_bits bm)" "\<not> bit_is_set bytes (unat (scan_bit bm i))"
      "\<forall>j < i. bit_is_set bytes (unat (scan_bit bm j))"
    using first_clear_exists[of "unat (total_bits bm)" "\<lambda>i. bit_is_set bytes (unat (scan_bit bm i))"]
    by blast
  then have "alloc_scan bm bytes 0 = Some (scan_bit bm i)"
    by (intro alloc_scan_first) auto
  with bm fc have "alloc_bitmap_bit bm =
      (scan_bit bm i, bm\<lparr>bitmap := Some (mark_bit bytes (unat (scan_bit bm i))),
                     free_count := free_count bm - 1, last_allocated := scan_bit bm i\<rparr>)"
    by (simp add: alloc_bitmap_bit_def)
  with i show "\<exists>i < unat (total_bits bm).
               \<not> bit_is_set bytes (unat (scan_bit bm i))
             \<and> (\<forall>j < i. bit_is_set bytes (unat (scan_bit bm j)))
             \<and> snd (alloc_bitmap_bit bm) =
                 bm\<lparr>bitmap := Some (mark_bit bytes (unat (scan_bit bm i))),
                     free_count := free_count bm - 1,
                     last_allocated := scan_bit bm i\<rparr>
             \<and> (scan_bit bm i \<noteq> 0 \<longrightarrow> fst (alloc_bitmap_bit bm) = scan_bit bm i)"
    by (intro exI[of _ i]) simp
qed

theorem alloc_bitmap_bit_scan_witness:
  "bitmap_inv \<lparr>bitmap = Some [5], total_bits = 8, free_count = 6, last_allocated = 2\<rparr>
 \<and> free_count (snd (alloc_bitmap_bit
       \<lparr>bitmap = Some [5], total_bits = 8, free_count = 6, last_allocated = 2\<rparr>)) = 5"
proof -
  define bm where "bm = \<lparr>bitmap = Some [5], total_bits = 8, free_count = 6, last_allocated = 2 :: u32\<rparr>"
  have inv: "bitmap_inv bm" unfolding bm_def
    by (simp add: bitmap_inv_def bitmap_bytes_def count_free_def bit_is_set_def
        upt_rec[of _ "numeral _"])
  have h: "bitmap bm = Some [5]" "last_allocated bm < total_bits bm"
      "unat (total_bits bm) \<le> 2 ^ 31" "free_count bm \<noteq> 0"
    by (simp_all add: bm_def)
  from alloc_bitmap_bit_scan [OF h(1) inv h(2) h(3)] h(4)
  obtain i where "snd (alloc_bitmap_bit bm) =
                 bm\<lparr>bitmap := Some (mark_bit [5] (unat (scan_bit bm i))),
                     free_count := free_count bm - 1,
                     last_allocated := scan_bit bm i\<rparr>"
    by blast
  then have "free_count (snd (alloc_bitmap_bit bm)) = 5" by (simp add: bm_def)
  with inv show ?thesis by (simp add: bm_def)
qed

text \<open>
  C2, counterexample. On the bitmap \<^verbatim>\<open>fs_ops_init_bitmap(8)\<close> leaves (no bit set, cursor 0,
  free\_count 8) alloc\_bitmap\_bit sets bit 0, the cursor's own bit and not the one after it,
  and returns 0, the value it also returns for failure, although free\_count was not 0.
\<close>

theorem alloc_bitmap_bit_counterexample:
  "alloc_bitmap_bit \<lparr>bitmap = Some [0], total_bits = 8, free_count = 8, last_allocated = 0\<rparr>
     = (0, \<lparr>bitmap = Some [1], total_bits = 8, free_count = 7, last_allocated = 0\<rparr>)"
  by code_simp


subsection \<open>Structures in blocks\<close>

lemma length_le_bytes [simp]: "length (le_bytes n w) = n"
  by (induction n arbitrary: w) simp_all

lemma le_word_le_bytes: "(le_word (le_bytes n w) :: 'a::len word) = take_bit (8 * n) w"
proof (induction n arbitrary: w)
  case 0
  then show ?case by simp
next
  case (Suc n)
  show ?case
    apply (simp add: Suc)
    apply (rule bit_word_eqI)
    apply (auto simp: bit_simps)
    done
qed

lemma le_word_le_bytes_u32 [simp]: "le_word (le_bytes 4 w) = (w :: u32)"
  by (simp add: le_word_le_bytes take_bit_word_eq_self)

lemma le_word_le_bytes_u16 [simp]: "le_word (le_bytes 2 w) = (w :: u16)"
  by (simp add: le_word_le_bytes take_bit_word_eq_self)

lemma le_word_le_bytes_u64 [simp]: "le_word (le_bytes 8 w) = (w :: u64)"
  by (simp add: le_word_le_bytes take_bit_word_eq_self)

lemma length_memcpy_at [simp]:
  "off + length src \<le> length dst \<Longrightarrow> length (memcpy_at dst off src) = length dst"
  by (simp add: memcpy_at_def)

lemma slice_memcpy_at_same [simp]:
  "off \<le> length dst \<Longrightarrow> n = length src \<Longrightarrow> slice (memcpy_at dst off src) off n = src"
  by (simp add: memcpy_at_def slice_def)

lemma length_slice [simp]: "off + n \<le> length buf \<Longrightarrow> length (slice buf off n) = n"
  by (simp add: slice_def)

lemma slice_slice: "a + n \<le> m \<Longrightarrow> slice (slice buf off m) a n = slice buf (off + a) n"
  by (simp add: slice_def take_drop add.commute)

lemma slice_append1: "off + n \<le> length xs \<Longrightarrow> slice (xs @ ys) off n = slice xs off n"
  by (simp add: slice_def)

lemma slice_append2: "length xs \<le> off \<Longrightarrow> slice (xs @ ys) off n = slice ys (off - length xs) n"
  by (simp add: slice_def)

lemma slice_0_length [simp]: "slice xs 0 (length xs) = xs"
  by (simp add: slice_def)

lemma length_concat_le_bytes [simp]: "length (concat (map (le_bytes 4) xs)) = 4 * length xs"
  by (induction xs) simp_all

lemma length_enc_inode [simp]: "inode_wf i \<Longrightarrow> length (enc_inode i) = INODE_SIZE"
  by (simp add: enc_inode_def inode_wf_def INODE_SIZE_def DIRECT_BLOCKS_def)

lemma slice_concat_le_bytes:
  "k < length xs \<Longrightarrow> slice (concat (map (le_bytes 4) xs)) (4 * k) 4 = le_bytes 4 (xs ! k)"
proof (induction xs arbitrary: k)
  case Nil
  then show ?case by simp
next
  case (Cons x xs)
  show ?case
  proof (cases k)
    case 0
    then show ?thesis by (simp add: slice_def)
  next
    case (Suc j)
    with Cons.prems have "j < length xs" by simp
    then have "slice (concat (map (le_bytes 4) xs)) (4 * j) 4 = le_bytes 4 (xs ! j)"
      by (rule Cons.IH)
    then show ?thesis using Suc by (simp add: slice_def)
  qed
qed

lemma dec_direct_blocks:
  assumes "length xs = DIRECT_BLOCKS" and "length pre = 64"
  shows "map (\<lambda>k. le_word (slice (pre @ concat (map (le_bytes 4) xs) @ post) (64 + 4 * k) 4))
           [0..<DIRECT_BLOCKS] = (xs :: u32 list)"
proof (rule nth_equalityI)
  show "length (map (\<lambda>k. (le_word (slice (pre @ concat (map (le_bytes 4) xs) @ post) (64 + 4 * k) 4) :: u32))
           [0..<DIRECT_BLOCKS]) = length xs"
    using assms by simp
next
  fix i
  assume "i < length (map (\<lambda>k. (le_word (slice (pre @ concat (map (le_bytes 4) xs) @ post) (64 + 4 * k) 4) :: u32))
           [0..<DIRECT_BLOCKS])"
  then have i: "i < length xs" using assms by simp
  have "slice (pre @ concat (map (le_bytes 4) xs) @ post) (64 + 4 * i) 4
      = slice (concat (map (le_bytes 4) xs) @ post) (4 * i) 4"
    using assms by (simp add: slice_append2)
  also have "\<dots> = slice (concat (map (le_bytes 4) xs)) (4 * i) 4"
    using i by (simp add: slice_append1)
  also have "\<dots> = le_bytes 4 (xs ! i)" using i by (rule slice_concat_le_bytes)
  finally show "map (\<lambda>k. (le_word (slice (pre @ concat (map (le_bytes 4) xs) @ post) (64 + 4 * k) 4) :: u32))
           [0..<DIRECT_BLOCKS] ! i = xs ! i"
    using i assms by simp
qed


lemma slice_enc_inode_direct:
  assumes "inode_wf i" and "k < DIRECT_BLOCKS"
  shows "slice (enc_inode i) (64 + 4 * k) 4 = le_bytes 4 (direct_blocks i ! k)"
proof -
  have "slice (enc_inode i) (64 + 4 * k) 4
      = slice (concat (map (le_bytes 4) (direct_blocks i))) (4 * k) 4"
    using assms
    by (simp add: enc_inode_def slice_append2 slice_append1 inode_wf_def DIRECT_BLOCKS_def)
  then show ?thesis using assms by (simp add: slice_concat_le_bytes inode_wf_def)
qed

lemma dec_enc_inode: 
  assumes "inode_wf i"
  shows "dec_inode (enc_inode i) = i"
proof -
  have "map (\<lambda>k. le_word (slice (enc_inode i) (64 + 4 * k) 4)) [0..<DIRECT_BLOCKS] = direct_blocks i"
    using assms by (intro nth_equalityI) (simp_all add: slice_enc_inode_direct inode_wf_def)
  then have db: "direct_blocks (dec_inode (enc_inode i)) = direct_blocks i"
    by (simp add: dec_inode_def)
  have rest: "dec_inode (enc_inode i) = i\<lparr>direct_blocks := direct_blocks (dec_inode (enc_inode i))\<rparr>"
    using assms
    by (simp add: dec_inode_def enc_inode_def slice_def inode_wf_def DIRECT_BLOCKS_def)
  show ?thesis using rest db by simp
qed


subsection \<open>The example file system\<close>

lemma slice_memcpy_at_other:
  assumes "a + n \<le> off \<or> off + length src \<le> a" and "off + length src \<le> length dst"
  shows "slice (memcpy_at dst off src) a n = slice dst a n"
proof -
  from assms(1) show ?thesis
  proof
    assume h: "a + n \<le> off"
    have "take n (drop a (take off dst @ src @ drop (off + length src) dst))
        = take n (drop a (take off dst))"
      using h assms(2) by simp
    also have "\<dots> = take n (take (off - a) (drop a dst))"
      by (simp only: drop_take)
    also have "\<dots> = take n (drop a dst)"
      using h by (simp add: min_def)
    finally show ?thesis by (simp add: memcpy_at_def slice_def)
  next
    assume h: "off + length src \<le> a"
    then have "drop a (take off dst @ src @ drop (off + length src) dst)
        = drop (a - off - length src) (drop (off + length src) dst)"
      using assms(2) by simp
    also have "\<dots> = drop a dst" using h by simp
    finally show ?thesis by (simp add: memcpy_at_def slice_def)
  qed
qed

lemma demo_sb_fields [simp]:
  "magic_number demo_superblock = FS_MAGIC_NUMBER"
  "total_inodes demo_superblock = 1024"
  "inode_table_start demo_superblock = 8"
  "data_blocks_start demo_superblock = 156"
  by (simp_all add: demo_superblock_def fs_ops_init_superblock_def Let_def
      FS_DEFAULT_MAX_INODES_def FS_INODE_TABLE_START_def INODE_SIZE_def BLOCK_SIZE_def)

lemma inode_wf_zero [simp]: "inode_wf zero_inode"
  by (simp add: inode_wf_def zero_inode_def)

lemma inode_wf_demo_root [simp]: "inode_wf demo_root"
  by (simp add: inode_wf_def demo_root_def zero_inode_def)

lemma inode_offset_simps [simp]: "inode_offset 1 = 148" "inode_offset 2 = 296"
  by (simp_all add: inode_offset_def inodes_per_block_def BLOCK_SIZE_def INODE_SIZE_def)

lemma inode_block_num_demo [simp]:
  "inode_block_num demo_superblock 1 = 8" "inode_block_num demo_superblock 2 = 8"
  by (simp_all add: inode_block_num_def inodes_per_block_def BLOCK_SIZE_def INODE_SIZE_def)

lemma demo_sys_fields [simp]:
  "superblock (g_fs_state (demo_sys file bbm tbl user)) = demo_superblock"
  "block_bitmap (g_fs_state (demo_sys file bbm tbl user)) = bbm"
  "open_files (g_fs_state (demo_sys file bbm tbl user)) = tbl"
  "users (g_fs_state (demo_sys file bbm tbl user)) = [user]"
  "current_user_uid (g_fs_state (demo_sys file bbm tbl user)) = uid user"
  by (simp_all add: demo_sys_def)

lemma demo_disk_read [simp]:
  "disk_read_block (g_disk_state (demo_sys file bbm tbl user)) 8 True = Inr (demo_inode_block file)"
  "disk_read_block (g_disk_state (demo_sys file bbm tbl user)) 156 True = Inr demo_dir_block"
  by (simp_all add: demo_sys_def disk_read_block_def disk_check_block_bounds_def)

lemma demo_read_root:
  assumes "inode_wf file"
  shows "fs_ops_read_inode (demo_sys file bbm tbl user) 1 = Inr demo_root"
proof -
  have "slice (demo_inode_block file) 148 INODE_SIZE = enc_inode demo_root"
    using assms
    by (simp add: demo_inode_block_def slice_memcpy_at_other INODE_SIZE_def BLOCK_SIZE_def
        length_enc_inode[unfolded INODE_SIZE_def])
  then show ?thesis
    by (simp add: fs_ops_read_inode_def dec_enc_inode word_le_nat_alt)
qed

lemma demo_read_file:
  assumes "inode_wf file"
  shows "fs_ops_read_inode (demo_sys file bbm tbl user) 2 = Inr file"
proof -
  have "slice (demo_inode_block file) 296 INODE_SIZE = enc_inode file"
    using assms
    by (simp add: demo_inode_block_def INODE_SIZE_def BLOCK_SIZE_def
        length_enc_inode[unfolded INODE_SIZE_def])
  then show ?thesis
    using assms by (simp add: fs_ops_read_inode_def dec_enc_inode word_le_nat_alt)
qed

lemma demo_find_entry: "find_entry demo_dir_block [0x61] = Some 2"
  by code_simp

lemma demo_entry_ino: "entry_inode_number demo_dir_block 2 = 2"
  by code_simp

lemma demo_find_file:
  assumes "inode_wf file"
  shows "find_file_in_directory (demo_sys file bbm tbl user) 1 [0x61] = 2"
  using assms
  by (simp add: find_file_in_directory_def demo_read_root find_file_loop.simps[of _ _ _ 0]
      demo_find_entry demo_entry_ino demo_root_def zero_inode_def DIRECT_BLOCKS_def
      FS_FILE_TYPE_DIRECTORY_def)

lemma parse_path_a [simp]: "parse_path [0x61] = Inr (ROOT_INODE_NUM, [0x61])"
  by (simp add: parse_path_def c_str_def MAX_FILENAME_LEN_def)

lemma find_free_fd_empty [simp]: "find_free_fd (replicate MAX_OPEN_FILES zero_handle) = Some 0"
  by (simp add: find_free_fd_def MAX_OPEN_FILES_def zero_handle_def upt_conv_Cons)

lemma inode_wf_demo_file [simp]: "inode_wf (demo_file perms)"
  by (simp add: inode_wf_def demo_file_def zero_inode_def)

lemma demo_fs_open:
  "fst (fs_open (demo_sys (demo_file perms) bbm (replicate MAX_OPEN_FILES zero_handle) demo_user)
         (Some [0x61]) t1 t2)
     = (if ucast perms AND FS_PERM_OWNER_READ = 0 then Inl FS_ERROR_PERMISSION else Inr 0)"
  by (simp add: fs_open_def fs_open_loaded_def ROOT_INODE_NUM_def demo_find_file demo_read_file
      user_manager_check_permission_def find_user_by_uid_def demo_user_def
      user_manager_check_permission_detailed_def user_manager_is_root_def
      USER_MANAGER_ROOT_UID_def is_read_perm_def Let_def
      split: sum.splits)
     (simp add: demo_file_def FS_FILE_TYPE_REGULAR_def FS_FILE_TYPE_DIRECTORY_def)



subsection \<open>Opening files\<close>

lemma find_free_fd_Some:
  assumes "find_free_fd tbl = Some fd"
  shows "fd < MAX_OPEN_FILES \<and> reference_count (tbl ! fd) = 0
       \<and> (\<forall>j < fd. reference_count (tbl ! j) \<noteq> 0)"
proof -
  from assms obtain i where i: "i < length [0..<MAX_OPEN_FILES]" "[0..<MAX_OPEN_FILES] ! i = fd"
      "reference_count (tbl ! fd) = 0"
      "\<forall>j < i. \<not> reference_count (tbl ! ([0..<MAX_OPEN_FILES] ! j)) = 0"
    unfolding find_free_fd_def find_Some_iff by blast
  then have "i = fd" by simp
  with i show ?thesis by auto
qed

lemma g_fs_state_write_inode:
  "fs_ops_write_inode s ino inode = Inr s' \<Longrightarrow> g_fs_state s' = g_fs_state s"
  by (auto simp: fs_ops_write_inode_def split: if_splits sum.splits)

lemma fs_open_loaded_descriptor:
  assumes "fs_open_loaded s p t1 t2 = (Inr fd, s')"
    and "length (open_files (g_fs_state s)) = MAX_OPEN_FILES"
  shows "find_free_fd (open_files (g_fs_state s)) = Some fd
       \<and> open_files (g_fs_state s') ! fd =
           \<lparr>fh_inode_number = fh_inode_number (open_files (g_fs_state s') ! fd),
            fh_flags = FS_OPEN_READ OR FS_OPEN_WRITE, file_position = 0, reference_count = 1,
            open_time = t1, fh_owner_uid = current_user_uid (g_fs_state s)\<rparr>"
  using assms
  apply (simp add: fs_open_loaded_def Let_def user_manager_get_current_uid_def
      split: sum.splits prod.splits if_splits option.splits)
  apply (auto dest!: find_free_fd_Some g_fs_state_write_inode)
  done


lemma load_filesystem_state_ok:
  assumes "load_filesystem_state s = (Inr u, s1)"
  shows "open_files (g_fs_state s1) = replicate MAX_OPEN_FILES zero_handle
       \<and> current_user_uid (g_fs_state s1) = current_user_uid (g_fs_state s)
       \<and> users (g_fs_state s1) = users (g_fs_state s)"
  using assms
  by (auto simp: load_filesystem_state_def Let_def split: prod.splits sum.splits)

lemma fs_open_loaded_fields:
  assumes "fs_open_loaded s p t1 t2 = (Inr fd, s')"
    and "length (open_files (g_fs_state s)) = MAX_OPEN_FILES"
  shows "find_free_fd (open_files (g_fs_state s)) = Some fd"
    and "file_position (open_files (g_fs_state s') ! fd) = 0"
    and "reference_count (open_files (g_fs_state s') ! fd) = 1"
    and "fh_flags (open_files (g_fs_state s') ! fd) = FS_OPEN_READ OR FS_OPEN_WRITE"
    and "fh_owner_uid (open_files (g_fs_state s') ! fd) = current_user_uid (g_fs_state s)"
proof -
  note d = fs_open_loaded_descriptor[OF assms]
  from d show "find_free_fd (open_files (g_fs_state s)) = Some fd" by simp
  from d have h: "open_files (g_fs_state s') ! fd =
           \<lparr>fh_inode_number = fh_inode_number (open_files (g_fs_state s') ! fd),
            fh_flags = FS_OPEN_READ OR FS_OPEN_WRITE, file_position = 0, reference_count = 1,
            open_time = t1, fh_owner_uid = current_user_uid (g_fs_state s)\<rparr>" by simp
  show "file_position (open_files (g_fs_state s') ! fd) = 0"
    using arg_cong[OF h, of file_position] by simp
  show "reference_count (open_files (g_fs_state s') ! fd) = 1"
    using arg_cong[OF h, of reference_count] by simp
  show "fh_flags (open_files (g_fs_state s') ! fd) = FS_OPEN_READ OR FS_OPEN_WRITE"
    using arg_cong[OF h, of fh_flags] by simp
  show "fh_owner_uid (open_files (g_fs_state s') ! fd) = current_user_uid (g_fs_state s)"
    using arg_cong[OF h, of fh_owner_uid] by simp
qed

text \<open>
  C10. Whenever fs\_open succeeds, the descriptor it returns is the lowest index of the
  table of open files whose reference\_count is 0 (the table as it is once the state is
  loaded: loading clears it), and the handle at that index has file\_position 0,
  reference\_count 1, the read and write flags set, and the uid of the current user as its
  opener.
\<close>

theorem fs_open_descriptor:
  assumes "fs_open s path t1 t2 = (Inr fd, s')"
    and "length (open_files (g_fs_state s)) = MAX_OPEN_FILES"
  shows "fd < MAX_OPEN_FILES
       \<and> reference_count
            ((if magic_number (superblock (g_fs_state s)) = FS_MAGIC_NUMBER
              then open_files (g_fs_state s) else replicate MAX_OPEN_FILES zero_handle) ! fd) = 0
       \<and> (\<forall>j < fd. reference_count
            ((if magic_number (superblock (g_fs_state s)) = FS_MAGIC_NUMBER
              then open_files (g_fs_state s) else replicate MAX_OPEN_FILES zero_handle) ! j) \<noteq> 0)
       \<and> file_position (open_files (g_fs_state s') ! fd) = 0
       \<and> reference_count (open_files (g_fs_state s') ! fd) = 1
       \<and> fh_flags (open_files (g_fs_state s') ! fd) = FS_OPEN_READ OR FS_OPEN_WRITE
       \<and> fh_owner_uid (open_files (g_fs_state s') ! fd) = current_user_uid (g_fs_state s)"
proof (cases "magic_number (superblock (g_fs_state s)) = FS_MAGIC_NUMBER")
  case True
  with assms(1) obtain p where op: "fs_open_loaded s p t1 t2 = (Inr fd, s')"
    by (auto simp: fs_open_def split: option.splits)
  note f = fs_open_loaded_fields[OF op assms(2)]
  from find_free_fd_Some[OF f(1)] f(2-5) True show ?thesis by simp
next
  case False
  with assms(1) obtain p s1 u where ld: "load_filesystem_state s = (Inr u, s1)"
    and op: "fs_open_loaded s1 p t1 t2 = (Inr fd, s')"
    by (auto simp: fs_open_def split: option.splits prod.splits sum.splits)
  from load_filesystem_state_ok[OF ld]
  have tbl: "open_files (g_fs_state s1) = replicate MAX_OPEN_FILES zero_handle"
    and cu: "current_user_uid (g_fs_state s1) = current_user_uid (g_fs_state s)" by auto
  from tbl have len: "length (open_files (g_fs_state s1)) = MAX_OPEN_FILES" by simp
  note f = fs_open_loaded_fields[OF op len]
  from find_free_fd_Some[OF f(1)] f(2-5) False tbl cu show ?thesis by auto
qed

lemma find_user_by_uid_Some:
  "find_user_by_uid us c = Some u \<Longrightarrow> uid u = c \<and> is_active u \<and> u \<in> set us"
  by (auto simp: find_user_by_uid_def find_Some_iff)


lemma fs_ops_read_inode_users [simp]:
  "fs_ops_read_inode (s\<lparr>g_fs_state := (g_fs_state s)\<lparr>users := us, current_user_uid := c\<rparr>\<rparr>) ino
     = fs_ops_read_inode s ino"
  by (simp add: fs_ops_read_inode_def)

lemma find_file_in_directory_users [simp]:
  "find_file_in_directory (s\<lparr>g_fs_state := (g_fs_state s)\<lparr>users := us, current_user_uid := c\<rparr>\<rparr>)
       dir filename
     = find_file_in_directory s dir filename"
  by (simp add: find_file_in_directory_def split: sum.splits)

lemma root_session_denied:
  "fst (fs_open (root_session (demo_file perms)) (Some [0x61]) t1 t2) = Inl FS_ERROR_PERMISSION"
  by (simp add: root_session_def Let_def fs_open_def fs_open_loaded_def ROOT_INODE_NUM_def
      demo_find_file demo_read_file
      user_manager_check_permission_def find_user_by_uid_def demo_user_def
      split: sum.splits)
     (simp add: demo_file_def FS_FILE_TYPE_REGULAR_def FS_FILE_TYPE_DIRECTORY_def)

text \<open>
  C4 (as amended). For a regular file that the lookup finds, with the state loaded and a
  session whose uid is not 0: opening the file returns permission-denied exactly when the
  current uid is not found in the table of users, or the applicable read bit is clear, the
  owner bit if the uid equals the owner of the inode, else the group bit if the gid of the
  user equals its group, else the bit of the others. So the owner is denied when the owner
  read bit is clear. A user who is not denied gets the lowest free descriptor, or the
  too-many-open-files error when there is none. Nothing is stated of a session of uid 0.
\<close>

theorem fs_open_read_permission:
  assumes loaded: "magic_number (superblock (g_fs_state s)) = FS_MAGIC_NUMBER"
    and path: "parse_path p = Inr (parent, filename)" "filename \<noteq> []"
    and found: "find_file_in_directory s parent filename = ino" "ino \<noteq> 0"
    and inode: "fs_ops_read_inode s ino = Inr inode" "file_type inode = FS_FILE_TYPE_REGULAR"
    and session: "current_user_uid (g_fs_state s) \<noteq> 0"
  shows "(fst (fs_open s (Some p) t1 t2) = Inl FS_ERROR_PERMISSION \<longleftrightarrow>
            (case find_user_by_uid (users (g_fs_state s)) (current_user_uid (g_fs_state s)) of
               None \<Rightarrow> True
             | Some u \<Rightarrow>
                 ucast (permissions inode)
                   AND (if current_user_uid (g_fs_state s) = owner_uid inode then FS_PERM_OWNER_READ
                        else if gid u = owner_gid inode then FS_PERM_GROUP_READ
                        else FS_PERM_OTHER_READ) = 0))
       \<and> (fst (fs_open s (Some p) t1 t2) \<noteq> Inl FS_ERROR_PERMISSION \<longrightarrow>
            fst (fs_open s (Some p) t1 t2) =
              (case find_free_fd (open_files (g_fs_state s)) of
                 None \<Rightarrow> Inl FS_ERROR_TOO_MANY_OPEN | Some fd \<Rightarrow> Inr fd))"
proof (cases "find_user_by_uid (users (g_fs_state s)) (current_user_uid (g_fs_state s))")
  case None
  with assms show ?thesis
    by (auto simp: fs_open_def fs_open_loaded_def Let_def user_manager_check_permission_def
        FS_FILE_TYPE_REGULAR_def FS_FILE_TYPE_DIRECTORY_def
        split: option.splits sum.splits)
next
  case (Some u)
  from find_user_by_uid_Some[OF Some] have u: "uid u = current_user_uid (g_fs_state s)" by simp
  with session have nz: "uid u \<noteq> 0" by simp
  from assms Some u nz show ?thesis
    by (auto simp: fs_open_def fs_open_loaded_def Let_def user_manager_check_permission_def
      user_manager_check_permission_detailed_def user_manager_is_root_def
      USER_MANAGER_ROOT_UID_def is_read_perm_def FS_FILE_TYPE_REGULAR_def
      FS_FILE_TYPE_DIRECTORY_def FS_PERM_OWNER_READ_def
      split: option.splits sum.splits)
qed

text \<open>
  C4, counterexample. User 1000 owns the file \<^verbatim>\<open>a\<close>, whose permission bits are 044 (read
  for the group and for the others, nothing for the owner): opening it is denied. And in
  the session of uid 0, with the table of users as \<^verbatim>\<open>user_manager_init\<close> leaves it, opening
  the file is denied with all nine permission bits set (0777).
\<close>

theorem fs_open_owner_counterexample:
  "fst (fs_open (demo_sys (demo_file 36) no_bitmap
                  (replicate MAX_OPEN_FILES zero_handle) demo_user) (Some [0x61]) 0 0)
     = Inl FS_ERROR_PERMISSION
   \<and> owner_uid (demo_file 36) = uid demo_user
   \<and> fst (fs_open (root_session (demo_file 511)) (Some [0x61]) 0 0) = Inl FS_ERROR_PERMISSION
   \<and> current_user_uid (g_fs_state (root_session (demo_file 511))) = 0"
  by (simp add: demo_fs_open FS_PERM_OWNER_READ_def root_session_denied)
     (simp add: demo_file_def demo_user_def root_session_def Let_def)

theorem fs_open_read_permission_witness:
  "fst (fs_open (demo_sys (demo_file 420) no_bitmap
                  (replicate MAX_OPEN_FILES zero_handle) demo_user) (Some [0x61]) 0 0) = Inr 0"
proof -
  define s where "s = demo_sys (demo_file 420) no_bitmap
                  (replicate MAX_OPEN_FILES zero_handle) demo_user"
  have h: "magic_number (superblock (g_fs_state s)) = FS_MAGIC_NUMBER"
    "parse_path [0x61] = Inr (1, [0x61])" "[0x61 :: u8] \<noteq> []"
    "find_file_in_directory s 1 [0x61] = 2" "(2 :: u32) \<noteq> 0"
    "fs_ops_read_inode s 2 = Inr (demo_file 420)"
    "file_type (demo_file 420) = FS_FILE_TYPE_REGULAR"
    "current_user_uid (g_fs_state s) \<noteq> 0"
    by (simp_all add: s_def demo_find_file demo_read_file ROOT_INODE_NUM_def demo_user_def)
       (simp add: demo_file_def)
  have u: "find_user_by_uid (users (g_fs_state s)) (current_user_uid (g_fs_state s)) = Some demo_user"
    by (simp add: s_def find_user_by_uid_def demo_user_def)
  have bit: "(ucast (permissions (demo_file 420)) :: u32)
              AND (if current_user_uid (g_fs_state s) = owner_uid (demo_file 420) then FS_PERM_OWNER_READ
                   else if gid demo_user = owner_gid (demo_file 420) then FS_PERM_GROUP_READ
                   else FS_PERM_OTHER_READ) \<noteq> 0"
    by (simp add: s_def demo_file_def demo_user_def FS_PERM_OWNER_READ_def)
  from fs_open_read_permission[OF h, of 0 0] bit u
  have "fst (fs_open s (Some [0x61]) 0 0) =
          (case find_free_fd (open_files (g_fs_state s)) of
             None \<Rightarrow> Inl FS_ERROR_TOO_MANY_OPEN | Some fd \<Rightarrow> Inr fd)"
    by simp
  then show ?thesis by (simp add: s_def)
qed

theorem fs_open_descriptor_witness:
  "file_position (open_files (g_fs_state (snd (fs_open
       (demo_sys (demo_file 420) no_bitmap
          (replicate MAX_OPEN_FILES zero_handle) demo_user) (Some [0x61]) 0 0))) ! 0) = 0
 \<and> reference_count (open_files (g_fs_state (snd (fs_open
       (demo_sys (demo_file 420) no_bitmap
          (replicate MAX_OPEN_FILES zero_handle) demo_user) (Some [0x61]) 0 0))) ! 0) = 1"
proof -
  define s where "s = demo_sys (demo_file 420) no_bitmap
                  (replicate MAX_OPEN_FILES zero_handle) demo_user"
  have "fst (fs_open s (Some [0x61]) 0 0) = Inr 0"
    by (simp add: s_def demo_fs_open FS_PERM_OWNER_READ_def)
  then have h: "fs_open s (Some [0x61]) 0 0 = (Inr 0, snd (fs_open s (Some [0x61]) 0 0))"
    by (simp add: prod_eq_iff)
  have len: "length (open_files (g_fs_state s)) = MAX_OPEN_FILES" by (simp add: s_def)
  from fs_open_descriptor[OF h len] show ?thesis by (simp add: s_def)
qed


subsection \<open>Reading and writing files\<close>

lemma sys_frame_refl [simp]: "sys_frame s s"
  by (simp add: sys_frame_def)

lemma sys_frame_trans: "sys_frame s s1 \<Longrightarrow> sys_frame s1 s2 \<Longrightarrow> sys_frame s s2"
  by (simp add: sys_frame_def)

lemma disk_write_block_frame:
  assumes "disk_write_block d bn (Some buf) = Inr d'"
  shows "is_initialized d' = is_initialized d \<and> is_read_only d' = is_read_only d
       \<and> total_blocks d' = total_blocks d \<and> block_size d' = block_size d
       \<and> storage d' = (storage d)(unat bn := buf)"
  using assms by (auto simp: disk_write_block_def split: if_splits)

lemma disk_wf_write:
  assumes "disk_write_block d bn (Some buf) = Inr d'" and "disk_wf d" and "length buf = BLOCK_SIZE"
  shows "disk_wf d'"
  using assms by (auto simp: disk_write_block_def disk_wf_def split: if_splits)

lemma disk_read_block_wf:
  assumes "disk_read_block d bn True = Inr buf" and "disk_wf d"
  shows "length buf = BLOCK_SIZE"
  using assms by (auto simp: disk_read_block_def disk_wf_def split: if_splits)

lemma file_ops_allocate_data_block_frame:
  assumes "file_ops_allocate_data_block fs inode idx = (bn, inode', fs')"
  shows "superblock fs' = superblock fs \<and> inode_bitmap fs' = inode_bitmap fs
       \<and> open_files fs' = open_files fs \<and> users fs' = users fs
       \<and> current_user_uid fs' = current_user_uid fs
       \<and> inode' = inode\<lparr>direct_blocks := direct_blocks inode'\<rparr>
       \<and> length (direct_blocks inode') = length (direct_blocks inode)"
  using assms
  by (auto simp: file_ops_allocate_data_block_def split: if_splits prod.splits)

lemma fs_write_body_frame:
  assumes "fs_write_body s inode st data sz bw = r"
    and "r = Inl (s', inode', bw') \<or> r = Inr (s', inode', bw')"
  shows "sys_frame s s' \<and> inode' = inode\<lparr>direct_blocks := direct_blocks inode'\<rparr>
       \<and> length (direct_blocks inode') = length (direct_blocks inode)"
proof -
  obtain bn inode1 fs1 where a: "(if file_ops_get_data_block inode (block_index_of (st + bw)) = 0
             then file_ops_allocate_data_block (g_fs_state s) inode (block_index_of (st + bw))
             else (file_ops_get_data_block inode (block_index_of (st + bw)), inode, g_fs_state s))
          = (bn, inode1, fs1)"
    by (metis prod_cases3)
  have f1: "superblock fs1 = superblock (g_fs_state s) \<and> inode_bitmap fs1 = inode_bitmap (g_fs_state s)
       \<and> open_files fs1 = open_files (g_fs_state s) \<and> users fs1 = users (g_fs_state s)
       \<and> current_user_uid fs1 = current_user_uid (g_fs_state s)
       \<and> inode1 = inode\<lparr>direct_blocks := direct_blocks inode1\<rparr>
       \<and> length (direct_blocks inode1) = length (direct_blocks inode)"
    using a file_ops_allocate_data_block_frame[of "g_fs_state s" inode "block_index_of (st + bw)" bn inode1 fs1]
    by (auto split: if_splits)
  from assms a have "inode' = inode1"
    by (auto simp: fs_write_body_def Let_def split: if_splits sum.splits)
  moreover from assms a have "sys_frame (s\<lparr>g_fs_state := fs1\<rparr>) s'"
    by (auto simp: fs_write_body_def Let_def sys_frame_def dest!: disk_write_block_frame
        split: if_splits sum.splits)
  moreover have "sys_frame s (s\<lparr>g_fs_state := fs1\<rparr>)" using f1 by (simp add: sys_frame_def)
  ultimately show ?thesis using f1 sys_frame_trans by blast
qed


lemma fs_write_body_disk_wf:
  assumes "fs_write_body s inode st data sz bw = r"
    and "r = Inl (s', inode', bw') \<or> r = Inr (s', inode', bw')"
    and "disk_wf (g_disk_state s)" and "sz \<le> length data"
  shows "disk_wf (g_disk_state s')"
proof -
  have bo: "block_offset_of (st + bw) < BLOCK_SIZE"
    by (simp add: block_offset_of_def BLOCK_SIZE_def)
  define n where "n = min (BLOCK_SIZE - block_offset_of (st + bw)) (sz - bw)"
  have n1: "block_offset_of (st + bw) + n \<le> BLOCK_SIZE" using bo by (simp add: n_def)
  have "n \<le> length data - bw" using assms(4) by (simp add: n_def)
  then have n2: "length (slice data bw n) = n" by (simp add: slice_def)
  have len: "\<And>blk. length blk = BLOCK_SIZE \<Longrightarrow>
      length (memcpy_at blk (block_offset_of (st + bw))
                (slice data bw (min (BLOCK_SIZE - block_offset_of (st + bw)) (sz - bw)))) = BLOCK_SIZE"
    using n1 n2 unfolding n_def[symmetric] by (simp add: memcpy_at_def)
  have key: "\<And>bn blk d2. disk_read_block (g_disk_state s) bn True = Inr blk \<Longrightarrow>
      disk_write_block (g_disk_state s) bn
        (Some (memcpy_at blk (block_offset_of (st + bw))
                (slice data bw (min (BLOCK_SIZE - block_offset_of (st + bw)) (sz - bw))))) = Inr d2
      \<Longrightarrow> disk_wf d2"
    using disk_wf_write len disk_read_block_wf assms(3) by blast
  from assms(1,2,3) key show ?thesis
    by (auto simp: fs_write_body_def Let_def split: if_splits sum.splits prod.splits)
qed

lemma fs_write_loop_frame:
  assumes "fs_write_loop s inode st data sz bw = (s', inode', n)"
  shows "sys_frame s s' \<and> inode' = inode\<lparr>direct_blocks := direct_blocks inode'\<rparr>
       \<and> length (direct_blocks inode') = length (direct_blocks inode)
       \<and> bw \<le> n \<and> (bw \<le> sz \<longrightarrow> n \<le> sz)
       \<and> (disk_wf (g_disk_state s) \<and> sz \<le> length data \<longrightarrow> disk_wf (g_disk_state s'))"
  using assms
proof (induction s inode st data sz bw rule: fs_write_loop.induct)
  case (1 s inode st data sz bw)
  show ?case
  proof (cases "st + bw < (st + sz) mod 2 ^ 64")
    case False
    with "1.prems" show ?thesis by (simp add: fs_write_loop.simps)
  next
    case True
    have "(st + sz) mod 2 ^ 64 \<le> st + sz" by simp
    with True have lt: "bw < sz" by linarith
    show ?thesis
    proof (cases "fs_write_body s inode st data sz bw")
      case (Inl r)
      with True "1.prems" have r: "r = (s', inode', n)" by (simp add: fs_write_loop.simps)
      from fs_write_body_frame[OF Inl, of s' inode' n] r
        fs_write_body_disk_wf[OF Inl, of s' inode' n] r
      have "sys_frame s s' \<and> inode' = inode\<lparr>direct_blocks := direct_blocks inode'\<rparr>
          \<and> length (direct_blocks inode') = length (direct_blocks inode)
          \<and> (disk_wf (g_disk_state s) \<and> sz \<le> length data \<longrightarrow> disk_wf (g_disk_state s'))"
        by simp
      moreover from Inl r have "n = bw"
        by (auto simp: fs_write_body_def Let_def split: if_splits sum.splits prod.splits)
      ultimately show ?thesis using lt by simp
    next
      case (Inr c)
      obtain s1 inode1 bw1 where c: "c = (s1, inode1, bw1)" by (cases c) auto
      with Inr True "1.prems" have rec: "fs_write_loop s1 inode1 st data sz bw1 = (s', inode', n)"
        by (simp add: fs_write_loop.simps)
      have bo: "block_offset_of (st + bw) < BLOCK_SIZE"
        by (simp add: block_offset_of_def BLOCK_SIZE_def)
      from Inr c lt bo have prog: "bw < bw1 \<and> bw1 \<le> sz"
        by (auto simp: fs_write_body_def Let_def split: prod.splits if_splits sum.splits)
      from "1.IH"[OF True Inr c[symmetric] refl rec]
      have ih: "sys_frame s1 s' \<and> inode' = inode1\<lparr>direct_blocks := direct_blocks inode'\<rparr>
       \<and> length (direct_blocks inode') = length (direct_blocks inode1)
       \<and> bw1 \<le> n \<and> (bw1 \<le> sz \<longrightarrow> n \<le> sz)
       \<and> (disk_wf (g_disk_state s1) \<and> sz \<le> length data \<longrightarrow> disk_wf (g_disk_state s'))" .
      from fs_write_body_frame[OF Inr, of s1 inode1 bw1] c
      have f: "sys_frame s s1" "inode1 = inode\<lparr>direct_blocks := direct_blocks inode1\<rparr>"
        "length (direct_blocks inode1) = length (direct_blocks inode)" by simp_all
      from fs_write_body_disk_wf[OF Inr, of s1 inode1 bw1] c
      have w: "disk_wf (g_disk_state s) \<and> sz \<le> length data \<longrightarrow> disk_wf (g_disk_state s1)"
        by simp
      have "inode' = inode\<lparr>direct_blocks := direct_blocks inode'\<rparr>"
        using ih f(2) by (metis fs_inode.update_convs(13) fs_inode.surjective)
      with ih f w prog show ?thesis using sys_frame_trans by auto
    qed
  qed
qed

lemma inode_offset_bound: "inode_offset ino + INODE_SIZE \<le> BLOCK_SIZE"
proof -
  have "unat ino mod 6 \<le> 5" by simp
  then have "(unat ino mod 6) * 148 \<le> 5 * 148" by (rule mult_le_mono1)
  then show ?thesis
    by (simp add: inode_offset_def inodes_per_block_def INODE_SIZE_def BLOCK_SIZE_def)
qed

lemma inode_wf_dec:
  assumes "INODE_SIZE \<le> length b"
  shows "inode_wf (dec_inode b)"
  using assms by (simp add: inode_wf_def dec_inode_def INODE_SIZE_def DIRECT_BLOCKS_def slice_def)

lemma fs_ops_read_inode_wf:
  assumes "fs_ops_read_inode s ino = Inr inode" and "disk_wf (g_disk_state s)"
  shows "inode_wf inode"
proof -
  from assms obtain blk where blk: "length blk = BLOCK_SIZE"
    and i: "inode = dec_inode (slice blk (inode_offset ino) INODE_SIZE)"
    by (auto simp: fs_ops_read_inode_def split: if_splits sum.splits dest: disk_read_block_wf)
  have "length (slice blk (inode_offset ino) INODE_SIZE) = INODE_SIZE"
    using blk inode_offset_bound[of ino] by simp
  then show ?thesis unfolding i by (intro inode_wf_dec) simp
qed

lemma fs_ops_read_inode_cong:
  assumes "superblock (g_fs_state s') = superblock (g_fs_state s)"
    and "g_disk_state s' = g_disk_state s"
  shows "fs_ops_read_inode s' ino = fs_ops_read_inode s ino"
  using assms by (simp add: fs_ops_read_inode_def)

lemma fs_ops_write_then_read:
  assumes rd: "fs_ops_read_inode s ino = Inr old"
    and fr: "sys_frame s s1"
    and ro: "\<not> is_read_only (g_disk_state s1)"
    and wf: "disk_wf (g_disk_state s1)"
    and iw: "inode_wf i"
  shows "\<exists>s2. fs_ops_write_inode s1 ino i = Inr s2 \<and> fs_ops_read_inode s2 ino = Inr i
            \<and> g_fs_state s2 = g_fs_state s1 \<and> sys_frame s1 s2 \<and> disk_wf (g_disk_state s2)"
proof -
  define bn where "bn = inode_block_num (superblock (g_fs_state s)) ino"
  from rd have ok: "ino \<noteq> 0" "\<not> total_inodes (superblock (g_fs_state s)) \<le> ino"
    and bnd: "is_initialized (g_disk_state s)" "disk_check_block_bounds (g_disk_state s) bn"
    by (auto simp: fs_ops_read_inode_def disk_read_block_def bn_def split: if_splits sum.splits)
  from fr have sb: "superblock (g_fs_state s1) = superblock (g_fs_state s)"
    and init: "is_initialized (g_disk_state s1)"
    and bnd1: "disk_check_block_bounds (g_disk_state s1) bn"
    using bnd by (auto simp: sys_frame_def disk_check_block_bounds_def)
  define blk where "blk = storage (g_disk_state s1) (unat bn)"
  have lb: "length blk = BLOCK_SIZE" using wf by (simp add: blk_def disk_wf_def)
  define blk' where "blk' = memcpy_at blk (inode_offset ino) (enc_inode i)"
  have lb': "length blk' = BLOCK_SIZE"
    using lb iw inode_offset_bound[of ino] by (simp add: blk'_def)
  define s2 where "s2 = s1\<lparr>g_disk_state := (g_disk_state s1)\<lparr>storage := (storage (g_disk_state s1))(unat bn := blk')\<rparr>\<rparr>"
  have w: "fs_ops_write_inode s1 ino i = Inr s2"
    using ok sb init bnd1 ro
    by (simp add: fs_ops_write_inode_def disk_read_block_def disk_write_block_def
        bn_def[symmetric] blk_def[symmetric] blk'_def[symmetric] s2_def)
  have "slice blk' (inode_offset ino) INODE_SIZE = enc_inode i"
    using lb iw inode_offset_bound[of ino] by (simp add: blk'_def)
  then have r: "fs_ops_read_inode s2 ino = Inr i"
    using ok sb init bnd1 iw
    by (simp add: fs_ops_read_inode_def disk_read_block_def s2_def bn_def[symmetric]
        disk_check_block_bounds_def dec_enc_inode)
  have "disk_wf (g_disk_state s2)" using wf lb' by (simp add: s2_def disk_wf_def)
  moreover have "sys_frame s1 s2" by (simp add: sys_frame_def s2_def)
  moreover have "g_fs_state s2 = g_fs_state s1" by (simp add: s2_def)
  ultimately show ?thesis using w r by blast
qed

lemma validate_fd_ok:
  assumes "file_ops_validate_fd fs fd = Inr u"
  shows "0 \<le> fd \<and> nat fd < MAX_OPEN_FILES \<and> reference_count (open_files fs ! nat fd) \<noteq> 0"
  using assms by (auto simp: file_ops_validate_fd_def split: if_splits)

lemma load_if_needed_loaded:
  "magic_number (superblock (g_fs_state s)) = FS_MAGIC_NUMBER \<Longrightarrow>
   load_filesystem_state_if_needed s = (Inr (), s)"
  by (simp add: load_filesystem_state_if_needed_def)

lemma fs_write_result:
  fixes s fd bytes sz now
  defines "h \<equiv> open_files (g_fs_state s) ! nat fd"
  defines "res \<equiv> fs_write s fd (Some bytes) sz now"
  assumes v: "file_ops_validate_fd (g_fs_state s) fd = Inr ()"
    and loaded: "magic_number (superblock (g_fs_state s)) = FS_MAGIC_NUMBER"
    and sz: "0 < sz"
    and rd: "read_inode_from_disk s (fh_inode_number h) = Inr inode"
    and reg: "file_type inode = FS_FILE_TYPE_REGULAR"
    and perm: "user_manager_check_permission (g_fs_state s) inode FS_PERM_OWNER_WRITE"
    and loop: "fs_write_loop s inode (unat (file_position h)) bytes (nat sz) 0 = (s1, inode1, bw)"
    and tbl: "length (open_files (g_fs_state s)) = MAX_OPEN_FILES"
  shows "fst res = Inr (int bw)"
    and "file_position (open_files (g_fs_state (snd res)) ! nat fd) = file_position h + of_nat bw"
    and "0 < bw \<Longrightarrow> disk_wf (g_disk_state s) \<Longrightarrow> \<not> is_read_only (g_disk_state s)
         \<Longrightarrow> nat sz \<le> length bytes \<Longrightarrow>
         read_inode_from_disk (snd res) (fh_inode_number h) =
           Inr ((if file_size inode1 < file_position h + of_nat bw
                 then inode1\<lparr>file_size := file_position h + of_nat bw,
                             block_count := ucast ((file_position h + of_nat bw + of_nat BLOCK_SIZE - 1)
                                                     div of_nat BLOCK_SIZE)\<rparr>
                 else inode1)\<lparr>modify_time := now, change_time := now\<rparr>)"
proof -
  note fr = fs_write_loop_frame[OF loop]
  from fr have f1: "sys_frame s s1" by simp
  from validate_fd_ok[OF v] tbl have fdok: "nat fd < length (open_files (g_fs_state s))" by simp
  define new_size where "new_size = file_position h + of_nat bw"
  define inode3 where "inode3 = (if file_size inode1 < new_size
                 then inode1\<lparr>file_size := new_size,
                             block_count := ucast ((new_size + of_nat BLOCK_SIZE - 1)
                                                     div of_nat BLOCK_SIZE)\<rparr>
                 else inode1)\<lparr>modify_time := now, change_time := now\<rparr>"
  define s2 where "s2 = (case write_inode_to_disk s1 (fh_inode_number h) inode3 of
                                          Inl e \<Rightarrow> s1
                                        | Inr s' \<Rightarrow> s')"
  have g2: "g_fs_state s2 = g_fs_state s1"
    by (auto simp: s2_def write_inode_to_disk_def split: sum.splits dest: g_fs_state_write_inode)
  have of1: "open_files (g_fs_state s1) = open_files (g_fs_state s)"
    using f1 by (simp add: sys_frame_def)
  have res_pos: "0 < bw \<Longrightarrow> res =
      (Inr (int bw),
       s2\<lparr>g_fs_state := (g_fs_state s2)\<lparr>open_files := (open_files (g_fs_state s2))
             [nat fd := (open_files (g_fs_state s2) ! nat fd)
                 \<lparr>file_position := file_position (open_files (g_fs_state s2) ! nat fd) + of_nat bw\<rparr>]\<rparr>\<rparr>)"
    using v sz rd reg perm loop
    by (simp add: res_def fs_write_def load_if_needed_loaded[OF loaded] h_def[symmetric] Let_def
        new_size_def[symmetric] inode3_def[symmetric] s2_def[symmetric]
        del: of_nat_add)
  have res_zero: "bw = 0 \<Longrightarrow> res = (Inr (int bw), s1)"
    using v sz rd reg perm loop
    by (simp add: res_def fs_write_def load_if_needed_loaded[OF loaded] h_def[symmetric] Let_def)
  show "fst res = Inr (int bw)"
    using res_pos res_zero by (cases "bw = 0") auto
  show "file_position (open_files (g_fs_state (snd res)) ! nat fd) = file_position h + of_nat bw"
  proof (cases "bw = 0")
    case True
    with res_zero of1 show ?thesis by (simp add: h_def)
  next
    case False
    then have "0 < bw" by simp
    from res_pos[OF this] g2 of1 fdok show ?thesis by (simp add: h_def)
  qed
  show "read_inode_from_disk (snd res) (fh_inode_number h) =
           Inr ((if file_size inode1 < file_position h + of_nat bw
                 then inode1\<lparr>file_size := file_position h + of_nat bw,
                             block_count := ucast ((file_position h + of_nat bw + of_nat BLOCK_SIZE - 1)
                                                     div of_nat BLOCK_SIZE)\<rparr>
                 else inode1)\<lparr>modify_time := now, change_time := now\<rparr>)"
    if pos: "0 < bw" and wf: "disk_wf (g_disk_state s)" and ro: "\<not> is_read_only (g_disk_state s)"
      and len: "nat sz \<le> length bytes"
  proof -
    from rd have rd': "fs_ops_read_inode s (fh_inode_number h) = Inr inode"
      by (simp add: read_inode_from_disk_def)
    from fs_ops_read_inode_wf[OF rd' wf] have iw: "inode_wf inode" .
    from fr have "length (direct_blocks inode1) = length (direct_blocks inode)"
      and i1: "inode1 = inode\<lparr>direct_blocks := direct_blocks inode1\<rparr>" by simp_all
    with iw have iw1: "inode_wf inode1"
      by (metis fs_inode.select_convs(13,19) fs_inode.surjective fs_inode.update_convs(13) inode_wf_def)
    then have iw3: "inode_wf inode3" by (simp add: inode3_def inode_wf_def)
    from fr wf len have wf1: "disk_wf (g_disk_state s1)" by simp
    from f1 ro have ro1: "\<not> is_read_only (g_disk_state s1)" by (simp add: sys_frame_def)
    from fs_ops_write_then_read[OF rd' f1 ro1 wf1 iw3]
    obtain s2' where w: "fs_ops_write_inode s1 (fh_inode_number h) inode3 = Inr s2'"
      and r: "fs_ops_read_inode s2' (fh_inode_number h) = Inr inode3"
      by blast
    from w have "s2 = s2'" by (simp add: s2_def write_inode_to_disk_def)
    with r have r2: "fs_ops_read_inode s2 (fh_inode_number h) = Inr inode3" by simp
    have "fs_ops_read_inode (snd res) (fh_inode_number h) = fs_ops_read_inode s2 (fh_inode_number h)"
      using res_pos[OF pos] by (intro fs_ops_read_inode_cong) simp_all
    with r2 show ?thesis
      by (simp add: read_inode_from_disk_def inode3_def new_size_def)
  qed
qed

lemma block_index_pred:
  assumes "x mod BLOCK_SIZE \<noteq> 0"
  shows "block_index_of (x - 1) = block_index_of x"
proof -
  define q where "q = x div 1024"
  define r where "r = x mod 1024"
  have x: "x = 1024 * q + r" by (simp add: q_def r_def)
  have r: "0 < r" "r < 1024" using assms by (simp_all add: r_def BLOCK_SIZE_def)
  then have "x - 1 = q * 1024 + (r - 1)" using x by simp
  then have "(x - 1) div 1024 = (q * 1024 + (r - 1)) div 1024" by simp
  also have "\<dots> = q" using r by simp
  finally show ?thesis by (simp add: block_index_of_def BLOCK_SIZE_def q_def)
qed

lemma chunk_within:
  assumes "(st + k) mod BLOCK_SIZE = 0" and "bw < k"
  shows "bw + (BLOCK_SIZE - block_offset_of (st + bw)) \<le> k"
proof -
  define a where "a = st + bw"
  define b where "b = st + k"
  have ab: "a < b" using assms(2) by (simp add: a_def b_def)
  have b: "b = 1024 * (b div 1024)" using assms(1) by (simp add: b_def BLOCK_SIZE_def mod_eq_0_iff_dvd)
  have "a div 1024 < b div 1024"
  proof (rule ccontr)
    assume "\<not> a div 1024 < b div 1024"
    then have "b div 1024 \<le> a div 1024" by simp
    then have "1024 * (b div 1024) \<le> 1024 * (a div 1024)" by simp
    also have "\<dots> \<le> a" by simp
    finally show False using ab b by simp
  qed
  then have "1024 * (a div 1024) + 1024 \<le> 1024 * (b div 1024)" by simp
  with b have le: "1024 * (a div 1024) + 1024 \<le> b" by simp
  have a: "a = 1024 * (a div 1024) + a mod 1024" by simp
  have m: "a mod 1024 < 1024" by simp
  from a m have "a + (1024 - a mod 1024) = 1024 * (a div 1024) + 1024" by linarith
  with le have "a + (1024 - a mod 1024) \<le> b" by simp
  then show ?thesis by (simp add: a_def b_def BLOCK_SIZE_def block_offset_of_def)
qed

lemma allocate_exhausted:
  assumes "free_count (block_bitmap fs) = 0"
    and "file_ops_get_data_block inode idx = 0"
  shows "file_ops_allocate_data_block fs inode idx = (0, inode, fs)"
  using assms
  by (auto simp: file_ops_allocate_data_block_def file_ops_get_data_block_def
      alloc_data_block_from_bitmap_def)

lemma fs_write_loop_exhausted:
  assumes ex: "free_count (block_bitmap (g_fs_state s)) = 0"
    and nowrap: "st + sz < 2 ^ 64"
    and ro: "\<not> is_read_only (g_disk_state s)"
    and mapped: "\<forall>j. bw \<le> j \<and> j < k \<longrightarrow>
        file_ops_get_data_block inode (block_index_of (st + j)) \<noteq> 0
      \<and> disk_check_block_bounds (g_disk_state s)
            (file_ops_get_data_block inode (block_index_of (st + j)))"
    and unm: "file_ops_get_data_block inode (block_index_of (st + k)) = 0"
    and le: "bw \<le> k" and lt: "k < sz"
    and align: "bw = k \<or> (st + k) mod BLOCK_SIZE = 0"
  shows "\<exists>s'. fs_write_loop s inode st data sz bw = (s', inode, k) \<and> g_fs_state s' = g_fs_state s"
  using ex ro mapped le align
proof (induction "k - bw" arbitrary: s bw rule: less_induct)
  case less
  have guard: "st + bw < (st + sz) mod 2 ^ 64" using nowrap less.prems(4) lt by simp
  show ?case
  proof (cases "bw = k")
    case True
    have "fs_write_body s inode st data sz bw = Inl (s, inode, bw)"
      using unm True allocate_exhausted[OF less.prems(1) unm]
      by (simp add: fs_write_body_def Let_def)
    with guard True show ?thesis by (subst fs_write_loop.simps) simp
  next
    case False
    with less.prems have bwk: "bw < k" and al: "(st + k) mod BLOCK_SIZE = 0" by auto
    define bn where "bn = file_ops_get_data_block inode (block_index_of (st + bw))"
    from less.prems(3) bwk have bn0: "bn \<noteq> 0"
      and bnd: "disk_check_block_bounds (g_disk_state s) bn"
      by (auto simp: bn_def)
    define n where "n = min (BLOCK_SIZE - block_offset_of (st + bw)) (sz - bw)"
    from chunk_within[OF al bwk] lt have n: "n = BLOCK_SIZE - block_offset_of (st + bw)" "bw + n \<le> k"
      by (auto simp: n_def)
    have bo: "block_offset_of (st + bw) < BLOCK_SIZE"
      by (simp add: block_offset_of_def BLOCK_SIZE_def)
    with n have npos: "0 < n" by simp
    define blk where "blk = storage (g_disk_state s) (unat bn)"
    define d2 where "d2 = (g_disk_state s)\<lparr>storage := (storage (g_disk_state s))
        (unat bn := memcpy_at blk (block_offset_of (st + bw)) (slice data bw n))\<rparr>"
    have init: "is_initialized (g_disk_state s)" using bnd by (simp add: disk_check_block_bounds_def)
    have body: "fs_write_body s inode st data sz bw = Inr (s\<lparr>g_disk_state := d2\<rparr>, inode, bw + n)"
      using bn0 bnd init less.prems(2)
      by (simp add: fs_write_body_def Let_def bn_def[symmetric] disk_read_block_def
          disk_write_block_def blk_def[symmetric] n_def[symmetric] d2_def)
    have "\<exists>s'. fs_write_loop (s\<lparr>g_disk_state := d2\<rparr>) inode st data sz (bw + n) = (s', inode, k)
            \<and> g_fs_state s' = g_fs_state (s\<lparr>g_disk_state := d2\<rparr>)"
    proof (rule less.hyps)
      show "k - (bw + n) < k - bw" using npos bwk by simp
      show "free_count (block_bitmap (g_fs_state (s\<lparr>g_disk_state := d2\<rparr>))) = 0"
        using less.prems(1) by simp
      show "\<not> is_read_only (g_disk_state (s\<lparr>g_disk_state := d2\<rparr>))"
        using less.prems(2) by (simp add: d2_def)
      show "\<forall>j. bw + n \<le> j \<and> j < k \<longrightarrow>
        file_ops_get_data_block inode (block_index_of (st + j)) \<noteq> 0
      \<and> disk_check_block_bounds (g_disk_state (s\<lparr>g_disk_state := d2\<rparr>))
            (file_ops_get_data_block inode (block_index_of (st + j)))"
      proof -
        have "\<And>b. disk_check_block_bounds (g_disk_state (s\<lparr>g_disk_state := d2\<rparr>)) b
            = disk_check_block_bounds (g_disk_state s) b"
          by (simp add: d2_def disk_check_block_bounds_def)
        with less.prems(3) show ?thesis by simp
      qed
      show "bw + n \<le> k" by (rule n(2))
      show "bw + n = k \<or> (st + k) mod BLOCK_SIZE = 0" using al by simp
    qed
    then obtain s' where "fs_write_loop (s\<lparr>g_disk_state := d2\<rparr>) inode st data sz (bw + n) = (s', inode, k)"
      and "g_fs_state s' = g_fs_state s" by auto
    with guard body show ?thesis by (subst fs_write_loop.simps) simp
  qed
qed

text \<open>The write loop on a file that owns its blocks.\<close>

lemma alloc_scan_Some:
  assumes "alloc_scan bm bytes i0 = Some b"
  shows "\<not> bit_is_set bytes (unat b) \<and> unat b < unat (total_bits bm)"
  using assms
proof (induction "unat (total_bits bm) - i0" arbitrary: i0)
  case 0
  then show ?case by (subst (asm) alloc_scan.simps) simp
next
  case (Suc k)
  from Suc.prems have lt: "i0 < unat (total_bits bm)"
    by (subst (asm) alloc_scan.simps) (simp split: if_splits)
  then have nz: "total_bits bm \<noteq> 0" by (auto simp: unat_eq_0)
  show ?case
  proof (cases "bit_is_set bytes (unat (scan_bit bm i0))")
    case True
    with Suc.prems lt have "alloc_scan bm bytes (Suc i0) = Some b"
      by (subst (asm) alloc_scan.simps) simp
    moreover have "k = unat (total_bits bm) - Suc i0" using Suc.hyps(2) by simp
    ultimately show ?thesis using Suc.hyps(1) by blast
  next
    case False
    with Suc.prems lt have b: "b = scan_bit bm i0"
      by (subst (asm) alloc_scan.simps) simp
    have "unat (scan_bit bm i0) < unat (total_bits bm)"
      using nz by (simp add: scan_bit_def unat_mod unat_gt_0)
    with False b show ?thesis by simp
  qed
qed

lemma allocate_owned:
  assumes own: "blocks_owned fs inode"
    and un: "file_ops_get_data_block inode idx = 0"
    and al: "file_ops_allocate_data_block fs inode idx = (b, inode', fs')"
  shows "blocks_owned fs' inode'
       \<and> superblock fs' = superblock fs
       \<and> total_bits (block_bitmap fs') = total_bits (block_bitmap fs)
       \<and> (if b = 0 then inode' = inode
           else idx < DIRECT_BLOCKS
              \<and> inode' = inode\<lparr>direct_blocks := (direct_blocks inode)[idx := b]\<rparr>)"
proof (cases "idx < DIRECT_BLOCKS")
  case False
  with al own show ?thesis by (auto simp: file_ops_allocate_data_block_def)
next
  case True
  with un have z: "direct_blocks inode ! idx = 0" by (simp add: file_ops_get_data_block_def)
  from own have l12: "length (direct_blocks inode) = DIRECT_BLOCKS"
    and dist: "\<forall>i < DIRECT_BLOCKS. \<forall>j < DIRECT_BLOCKS.
         i \<noteq> j \<and> direct_blocks inode ! i \<noteq> 0 \<longrightarrow>
           direct_blocks inode ! i \<noteq> direct_blocks inode ! j"
    and above: "\<forall>i < DIRECT_BLOCKS. direct_blocks inode ! i \<noteq> 0 \<longrightarrow>
         data_blocks_start (superblock fs) \<le> direct_blocks inode ! i"
    by (simp_all add: blocks_owned_def)
  define ds where "ds = data_blocks_start (superblock fs)"
  show ?thesis
  proof (cases "free_count (block_bitmap fs) = 0")
    case fc: True
    with al True z have "b = 0" "inode' = inode" "fs' = fs"
      by (auto simp: file_ops_allocate_data_block_def alloc_data_block_from_bitmap_def)
    with own show ?thesis by simp
  next
    case fc: False
    with own obtain bytes where bm: "bitmap (block_bitmap fs) = Some bytes"
      and len: "unat (total_bits (block_bitmap fs)) \<le> 8 * length bytes"
      and bits: "\<forall>i < DIRECT_BLOCKS. direct_blocks inode ! i \<noteq> 0 \<longrightarrow>
               bit_is_set bytes (unat (direct_blocks inode ! i - ds))"
      and nw: "unat ds + unat (total_bits (block_bitmap fs)) \<le> 2 ^ 32"
      by (auto simp: blocks_owned_def ds_def)
    show ?thesis
    proof (cases "alloc_scan (block_bitmap fs) bytes 0")
      case None
      with al True z fc bm have "b = 0" "inode' = inode" "fs' = fs"
        by (auto simp: file_ops_allocate_data_block_def alloc_data_block_from_bitmap_def)
      with own show ?thesis by simp
    next
      case (Some bit)
      from alloc_scan_Some[OF Some]
      have clr: "\<not> bit_is_set bytes (unat bit)"
        and rng: "unat bit < unat (total_bits (block_bitmap fs))" by simp_all
      define bytes1 where "bytes1 = mark_bit bytes (unat bit)"
      define fs1 where "fs1 = fs\<lparr>block_bitmap := (block_bitmap fs)
          \<lparr>bitmap := Some bytes1,
           free_count := free_count (block_bitmap fs) - 1, last_allocated := bit\<rparr>\<rparr>"
      have nd: "unat bit div 8 < length bytes" using rng len by linarith
      have lm: "length bytes1 = length bytes" by (simp add: bytes1_def mark_bit_def)
      have set1: "bit_is_set bytes1 m \<longleftrightarrow> m = unat bit \<or> bit_is_set bytes m" for m
        unfolding bytes1_def by (rule bit_is_set_mark_bit[OF nd])
      have sb1: "superblock fs1 = superblock fs"
        and tb1: "total_bits (block_bitmap fs1) = total_bits (block_bitmap fs)"
        and bm1: "bitmap (block_bitmap fs1) = Some bytes1"
        by (simp_all add: fs1_def)
      have ad: "alloc_data_block_from_bitmap (block_bitmap fs) (data_blocks_start (superblock fs))
                 = (bit + ds, block_bitmap fs1)"
        using fc Some bm by (simp add: alloc_data_block_from_bitmap_def fs1_def ds_def bytes1_def)
      have fs1': "fs\<lparr>block_bitmap := block_bitmap fs1\<rparr> = fs1" by (simp add: fs1_def)
      have second: "unat (data_blocks_start (superblock fs1)) + unat (total_bits (block_bitmap fs1)) \<le> 2 ^ 32
        \<and> (\<exists>bytes. bitmap (block_bitmap fs1) = Some bytes
              \<and> unat (total_bits (block_bitmap fs1)) \<le> 8 * length bytes
              \<and> (\<forall>i < DIRECT_BLOCKS. direct_blocks ino ! i \<noteq> 0 \<longrightarrow>
                    bit_is_set bytes
                      (unat (direct_blocks ino ! i - data_blocks_start (superblock fs1)))))"
        if "\<forall>i < DIRECT_BLOCKS. direct_blocks ino ! i \<noteq> 0 \<longrightarrow>
               bit_is_set bytes1 (unat (direct_blocks ino ! i - ds))" for ino
        using that nw len lm by (auto simp: sb1 tb1 bm1 ds_def)
      have own1: "blocks_owned fs1 inode"
        unfolding blocks_owned_def
        using l12 dist above second[of inode] bits set1 by (simp add: sb1)
      show ?thesis
      proof (cases "0 < bit + ds")
        case False
        with al True z ad fs1' have "b = 0" "inode' = inode" "fs' = fs1"
          by (auto simp: file_ops_allocate_data_block_def)
        with own1 show ?thesis by (simp add: fs1_def)
      next
        case pos: True
        with al True z ad fs1' have r: "b = bit + ds"
          "inode' = inode\<lparr>direct_blocks := (direct_blocks inode)[idx := bit + ds]\<rparr>" "fs' = fs1"
          by (auto simp: file_ops_allocate_data_block_def)
        have nwb: "unat bit + unat ds < 2 ^ 32" using rng nw by simp
        then have ub: "unat (bit + ds) = unat bit + unat ds" by (simp add: unat_word_ariths)
        then have ge: "ds \<le> bit + ds" by (simp add: word_le_nat_alt)
        have sub: "bit + ds - ds = bit" by simp
        have fresh: "direct_blocks inode ! j \<noteq> bit + ds" if "j < DIRECT_BLOCKS" for j
        proof
          assume e: "direct_blocks inode ! j = bit + ds"
          with pos have "direct_blocks inode ! j \<noteq> 0" by (simp add: word_neq_0_conv)
          with bits that have "bit_is_set bytes (unat (direct_blocks inode ! j - ds))" by simp
          with e sub clr show False by simp
        qed
        define inode1 where "inode1 = inode\<lparr>direct_blocks := (direct_blocks inode)[idx := bit + ds]\<rparr>"
        have nth1: "direct_blocks inode1 ! i = (if i = idx then bit + ds else direct_blocks inode ! i)"
          if "i < DIRECT_BLOCKS" for i
          using that l12 by (simp add: inode1_def nth_list_update)
        have bits1: "\<forall>i < DIRECT_BLOCKS. direct_blocks inode1 ! i \<noteq> 0 \<longrightarrow>
               bit_is_set bytes1 (unat (direct_blocks inode1 ! i - ds))"
          using bits sub by (auto simp: nth1 set1)
        have above1: "\<forall>i < DIRECT_BLOCKS. direct_blocks inode1 ! i \<noteq> 0 \<longrightarrow>
               data_blocks_start (superblock fs1) \<le> direct_blocks inode1 ! i"
          using above ge by (auto simp: nth1 sb1 ds_def)
        have dist1: "\<forall>i<DIRECT_BLOCKS. \<forall>j<DIRECT_BLOCKS.
              i \<noteq> j \<and> direct_blocks inode1 ! i \<noteq> 0 \<longrightarrow>
              direct_blocks inode1 ! i \<noteq> direct_blocks inode1 ! j"
        proof (intro allI impI)
          fix i j assume i: "i < DIRECT_BLOCKS" and j: "j < DIRECT_BLOCKS"
            and h: "i \<noteq> j \<and> direct_blocks inode1 ! i \<noteq> 0"
          show "direct_blocks inode1 ! i \<noteq> direct_blocks inode1 ! j"
          proof (cases "i = idx")
            case ii: True
            with h have "j \<noteq> idx" by simp
            with ii i j fresh[OF j] show ?thesis by (simp add: nth1 eq_commute)
          next
            case ni: False
            show ?thesis
            proof (cases "j = idx")
              case True
              with ni i j fresh[OF i] show ?thesis by (simp add: nth1)
            next
              case False
              with ni i j h dist show ?thesis by (simp add: nth1)
            qed
          qed
        qed
        have l1: "length (direct_blocks inode1) = DIRECT_BLOCKS" using l12 by (simp add: inode1_def)
        have "blocks_owned fs1 inode1"
          unfolding blocks_owned_def
          using l1 dist1 above1 second[of inode1, OF bits1] by simp
        with r pos True show ?thesis by (simp add: fs1_def inode1_def word_neq_0_conv)
      qed
    qed
  qed
qed

lemma get_data_block_update:
  assumes "idx < DIRECT_BLOCKS" "length (direct_blocks inode) = DIRECT_BLOCKS"
  shows "file_ops_get_data_block (inode\<lparr>direct_blocks := (direct_blocks inode)[idx := b]\<rparr>) idx = b"
  using assms by (simp add: file_ops_get_data_block_def)

lemma fs_write_body_owned:
  fixes s inode st data sz bw
  defines "idx \<equiv> block_index_of (st + bw)"
  defines "off \<equiv> block_offset_of (st + bw)"
  defines "n \<equiv> min (BLOCK_SIZE - block_offset_of (st + bw)) (sz - bw)"
  assumes own: "blocks_owned (g_fs_state s) inode" and ro: "\<not> is_read_only (g_disk_state s)"
  shows "\<exists>s' inode'.
           blocks_owned (g_fs_state s') inode'
         \<and> superblock (g_fs_state s') = superblock (g_fs_state s)
         \<and> (\<forall>i<DIRECT_BLOCKS. direct_blocks inode ! i \<noteq> 0 \<longrightarrow>
                direct_blocks inode' ! i = direct_blocks inode ! i)
         \<and> (fs_write_body s inode st data sz bw = Inl (s', inode', bw)
              \<and> g_disk_state s' = g_disk_state s
              \<and> (file_ops_get_data_block inode' idx = 0
                  \<or> \<not> disk_check_block_bounds (g_disk_state s) (file_ops_get_data_block inode' idx))
            \<or> fs_write_body s inode st data sz bw = Inr (s', inode', bw + n)
              \<and> file_ops_get_data_block inode' idx \<noteq> 0
              \<and> disk_check_block_bounds (g_disk_state s) (file_ops_get_data_block inode' idx)
              \<and> g_disk_state s' = (g_disk_state s)\<lparr>storage := (storage (g_disk_state s))
                    (unat (file_ops_get_data_block inode' idx) :=
                       memcpy_at (storage (g_disk_state s) (unat (file_ops_get_data_block inode' idx)))
                         off (slice data bw n))\<rparr>)"
proof -
  from own have l12: "length (direct_blocks inode) = DIRECT_BLOCKS" by (simp add: blocks_owned_def)
  obtain b inode1 fs1 where a: "(if file_ops_get_data_block inode idx = 0
             then file_ops_allocate_data_block (g_fs_state s) inode idx
             else (file_ops_get_data_block inode idx, inode, g_fs_state s))
          = (b, inode1, fs1)"
    by (metis prod_cases3)
  have f: "blocks_owned fs1 inode1 \<and> superblock fs1 = superblock (g_fs_state s)
         \<and> file_ops_get_data_block inode1 idx = b
         \<and> (\<forall>i<DIRECT_BLOCKS. direct_blocks inode ! i \<noteq> 0 \<longrightarrow>
                direct_blocks inode1 ! i = direct_blocks inode ! i)"
  proof (cases "file_ops_get_data_block inode idx = 0")
    case False
    with a own show ?thesis by auto
  next
    case True
    with a have al: "file_ops_allocate_data_block (g_fs_state s) inode idx = (b, inode1, fs1)" by simp
    note A = allocate_owned[OF own True al]
    show ?thesis
    proof (cases "b = 0")
      case b0: True
      with A have i1: "inode1 = inode" by simp
      from A have "blocks_owned fs1 inode1" "superblock fs1 = superblock (g_fs_state s)" by simp_all
      then show ?thesis using True b0 unfolding i1 by simp
    next
      case False
      with A have i: "idx < DIRECT_BLOCKS"
        and i1: "inode1 = inode\<lparr>direct_blocks := (direct_blocks inode)[idx := b]\<rparr>" by simp_all
      from True i have z: "direct_blocks inode ! idx = 0" by (simp add: file_ops_get_data_block_def)
      have "\<forall>i<DIRECT_BLOCKS. direct_blocks inode ! i \<noteq> 0 \<longrightarrow>
                direct_blocks inode1 ! i = direct_blocks inode ! i"
      proof (intro allI impI)
        fix j assume j: "j < DIRECT_BLOCKS" and nz: "direct_blocks inode ! j \<noteq> 0"
        with z have "j \<noteq> idx" by auto
        then show "direct_blocks inode1 ! j = direct_blocks inode ! j" by (simp add: i1)
      qed
      with A i1 get_data_block_update[OF i l12] show ?thesis by simp
    qed
  qed
  define s1 where "s1 = s\<lparr>g_fs_state := fs1\<rparr>"
  have d1: "g_disk_state s1 = g_disk_state s" by (simp add: s1_def)
  let ?d = "g_disk_state s"
  have body: "fs_write_body s inode st data sz bw =
      (if b = 0 then Inl (s1, inode1, bw)
       else case disk_read_block ?d b True of
              Inl e \<Rightarrow> Inl (s1, inode1, bw)
            | Inr block_data \<Rightarrow>
                (case disk_write_block ?d b (Some (memcpy_at block_data off (slice data bw n))) of
                   Inl e \<Rightarrow> Inl (s1, inode1, bw)
                 | Inr d2 \<Rightarrow> Inr (s1\<lparr>g_disk_state := d2\<rparr>, inode1, bw + n)))"
    unfolding fs_write_body_def Let_def idx_def[symmetric] a off_def n_def s1_def
    by (simp split: sum.splits)
  show ?thesis
  proof (cases "b = 0 \<or> \<not> disk_check_block_bounds ?d b")
    case True
    have "fs_write_body s inode st data sz bw = Inl (s1, inode1, bw)"
      using True by (auto simp: body disk_read_block_def)
    with f True d1 show ?thesis
      by (intro exI[of _ s1] exI[of _ inode1]) (auto simp: s1_def)
  next
    case False
    then have b0: "b \<noteq> 0" and bnd: "disk_check_block_bounds ?d b" by simp_all
    from bnd have init: "is_initialized ?d" by (simp add: disk_check_block_bounds_def)
    define d2 where "d2 = ?d\<lparr>storage := (storage ?d)
                    (unat b := memcpy_at (storage ?d (unat b)) off (slice data bw n))\<rparr>"
    have "fs_write_body s inode st data sz bw = Inr (s1\<lparr>g_disk_state := d2\<rparr>, inode1, bw + n)"
      using b0 bnd init ro
      by (simp add: body disk_read_block_def disk_write_block_def d2_def)
    with f b0 bnd show ?thesis
      by (intro exI[of _ "s1\<lparr>g_disk_state := d2\<rparr>"] exI[of _ inode1]) (auto simp: s1_def d2_def)
  qed
qed

lemma block_index_small:
  assumes "x < 2 ^ 42"
  shows "block_index_of x = x div BLOCK_SIZE"
proof -
  have "x < 4398046511104" using assms by simp
  then have "x div 1024 < 4294967296" by linarith
  then show ?thesis by (simp add: block_index_of_def BLOCK_SIZE_def)
qed

lemma chunk_same_block:
  assumes "t < BLOCK_SIZE - block_offset_of x"
  shows "(x + t) div BLOCK_SIZE = x div BLOCK_SIZE"
    and "block_offset_of (x + t) = block_offset_of x + t"
proof -
  define q where "q = x div 1024"
  define r where "r = x mod 1024"
  have x: "x = q * 1024 + r" by (simp add: q_def r_def)
  have r: "r + t < 1024" using assms by (simp add: r_def block_offset_of_def BLOCK_SIZE_def)
  have xt: "x + t = q * 1024 + (r + t)" using x by simp
  have "(q * 1024 + (r + t)) div 1024 = q" using r by simp
  then have "(x + t) div 1024 = q" unfolding xt .
  then show "(x + t) div BLOCK_SIZE = x div BLOCK_SIZE"
    by (simp add: BLOCK_SIZE_def q_def)
  have "(q * 1024 + (r + t)) mod 1024 = r + t" using r by simp
  then have "(x + t) mod 1024 = r + t" unfolding xt .
  then show "block_offset_of (x + t) = block_offset_of x + t"
    by (simp add: block_offset_of_def BLOCK_SIZE_def r_def)
qed

lemma chunk_next_block:
  assumes "x + (BLOCK_SIZE - block_offset_of x) \<le> y"
  shows "x div BLOCK_SIZE < y div BLOCK_SIZE"
proof -
  define q where "q = x div 1024"
  define r where "r = x mod 1024"
  have x: "x = q * 1024 + r" by (simp add: q_def r_def)
  have r: "r < 1024" by (simp add: r_def)
  have "(q + 1) * 1024 \<le> y"
    using assms x r by (simp add: block_offset_of_def BLOCK_SIZE_def r_def[symmetric])
  then have "(q + 1) * 1024 div 1024 \<le> y div 1024" by (rule div_le_mono)
  then have "q + 1 \<le> y div 1024" by simp
  then show ?thesis by (simp add: BLOCK_SIZE_def q_def)
qed

lemma nth_memcpy_at:
  assumes "off \<le> length dst" "t < length src"
  shows "memcpy_at dst off src ! (off + t) = src ! t"
  using assms by (simp add: memcpy_at_def nth_append)

lemma nth_slice:
  assumes "a + n \<le> length xs" "t < n"
  shows "slice xs a n ! t = xs ! (a + t)"
  using assms by (simp add: slice_def)

lemma fs_write_loop_owned:
  assumes "fs_write_loop s inode st data sz bw = (s1, inode1, k)"
    and "blocks_owned (g_fs_state s) inode"
    and "\<not> is_read_only (g_disk_state s)"
    and "disk_wf (g_disk_state s)"
    and "sz \<le> length data" and "st + sz \<le> 2 ^ 42"
  shows "blocks_owned (g_fs_state s1) inode1
     \<and> (\<forall>i<DIRECT_BLOCKS. direct_blocks inode ! i \<noteq> 0 \<longrightarrow>
            direct_blocks inode1 ! i = direct_blocks inode ! i)
     \<and> (\<forall>j. bw \<le> j \<and> j < k \<longrightarrow>
           file_ops_get_data_block inode1 (block_index_of (st + j)) \<noteq> 0
         \<and> storage (g_disk_state s1)
               (unat (file_ops_get_data_block inode1 (block_index_of (st + j))))
             ! block_offset_of (st + j) = data ! j)
     \<and> (\<forall>m. (\<forall>i. (st + bw) div BLOCK_SIZE \<le> i \<and> i < DIRECT_BLOCKS \<longrightarrow>
                  m \<noteq> unat (direct_blocks inode1 ! i)) \<longrightarrow>
            storage (g_disk_state s1) m = storage (g_disk_state s) m)
     \<and> (k < sz \<longrightarrow>
           file_ops_get_data_block inode1 (block_index_of (st + k)) = 0
         \<or> \<not> disk_check_block_bounds (g_disk_state s)
               (file_ops_get_data_block inode1 (block_index_of (st + k))))"
  using assms
proof (induction s inode st data sz bw rule: fs_write_loop.induct)
  case (1 s inode st data sz bw)
  note loop = "1.prems"(1) and own = "1.prems"(2) and ro = "1.prems"(3) and wf = "1.prems"(4)
    and len = "1.prems"(5) and rng = "1.prems"(6)
  have nowrap: "(st + sz) mod 2 ^ 64 = st + sz"
  proof -
    have "(2::nat) ^ 42 < 2 ^ 64" by simp
    with rng have "st + sz < 2 ^ 64" by linarith
    then show ?thesis by simp
  qed
  show ?case
  proof (cases "st + bw < st + sz")
    case False
    with loop nowrap have r: "s1 = s" "inode1 = inode" "k = bw"
      by (simp_all add: fs_write_loop.simps)
    have "\<not> bw < sz" using False by simp
    with own show ?thesis unfolding r by auto
  next
    case True
    then have lt: "bw < sz" by simp
    from True nowrap have guard: "st + bw < (st + sz) mod 2 ^ 64" by simp
    define idx where "idx = block_index_of (st + bw)"
    define off where "off = block_offset_of (st + bw)"
    define n where "n = min (BLOCK_SIZE - block_offset_of (st + bw)) (sz - bw)"
    have x42: "st + bw < 2 ^ 42" using lt rng by linarith
    have idx: "idx = (st + bw) div BLOCK_SIZE" unfolding idx_def by (rule block_index_small[OF x42])
    have offlt: "off < BLOCK_SIZE" by (simp add: off_def block_offset_of_def BLOCK_SIZE_def)
    have npos: "0 < n" "bw + n \<le> sz" "n \<le> BLOCK_SIZE - off"
      using lt offlt by (simp_all add: n_def off_def)
    from fs_write_body_owned[OF own ro, of st data sz bw]
    obtain s' inode' where own': "blocks_owned (g_fs_state s') inode'"
      and sb': "superblock (g_fs_state s') = superblock (g_fs_state s)"
      and keep': "\<forall>i<DIRECT_BLOCKS. direct_blocks inode ! i \<noteq> 0 \<longrightarrow>
                direct_blocks inode' ! i = direct_blocks inode ! i"
      and alt: "fs_write_body s inode st data sz bw = Inl (s', inode', bw)
              \<and> g_disk_state s' = g_disk_state s
              \<and> (file_ops_get_data_block inode' idx = 0
                  \<or> \<not> disk_check_block_bounds (g_disk_state s) (file_ops_get_data_block inode' idx))
            \<or> fs_write_body s inode st data sz bw = Inr (s', inode', bw + n)
              \<and> file_ops_get_data_block inode' idx \<noteq> 0
              \<and> disk_check_block_bounds (g_disk_state s) (file_ops_get_data_block inode' idx)
              \<and> g_disk_state s' = (g_disk_state s)\<lparr>storage := (storage (g_disk_state s))
                    (unat (file_ops_get_data_block inode' idx) :=
                       memcpy_at (storage (g_disk_state s) (unat (file_ops_get_data_block inode' idx)))
                         off (slice data bw n))\<rparr>"
      unfolding idx_def off_def n_def by blast
    from alt show ?thesis
    proof (rule disjE)
      assume A: "fs_write_body s inode st data sz bw = Inl (s', inode', bw)
              \<and> g_disk_state s' = g_disk_state s
              \<and> (file_ops_get_data_block inode' idx = 0
                  \<or> \<not> disk_check_block_bounds (g_disk_state s) (file_ops_get_data_block inode' idx))"
      then have body: "fs_write_body s inode st data sz bw = Inl (s', inode', bw)"
        and d: "g_disk_state s' = g_disk_state s"
        and stop: "file_ops_get_data_block inode' idx = 0
                  \<or> \<not> disk_check_block_bounds (g_disk_state s) (file_ops_get_data_block inode' idx)"
        by simp_all
      from loop guard body have r: "s1 = s'" "inode1 = inode'" "k = bw"
        by (simp_all add: fs_write_loop.simps)
      from own' keep' d stop show ?thesis unfolding r idx_def by auto
    next
      define b where "b = file_ops_get_data_block inode' idx"
      assume B: "fs_write_body s inode st data sz bw = Inr (s', inode', bw + n)
              \<and> file_ops_get_data_block inode' idx \<noteq> 0
              \<and> disk_check_block_bounds (g_disk_state s) (file_ops_get_data_block inode' idx)
              \<and> g_disk_state s' = (g_disk_state s)\<lparr>storage := (storage (g_disk_state s))
                    (unat (file_ops_get_data_block inode' idx) :=
                       memcpy_at (storage (g_disk_state s) (unat (file_ops_get_data_block inode' idx)))
                         off (slice data bw n))\<rparr>"
      then have body: "fs_write_body s inode st data sz bw = Inr (s', inode', bw + n)"
        and b0: "file_ops_get_data_block inode' idx \<noteq> 0"
        and bnd: "disk_check_block_bounds (g_disk_state s) (file_ops_get_data_block inode' idx)"
        and d: "g_disk_state s' = (g_disk_state s)\<lparr>storage := (storage (g_disk_state s))
                    (unat (file_ops_get_data_block inode' idx) :=
                       memcpy_at (storage (g_disk_state s) (unat (file_ops_get_data_block inode' idx)))
                         off (slice data bw n))\<rparr>"
        by simp_all
      from loop guard body have rec: "fs_write_loop s' inode' st data sz (bw + n) = (s1, inode1, k)"
        by (simp add: fs_write_loop.simps)
      have ro': "\<not> is_read_only (g_disk_state s')" using ro d by simp
      have wf': "disk_wf (g_disk_state s')"
        using fs_write_body_disk_wf[OF body _ wf len, of s' inode' "bw + n"] by simp
      have bnd_eq: "\<And>x. disk_check_block_bounds (g_disk_state s') x
                       = disk_check_block_bounds (g_disk_state s) x"
        using d by (simp add: disk_check_block_bounds_def)
      from "1.IH"[OF guard body refl refl rec own' ro' wf' len rng]
      have ih_own: "blocks_owned (g_fs_state s1) inode1"
        and ih_keep: "\<forall>i<DIRECT_BLOCKS. direct_blocks inode' ! i \<noteq> 0 \<longrightarrow>
            direct_blocks inode1 ! i = direct_blocks inode' ! i"
        and ih_pin: "\<forall>j. bw + n \<le> j \<and> j < k \<longrightarrow>
           file_ops_get_data_block inode1 (block_index_of (st + j)) \<noteq> 0
         \<and> storage (g_disk_state s1)
               (unat (file_ops_get_data_block inode1 (block_index_of (st + j))))
             ! block_offset_of (st + j) = data ! j"
        and ih_frame: "\<forall>m. (\<forall>i. (st + (bw + n)) div BLOCK_SIZE \<le> i \<and> i < DIRECT_BLOCKS \<longrightarrow>
                  m \<noteq> unat (direct_blocks inode1 ! i)) \<longrightarrow>
            storage (g_disk_state s1) m = storage (g_disk_state s') m"
        and ih_stop: "k < sz \<longrightarrow>
           file_ops_get_data_block inode1 (block_index_of (st + k)) = 0
         \<or> \<not> disk_check_block_bounds (g_disk_state s')
               (file_ops_get_data_block inode1 (block_index_of (st + k)))"
        by simp_all
      from fs_write_loop_frame[OF rec] npos have kb: "bw + n \<le> k" "k \<le> sz" by simp_all
      have i12: "idx < DIRECT_BLOCKS"
        using b0 by (auto simp: file_ops_get_data_block_def split: if_splits)
      have b': "direct_blocks inode' ! idx = b" using i12 by (simp add: b_def file_ops_get_data_block_def)
      have bnz: "b \<noteq> 0" using b0 by (simp add: b_def)
      have b1: "direct_blocks inode1 ! idx = b" using ih_keep i12 b' bnz by simp
      have g1: "file_ops_get_data_block inode1 idx = b"
        using b1 i12 by (simp add: file_ops_get_data_block_def)
      from ih_own have dist1: "\<forall>i<DIRECT_BLOCKS. \<forall>j<DIRECT_BLOCKS.
         i \<noteq> j \<and> direct_blocks inode1 ! i \<noteq> 0 \<longrightarrow>
           direct_blocks inode1 ! i \<noteq> direct_blocks inode1 ! j"
        by (simp add: blocks_owned_def)
      have later: "storage (g_disk_state s1) (unat b) = storage (g_disk_state s') (unat b)"
      proof (cases "bw + n < sz")
        case False
        with kb npos have "\<not> st + (bw + n) < (st + sz) mod 2 ^ 64" using nowrap by simp
        with rec have "s1 = s'" by (simp add: fs_write_loop.simps)
        then show ?thesis by simp
      next
        case True
        then have nfull: "n = BLOCK_SIZE - off" by (auto simp: n_def off_def)
        have "(st + bw) div BLOCK_SIZE < (st + (bw + n)) div BLOCK_SIZE"
          by (rule chunk_next_block) (simp add: nfull off_def)
        then have nxt: "idx < (st + (bw + n)) div BLOCK_SIZE" by (simp add: idx)
        have "\<forall>i. (st + (bw + n)) div BLOCK_SIZE \<le> i \<and> i < DIRECT_BLOCKS \<longrightarrow>
                  unat b \<noteq> unat (direct_blocks inode1 ! i)"
        proof (intro allI impI)
          fix i assume i: "(st + (bw + n)) div BLOCK_SIZE \<le> i \<and> i < DIRECT_BLOCKS"
          with nxt have "idx \<noteq> i" by simp
          with dist1 i12 i b1 bnz have "b \<noteq> direct_blocks inode1 ! i" by auto
          then show "unat b \<noteq> unat (direct_blocks inode1 ! i)" by (simp add: word_unat_eq_iff)
        qed
        with ih_frame show ?thesis by blast
      qed
      have blen: "length (storage (g_disk_state s) (unat b)) = BLOCK_SIZE"
        using wf by (simp add: disk_wf_def)
      have sl: "length (slice data bw n) = n" using npos len by simp
      have pin_now: "storage (g_disk_state s1) (unat b) ! (off + t) = data ! (bw + t)" if "t < n" for t
      proof -
        have "storage (g_disk_state s') (unat b)
                = memcpy_at (storage (g_disk_state s) (unat b)) off (slice data bw n)"
          using d by (simp add: b_def)
        then have "storage (g_disk_state s1) (unat b) ! (off + t)
                = memcpy_at (storage (g_disk_state s) (unat b)) off (slice data bw n) ! (off + t)"
          using later by simp
        also have "\<dots> = slice data bw n ! t"
          by (rule nth_memcpy_at) (use offlt blen sl that in simp_all)
        also have "\<dots> = data ! (bw + t)"
          by (rule nth_slice) (use npos len that in simp_all)
        finally show ?thesis .
      qed
      have keep: "\<forall>i<DIRECT_BLOCKS. direct_blocks inode ! i \<noteq> 0 \<longrightarrow>
            direct_blocks inode1 ! i = direct_blocks inode ! i"
        using keep' ih_keep by simp
      have pin: "\<forall>j. bw \<le> j \<and> j < k \<longrightarrow>
           file_ops_get_data_block inode1 (block_index_of (st + j)) \<noteq> 0
         \<and> storage (g_disk_state s1)
               (unat (file_ops_get_data_block inode1 (block_index_of (st + j))))
             ! block_offset_of (st + j) = data ! j"
      proof (intro allI impI)
        fix j assume j: "bw \<le> j \<and> j < k"
        show "file_ops_get_data_block inode1 (block_index_of (st + j)) \<noteq> 0
         \<and> storage (g_disk_state s1)
               (unat (file_ops_get_data_block inode1 (block_index_of (st + j))))
             ! block_offset_of (st + j) = data ! j"
        proof (cases "bw + n \<le> j")
          case True
          with j ih_pin show ?thesis by simp
        next
          case False
          define t where "t = j - bw"
          have t1: "t < n" using j False unfolding t_def by linarith
          have t2: "j = bw + t" using j unfolding t_def by linarith
          note t = t1 t2
          have tt: "t < BLOCK_SIZE - block_offset_of (st + bw)" using t npos by (simp add: off_def)
          have j42: "st + j < 2 ^ 42" using j kb rng by linarith
          have "block_index_of (st + j) = (st + j) div BLOCK_SIZE" by (rule block_index_small[OF j42])
          also have "\<dots> = (st + bw + t) div BLOCK_SIZE" by (simp add: t add.assoc)
          also have "\<dots> = (st + bw) div BLOCK_SIZE" by (rule chunk_same_block(1)[OF tt])
          finally have ji: "block_index_of (st + j) = idx" by (simp add: idx)
          have "block_offset_of (st + j) = block_offset_of (st + bw + t)" by (simp add: t add.assoc)
          also have "\<dots> = off + t" unfolding off_def by (rule chunk_same_block(2)[OF tt])
          finally have jo: "block_offset_of (st + j) = off + t" .
          show ?thesis unfolding ji jo g1 using bnz pin_now[OF t(1)] t(2) by simp
        qed
      qed
      have mono: "(st + bw) div BLOCK_SIZE \<le> (st + (bw + n)) div BLOCK_SIZE"
        by (rule div_le_mono) simp
      have frame: "\<forall>m. (\<forall>i. (st + bw) div BLOCK_SIZE \<le> i \<and> i < DIRECT_BLOCKS \<longrightarrow>
                  m \<noteq> unat (direct_blocks inode1 ! i)) \<longrightarrow>
            storage (g_disk_state s1) m = storage (g_disk_state s) m"
      proof (intro allI impI)
        fix m assume m: "\<forall>i. (st + bw) div BLOCK_SIZE \<le> i \<and> i < DIRECT_BLOCKS \<longrightarrow>
                  m \<noteq> unat (direct_blocks inode1 ! i)"
        then have "m \<noteq> unat b" using i12 b1 idx by auto
        then have a: "storage (g_disk_state s') m = storage (g_disk_state s) m"
          using d by (simp add: b_def)
        from m mono have "\<forall>i. (st + (bw + n)) div BLOCK_SIZE \<le> i \<and> i < DIRECT_BLOCKS \<longrightarrow>
                  m \<noteq> unat (direct_blocks inode1 ! i)" by auto
        with ih_frame have "storage (g_disk_state s1) m = storage (g_disk_state s') m" by blast
        with a show "storage (g_disk_state s1) m = storage (g_disk_state s) m" by simp
      qed
      from ih_own keep pin frame ih_stop show ?thesis by (simp add: bnd_eq)
    qed
  qed
qed

lemma fs_ops_write_inode_storage:
  assumes "fs_ops_write_inode s ino inode = Inr s'"
    and "m \<noteq> unat (inode_block_num (superblock (g_fs_state s)) ino)"
  shows "storage (g_disk_state s') m = storage (g_disk_state s) m"
  using assms
  by (auto simp: fs_ops_write_inode_def split: if_splits sum.splits dest!: disk_write_block_frame)

lemma fs_write_storage:
  fixes s fd bytes sz now
  defines "h \<equiv> open_files (g_fs_state s) ! nat fd"
  defines "res \<equiv> fs_write s fd (Some bytes) sz now"
  assumes v: "file_ops_validate_fd (g_fs_state s) fd = Inr ()"
    and loaded: "magic_number (superblock (g_fs_state s)) = FS_MAGIC_NUMBER"
    and sz: "0 < sz"
    and rd: "read_inode_from_disk s (fh_inode_number h) = Inr inode"
    and reg: "file_type inode = FS_FILE_TYPE_REGULAR"
    and perm: "user_manager_check_permission (g_fs_state s) inode FS_PERM_OWNER_WRITE"
    and loop: "fs_write_loop s inode (unat (file_position h)) bytes (nat sz) 0 = (s1, inode1, bw)"
    and m: "m \<noteq> unat (inode_block_num (superblock (g_fs_state s)) (fh_inode_number h))"
  shows "storage (g_disk_state (snd res)) m = storage (g_disk_state s1) m"
proof -
  note fr = fs_write_loop_frame[OF loop]
  from fr have f1: "sys_frame s s1" by simp
  then have sb1: "superblock (g_fs_state s1) = superblock (g_fs_state s)" by (simp add: sys_frame_def)
  define new_size where "new_size = file_position h + of_nat bw"
  define inode3 where "inode3 = (if file_size inode1 < new_size
                 then inode1\<lparr>file_size := new_size,
                             block_count := ucast ((new_size + of_nat BLOCK_SIZE - 1)
                                                     div of_nat BLOCK_SIZE)\<rparr>
                 else inode1)\<lparr>modify_time := now, change_time := now\<rparr>"
  define s2 where "s2 = (case write_inode_to_disk s1 (fh_inode_number h) inode3 of
                                          Inl e \<Rightarrow> s1
                                        | Inr s' \<Rightarrow> s')"
  have st2: "storage (g_disk_state s2) m = storage (g_disk_state s1) m"
    using m sb1
    by (auto simp: s2_def write_inode_to_disk_def split: sum.splits
        dest!: fs_ops_write_inode_storage[where m = m])
  have res_pos: "0 < bw \<Longrightarrow> res =
      (Inr (int bw),
       s2\<lparr>g_fs_state := (g_fs_state s2)\<lparr>open_files := (open_files (g_fs_state s2))
             [nat fd := (open_files (g_fs_state s2) ! nat fd)
                 \<lparr>file_position := file_position (open_files (g_fs_state s2) ! nat fd) + of_nat bw\<rparr>]\<rparr>\<rparr>)"
    using v sz rd reg perm loop
    by (simp add: res_def fs_write_def load_if_needed_loaded[OF loaded] h_def[symmetric] Let_def
        new_size_def[symmetric] inode3_def[symmetric] s2_def[symmetric]
        del: of_nat_add)
  have res_zero: "bw = 0 \<Longrightarrow> res = (Inr (int bw), s1)"
    using v sz rd reg perm loop
    by (simp add: res_def fs_write_def load_if_needed_loaded[OF loaded] h_def[symmetric] Let_def)
  show ?thesis
  proof (cases "bw = 0")
    case True
    with res_zero show ?thesis by simp
  next
    case False
    then have "0 < bw" by simp
    from res_pos[OF this] st2 show ?thesis by simp
  qed
qed





lemma demo_table_0 [simp]: "demo_table pos ! 0 = demo_handle pos" "length (demo_table pos) = MAX_OPEN_FILES"
  by (simp_all add: demo_table_def MAX_OPEN_FILES_def)

lemma demo_validate_fd [simp]:
  "file_ops_validate_fd (g_fs_state (demo_sys file bbm (demo_table pos) user)) 0 = Inr ()"
  by (simp add: file_ops_validate_fd_def MAX_OPEN_FILES_def demo_handle_def)





lemma demo_user_may_write [simp]:
  "user_manager_check_permission (g_fs_state (demo_sys file bbm tbl demo_user)) (demo_file 420)
     FS_PERM_OWNER_WRITE"
  by (simp add: user_manager_check_permission_def find_user_by_uid_def demo_user_def
      user_manager_check_permission_detailed_def user_manager_is_root_def
      USER_MANAGER_ROOT_UID_def is_read_perm_def is_write_perm_def Let_def
      FS_PERM_OWNER_WRITE_def FS_PERM_OWNER_READ_def FS_PERM_GROUP_READ_def FS_PERM_OTHER_READ_def
      demo_file_def)

lemma demo_not_read_only [simp]:
  "\<not> is_read_only (g_disk_state (demo_sys file bbm tbl user))"
  by (simp add: demo_sys_def)

lemma length_demo_dir_block [simp]: "length demo_dir_block = BLOCK_SIZE"
  by (simp add: demo_dir_block_def root_dir_block_def write_entry_def DIRENT_SIZE_def
      filename_field_def c_str_def MAX_FILENAME_LEN_def BLOCK_SIZE_def)

lemma length_demo_inode_block [simp]: "inode_wf file \<Longrightarrow> length (demo_inode_block file) = BLOCK_SIZE"
  by (simp add: demo_inode_block_def BLOCK_SIZE_def INODE_SIZE_def)

lemma demo_disk_wf [simp]:
  "inode_wf file \<Longrightarrow> disk_wf (g_disk_state (demo_sys file bbm tbl user))"
  by (simp add: demo_sys_def disk_wf_def)

lemma one_free_alloc_scan:
  "alloc_scan one_free_bitmap [253, 255, 255, 255, 255, 15] 0 = Some 1"
  by code_simp

lemma demo_write_loop_partial:
  "\<exists>s1. fs_write_loop (demo_sys (demo_file 420) one_free_bitmap (demo_table 0) demo_user)
          (demo_file 420) 0 (replicate 2000 7) 2000 0
     = (s1, (demo_file 420)\<lparr>direct_blocks := (direct_blocks (demo_file 420))[0 := 157]\<rparr>, 1024)"
  apply (subst fs_write_loop.simps)
  apply (simp add: fs_write_body_def block_index_of_def block_offset_of_def BLOCK_SIZE_def
      file_ops_get_data_block_def DIRECT_BLOCKS_def file_ops_allocate_data_block_def
      alloc_data_block_from_bitmap_def Let_def)
  apply (simp add: demo_file_def zero_inode_def DIRECT_BLOCKS_def one_free_bitmap_def
      one_free_alloc_scan[unfolded one_free_bitmap_def])
  apply (simp add: demo_sys_def disk_read_block_def disk_write_block_def disk_check_block_bounds_def
       Let_def BLOCK_SIZE_def)
  apply (subst fs_write_loop.simps)
  apply (simp add: fs_write_body_def block_index_of_def block_offset_of_def BLOCK_SIZE_def
      file_ops_get_data_block_def DIRECT_BLOCKS_def file_ops_allocate_data_block_def
      alloc_data_block_from_bitmap_def Let_def)
  done

lemma demo_blocks_owned:
  "blocks_owned (g_fs_state (demo_sys (demo_file 420) one_free_bitmap tbl user)) (demo_file 420)"
  by (simp add: blocks_owned_def one_free_bitmap_def demo_file_def zero_inode_def DIRECT_BLOCKS_def)








text \<open>
  With the bitmap exhausted on entry, the count is the number of bytes before the first
  unmapped block.
\<close>

lemma fs_write_exhausted_on_entry:
  assumes v: "file_ops_validate_fd (g_fs_state s) fd = Inr ()"
    and loaded: "magic_number (superblock (g_fs_state s)) = FS_MAGIC_NUMBER"
    and tbl: "length (open_files (g_fs_state s)) = MAX_OPEN_FILES"
    and rd: "read_inode_from_disk s (fh_inode_number (open_files (g_fs_state s) ! nat fd)) = Inr inode"
    and reg: "file_type inode = FS_FILE_TYPE_REGULAR"
    and perm: "user_manager_check_permission (g_fs_state s) inode FS_PERM_OWNER_WRITE"
    and ro: "\<not> is_read_only (g_disk_state s)"
    and ex: "free_count (block_bitmap (g_fs_state s)) = 0"
    and nowrap: "unat (file_position (open_files (g_fs_state s) ! nat fd)) + nat sz < 2 ^ 64"
    and mapped: "\<forall>j < k.
        file_ops_get_data_block inode
          (block_index_of (unat (file_position (open_files (g_fs_state s) ! nat fd)) + j)) \<noteq> 0
      \<and> disk_check_block_bounds (g_disk_state s)
            (file_ops_get_data_block inode
               (block_index_of (unat (file_position (open_files (g_fs_state s) ! nat fd)) + j)))"
    and unm: "file_ops_get_data_block inode
          (block_index_of (unat (file_position (open_files (g_fs_state s) ! nat fd)) + k)) = 0"
    and lt: "k < nat sz"
  shows "fst (fs_write s fd (Some bytes) sz now) = Inr (int k)
       \<and> file_position (open_files (g_fs_state (snd (fs_write s fd (Some bytes) sz now))) ! nat fd)
           = file_position (open_files (g_fs_state s) ! nat fd) + of_nat k"
proof -
  define st where "st = unat (file_position (open_files (g_fs_state s) ! nat fd))"
  have align: "0 = k \<or> (st + k) mod BLOCK_SIZE = 0"
  proof (rule ccontr)
    assume a: "\<not> (0 = k \<or> (st + k) mod BLOCK_SIZE = 0)"
    then have k: "0 < k" and m: "(st + k) mod BLOCK_SIZE \<noteq> 0" by auto
    from block_index_pred[OF m] k have "block_index_of (st + (k - 1)) = block_index_of (st + k)"
      by simp
    moreover from k have "k - 1 < k" by simp
    with mapped
    have "file_ops_get_data_block inode (block_index_of (st + (k - 1))) \<noteq> 0"
      unfolding st_def by blast
    ultimately show False using unm by (simp add: st_def)
  qed
  from lt have sz: "0 < sz" by simp
  from mapped have mapped': "\<forall>j. 0 \<le> j \<and> j < k \<longrightarrow>
        file_ops_get_data_block inode (block_index_of (st + j)) \<noteq> 0
      \<and> disk_check_block_bounds (g_disk_state s)
            (file_ops_get_data_block inode (block_index_of (st + j)))"
    by (simp add: st_def)
  from fs_write_loop_exhausted[OF ex nowrap[folded st_def] ro mapped' unm[folded st_def] _ lt align,
      of bytes]
  obtain s1 where loop: "fs_write_loop s inode st bytes (nat sz) 0 = (s1, inode, k)" by auto
  note R = fs_write_result[OF v loaded sz rd reg perm loop[unfolded st_def] tbl, of now]
  from R(1) R(2) show ?thesis by simp
qed

text \<open>
  C6. On a loaded file system, for a valid handle on a regular file that the current user
  may write and that owns its blocks (the disk writable, the range of the write below
  4 TiB so that the block index is not cut to 32 bits, the inode table before the data
  region): fs\_write returns a count k of at most the requested size, never an error code,
  and the cursor of the handle advances by exactly k. The k bytes are on disk: byte j of
  the data is in the block that the inode, as the loop leaves it, maps for the offset of
  that byte, at the offset within the block; when k is positive this inode is the one
  written back, and the blocks the file had before are kept. When k is below the requested
  size, the loop stopped at the block of the next byte: the inode has no block for it, as
  allocating one failed (the bitmap has no block left, or the index is beyond the direct
  blocks), or its block lies outside the disk.
\<close>

theorem fs_write_partial_count:
  assumes h: "h = open_files (g_fs_state s) ! nat fd"
    and st: "st = unat (file_position h)"
    and res: "res = fs_write s fd (Some bytes) sz now"
    and v: "file_ops_validate_fd (g_fs_state s) fd = Inr ()"
    and loaded: "magic_number (superblock (g_fs_state s)) = FS_MAGIC_NUMBER"
    and tbl: "length (open_files (g_fs_state s)) = MAX_OPEN_FILES"
    and rd: "read_inode_from_disk s (fh_inode_number h) = Inr inode"
    and reg: "file_type inode = FS_FILE_TYPE_REGULAR"
    and perm: "user_manager_check_permission (g_fs_state s) inode FS_PERM_OWNER_WRITE"
    and ro: "\<not> is_read_only (g_disk_state s)"
    and wf: "disk_wf (g_disk_state s)"
    and sz: "0 < sz" and len: "nat sz \<le> length bytes"
    and rng: "st + nat sz \<le> 2 ^ 42"
    and own: "blocks_owned (g_fs_state s) inode"
    and lay: "inode_block_num (superblock (g_fs_state s)) (fh_inode_number h)
                < data_blocks_start (superblock (g_fs_state s))"
  shows "\<exists>k inode1.
      fst res = Inr (int k) \<and> k \<le> nat sz
    \<and> file_position (open_files (g_fs_state (snd res)) ! nat fd) = file_position h + of_nat k
    \<and> (0 < k \<longrightarrow>
         map_sum id direct_blocks (read_inode_from_disk (snd res) (fh_inode_number h))
           = Inr (direct_blocks inode1))
    \<and> (\<forall>i<DIRECT_BLOCKS. direct_blocks inode ! i \<noteq> 0 \<longrightarrow>
           direct_blocks inode1 ! i = direct_blocks inode ! i)
    \<and> (\<forall>j<k. file_ops_get_data_block inode1 (block_index_of (st + j)) \<noteq> 0
            \<and> storage (g_disk_state (snd res))
                  (unat (file_ops_get_data_block inode1 (block_index_of (st + j))))
                ! block_offset_of (st + j) = bytes ! j)
    \<and> (k < nat sz \<longrightarrow>
          file_ops_get_data_block inode1 (block_index_of (st + k)) = 0
        \<or> \<not> disk_check_block_bounds (g_disk_state s)
              (file_ops_get_data_block inode1 (block_index_of (st + k))))"
proof -
  obtain s1 inode1 k where loop:
    "fs_write_loop s inode (unat (file_position (open_files (g_fs_state s) ! nat fd))) bytes (nat sz) 0
       = (s1, inode1, k)"
    by (metis prod_cases3)
  note loop' = loop[folded h, folded st]
  note R = fs_write_result[OF v loaded sz rd[unfolded h] reg perm loop tbl, of now, folded res h]
  note L = fs_write_loop_owned[OF loop' own ro wf len rng]
  from fs_write_loop_frame[OF loop'] have kle: "k \<le> nat sz" and fr: "sys_frame s s1" by simp_all
  from L have own1: "blocks_owned (g_fs_state s1) inode1"
    and keep: "\<forall>i<DIRECT_BLOCKS. direct_blocks inode ! i \<noteq> 0 \<longrightarrow>
           direct_blocks inode1 ! i = direct_blocks inode ! i"
    and pin: "\<forall>j. 0 \<le> j \<and> j < k \<longrightarrow>
           file_ops_get_data_block inode1 (block_index_of (st + j)) \<noteq> 0
         \<and> storage (g_disk_state s1)
               (unat (file_ops_get_data_block inode1 (block_index_of (st + j))))
             ! block_offset_of (st + j) = bytes ! j"
    and stop: "k < nat sz \<longrightarrow>
           file_ops_get_data_block inode1 (block_index_of (st + k)) = 0
         \<or> \<not> disk_check_block_bounds (g_disk_state s)
               (file_ops_get_data_block inode1 (block_index_of (st + k)))"
    by simp_all
  have sb1: "superblock (g_fs_state s1) = superblock (g_fs_state s)"
    using fr by (simp add: sys_frame_def)
  have above: "unat b \<noteq> unat (inode_block_num (superblock (g_fs_state s)) (fh_inode_number h))"
    if "file_ops_get_data_block inode1 idx = b" "b \<noteq> 0" for b idx
  proof -
    from that have i: "idx < DIRECT_BLOCKS" "direct_blocks inode1 ! idx = b"
      by (auto simp: file_ops_get_data_block_def split: if_splits)
    with own1 that(2) have "data_blocks_start (superblock (g_fs_state s1)) \<le> b"
      by (auto simp: blocks_owned_def)
    with lay sb1 have "inode_block_num (superblock (g_fs_state s)) (fh_inode_number h) < b"
      by simp
    then show ?thesis by (simp add: word_less_nat_alt)
  qed
  have pin': "\<forall>j<k. file_ops_get_data_block inode1 (block_index_of (st + j)) \<noteq> 0
            \<and> storage (g_disk_state (snd res))
                  (unat (file_ops_get_data_block inode1 (block_index_of (st + j))))
                ! block_offset_of (st + j) = bytes ! j"
  proof (intro allI impI)
    fix j assume j: "j < k"
    with pin have nz: "file_ops_get_data_block inode1 (block_index_of (st + j)) \<noteq> 0"
      and c: "storage (g_disk_state s1)
               (unat (file_ops_get_data_block inode1 (block_index_of (st + j))))
             ! block_offset_of (st + j) = bytes ! j" by simp_all
    have "storage (g_disk_state (snd res))
             (unat (file_ops_get_data_block inode1 (block_index_of (st + j))))
          = storage (g_disk_state s1)
             (unat (file_ops_get_data_block inode1 (block_index_of (st + j))))"
      unfolding res
      by (rule fs_write_storage[OF v loaded sz rd[unfolded h] reg perm loop
            above[OF refl nz, unfolded h]])
    with nz c show "file_ops_get_data_block inode1 (block_index_of (st + j)) \<noteq> 0
            \<and> storage (g_disk_state (snd res))
                  (unat (file_ops_get_data_block inode1 (block_index_of (st + j))))
                ! block_offset_of (st + j) = bytes ! j" by simp
  qed
  have pers: "0 < k \<longrightarrow>
         map_sum id direct_blocks (read_inode_from_disk (snd res) (fh_inode_number h))
           = Inr (direct_blocks inode1)"
  proof
    assume "0 < k"
    from R(3)[OF this wf ro len] show "map_sum id direct_blocks
        (read_inode_from_disk (snd res) (fh_inode_number h)) = Inr (direct_blocks inode1)"
      by simp
  qed
  show ?thesis
    apply (rule exI[of _ k], rule exI[of _ inode1])
    apply (intro conjI)
          apply (rule R(1))
         apply (rule kle)
        apply (rule R(2))
       apply (rule pers)
      apply (rule keep)
     apply (rule pin')
    apply (rule stop)
    done
qed

theorem fs_write_partial_count_witness:
  "fst (fs_write (demo_sys (demo_file 420) one_free_bitmap (demo_table 0) demo_user) 0
          (Some (replicate 2000 7)) 2000 5) = Inr 1024
 \<and> file_position (open_files (g_fs_state (snd (fs_write
          (demo_sys (demo_file 420) one_free_bitmap (demo_table 0) demo_user) 0
          (Some (replicate 2000 7)) 2000 5))) ! 0) = 1024
 \<and> (\<exists>inode1.
        map_sum id direct_blocks (read_inode_from_disk (snd (fs_write
          (demo_sys (demo_file 420) one_free_bitmap (demo_table 0) demo_user) 0
          (Some (replicate 2000 7)) 2000 5)) 2) = Inr (direct_blocks inode1)
      \<and> (\<forall>j<1024. file_ops_get_data_block inode1 (block_index_of j) \<noteq> 0
            \<and> storage (g_disk_state (snd (fs_write
                  (demo_sys (demo_file 420) one_free_bitmap (demo_table 0) demo_user) 0
                  (Some (replicate 2000 7)) 2000 5)))
                  (unat (file_ops_get_data_block inode1 (block_index_of j)))
                ! block_offset_of j = 7)
      \<and> file_ops_get_data_block inode1 (block_index_of 1024) = 0)"
proof -
  define s where "s = demo_sys (demo_file 420) one_free_bitmap (demo_table 0) demo_user"
  define res where "res = fs_write s 0 (Some (replicate 2000 7)) 2000 5"
  have fp: "file_position (open_files (g_fs_state s) ! nat 0) = 0"
    and fn: "fh_inode_number (open_files (g_fs_state s) ! nat 0) = 2"
    by (simp_all add: s_def demo_handle_def)
  have rd: "read_inode_from_disk s (fh_inode_number (open_files (g_fs_state s) ! nat 0))
              = Inr (demo_file 420)"
    by (simp add: s_def read_inode_from_disk_def demo_handle_def demo_read_file)
  have v: "file_ops_validate_fd (g_fs_state s) 0 = Inr ()"
    "magic_number (superblock (g_fs_state s)) = FS_MAGIC_NUMBER"
    "length (open_files (g_fs_state s)) = MAX_OPEN_FILES"
    "file_type (demo_file 420) = FS_FILE_TYPE_REGULAR"
    "user_manager_check_permission (g_fs_state s) (demo_file 420) FS_PERM_OWNER_WRITE"
    "\<not> is_read_only (g_disk_state s)" "disk_wf (g_disk_state s)"
    "(0::int) < 2000" "nat 2000 \<le> length (replicate 2000 (7::u8))"
    by (simp_all add: s_def) (simp add: demo_file_def)
  have rng: "unat (file_position (open_files (g_fs_state s) ! nat 0)) + nat 2000 \<le> 2 ^ 42"
    unfolding fp by simp
  have own: "blocks_owned (g_fs_state s) (demo_file 420)"
    unfolding s_def by (rule demo_blocks_owned)
  have lay: "inode_block_num (superblock (g_fs_state s))
               (fh_inode_number (open_files (g_fs_state s) ! nat 0))
                < data_blocks_start (superblock (g_fs_state s))"
    unfolding fn by (simp add: s_def word_less_nat_alt)
  obtain s1 where loop: "fs_write_loop s (demo_file 420)
         (unat (file_position (open_files (g_fs_state s) ! nat 0))) (replicate 2000 7) (nat 2000) 0
     = (s1, (demo_file 420)\<lparr>direct_blocks := (direct_blocks (demo_file 420))[0 := 157]\<rparr>, 1024)"
    using demo_write_loop_partial by (auto simp: s_def demo_handle_def)
  from fs_write_result(1)[OF v(1,2,8) rd v(4,5) loop v(3), of 5]
  have f: "fst res = Inr 1024" by (simp add: res_def)
  note T = fs_write_partial_count[OF refl refl res_def v(1,2,3) rd v(4,5,6,7,8,9) rng own lay]
  from T show ?thesis
  proof (elim exE conjE, goal_cases)
    case (1 k inode1)
    note k = 1(1) and c = 1(3) and p = 1(4) and pin = 1(6)
  from k f have k1024: "k = 1024" by simp
  have pin2: "\<forall>j<1024. file_ops_get_data_block inode1 (block_index_of j) \<noteq> 0
            \<and> storage (g_disk_state (snd res))
                  (unat (file_ops_get_data_block inode1 (block_index_of j)))
                ! block_offset_of j = 7"
    using pin unfolding k1024 fp by simp
  have p2: "map_sum id direct_blocks (read_inode_from_disk (snd res) 2) = Inr (direct_blocks inode1)"
    using p unfolding k1024 fn by simp
  have bi: "block_index_of 1024 = 1" by (simp add: block_index_of_def BLOCK_SIZE_def)
  have i12: "direct_blocks inode1 ! 1 = 0"
  proof -
    have "map_sum id direct_blocks (read_inode_from_disk (snd res) 2)
                 = Inr ((direct_blocks (demo_file 420))[0 := 157])"
      using fs_write_result(3)[OF v(1,2,8) rd v(4,5) loop v(3) _ v(7,6,9), of 5, unfolded fn fp]
      by (simp add: res_def split: if_splits)
    with p2 have "direct_blocks inode1 = (direct_blocks (demo_file 420))[0 := 157]" by simp
    then show ?thesis by (simp add: demo_file_def zero_inode_def DIRECT_BLOCKS_def)
  qed
  have un: "file_ops_get_data_block inode1 (block_index_of 1024) = 0"
    unfolding bi using i12 by (simp add: file_ops_get_data_block_def DIRECT_BLOCKS_def)
  have c2: "file_position (open_files (g_fs_state (snd res)) ! 0) = 1024"
    using c unfolding k1024 fp by simp
  from f c2 p2 pin2 un show ?thesis unfolding res_def s_def by blast
  qed
qed


lemma inode_wf_demo_file_hole [simp]: "inode_wf demo_file_hole"
  by (simp add: demo_file_hole_def inode_wf_def demo_file_def zero_inode_def)

lemma inode_wf_demo_file_gap [simp]: "inode_wf demo_file_gap"
  by (simp add: demo_file_gap_def inode_wf_def demo_file_def zero_inode_def)

lemma demo_user_may_read:
  assumes "owner_uid file = 1000" and "permissions file = 420"
  shows "user_manager_check_permission (g_fs_state (demo_sys file bbm tbl demo_user)) file
     FS_PERM_OWNER_READ"
  using assms
  by (simp add: user_manager_check_permission_def find_user_by_uid_def demo_user_def
      user_manager_check_permission_detailed_def user_manager_is_root_def
      USER_MANAGER_ROOT_UID_def is_read_perm_def Let_def FS_PERM_OWNER_READ_def)


lemma fs_read_loop_short:
  assumes mapped: "\<forall>j. br \<le> j \<and> j < k \<longrightarrow>
        file_ops_get_data_block inode (block_index_of (st + j)) \<noteq> 0
      \<and> disk_check_block_bounds d (file_ops_get_data_block inode (block_index_of (st + j)))"
    and unm: "file_ops_get_data_block inode (block_index_of (st + k)) = 0"
    and le: "br \<le> k" and lt: "k < sz"
    and align: "br = k \<or> (st + k) mod BLOCK_SIZE = 0"
  shows "\<exists>buf'. fs_read_loop d inode st sz buf br = (buf', k)"
  using mapped le align
proof (induction "k - br" arbitrary: br buf rule: less_induct)
  case less
  have guard: "st + br < st + sz" using less.prems(2) lt by simp
  show ?case
  proof (cases "br = k")
    case True
    have "fs_read_body d inode st sz buf br = Inl (buf, br)"
      using unm True by (simp add: fs_read_body_def Let_def)
    with guard True show ?thesis by (subst fs_read_loop.simps) simp
  next
    case False
    with less.prems have brk: "br < k" and al: "(st + k) mod BLOCK_SIZE = 0" by auto
    define bn where "bn = file_ops_get_data_block inode (block_index_of (st + br))"
    from less.prems(1) brk have bn0: "bn \<noteq> 0" and bnd: "disk_check_block_bounds d bn"
      by (auto simp: bn_def)
    define n where "n = min (BLOCK_SIZE - block_offset_of (st + br)) (sz - br)"
    from chunk_within[OF al brk] lt have n: "n = BLOCK_SIZE - block_offset_of (st + br)" "br + n \<le> k"
      by (auto simp: n_def)
    have bo: "block_offset_of (st + br) < BLOCK_SIZE"
      by (simp add: block_offset_of_def BLOCK_SIZE_def)
    with n have npos: "0 < n" by simp
    have init: "is_initialized d" using bnd by (simp add: disk_check_block_bounds_def)
    have body: "fs_read_body d inode st sz buf br =
        Inr (buf @ slice (storage d (unat bn)) (block_offset_of (st + br)) n, br + n)"
      using bn0 bnd init
      by (simp add: fs_read_body_def Let_def bn_def[symmetric] disk_read_block_def n_def[symmetric])
    have "\<exists>buf'. fs_read_loop d inode st sz
             (buf @ slice (storage d (unat bn)) (block_offset_of (st + br)) n) (br + n) = (buf', k)"
    proof (rule less.hyps)
      show "k - (br + n) < k - br" using npos brk by simp
      show "\<forall>j. br + n \<le> j \<and> j < k \<longrightarrow>
        file_ops_get_data_block inode (block_index_of (st + j)) \<noteq> 0
      \<and> disk_check_block_bounds d (file_ops_get_data_block inode (block_index_of (st + j)))"
        using less.prems(1) by simp
      show "br + n \<le> k" by (rule n(2))
      show "br + n = k \<or> (st + k) mod BLOCK_SIZE = 0" using al by simp
    qed
    with guard body show ?thesis by (subst fs_read_loop.simps) simp
  qed
qed

text \<open>
  C1 (as amended). On a loaded file system, for a valid handle on a regular file the
  current user may read: when the cursor is at or past file\_size, fs\_read returns 0 and
  changes nothing. When the cursor is below file\_size and, inside the clamped range, the
  first k bytes fall into mapped blocks and the byte after them into a block index whose
  pointer is zero, fs\_read stops there and returns the count k of bytes read so far (0 when
  the first block is unmapped), not an error, and the cursor advances by k.
\<close>

theorem fs_read_eof_and_short_read:
  assumes v: "file_ops_validate_fd (g_fs_state s) fd = Inr ()"
    and loaded: "magic_number (superblock (g_fs_state s)) = FS_MAGIC_NUMBER"
    and tbl: "length (open_files (g_fs_state s)) = MAX_OPEN_FILES"
    and rd: "read_inode_from_disk s (fh_inode_number (open_files (g_fs_state s) ! nat fd)) = Inr inode"
    and reg: "file_type inode = FS_FILE_TYPE_REGULAR"
    and perm: "user_manager_check_permission (g_fs_state s) inode FS_PERM_OWNER_READ"
    and sz: "0 < sz"
  shows "(file_size inode \<le> file_position (open_files (g_fs_state s) ! nat fd) \<longrightarrow>
            fs_read s fd True sz now = (Inr 0, [], s))
       \<and> (file_position (open_files (g_fs_state s) ! nat fd) < file_size inode
          \<and> (\<forall>j < k.
                file_ops_get_data_block inode
                  (block_index_of (unat (file_position (open_files (g_fs_state s) ! nat fd)) + j)) \<noteq> 0
              \<and> disk_check_block_bounds (g_disk_state s)
                   (file_ops_get_data_block inode
                      (block_index_of (unat (file_position (open_files (g_fs_state s) ! nat fd)) + j))))
          \<and> file_ops_get_data_block inode
                (block_index_of (unat (file_position (open_files (g_fs_state s) ! nat fd)) + k)) = 0
          \<and> k < nat sz
          \<and> k < unat (file_size inode - file_position (open_files (g_fs_state s) ! nat fd))
          \<longrightarrow>
            fst (fs_read s fd True sz now) = Inr (int k)
          \<and> file_position (open_files (g_fs_state (snd (snd (fs_read s fd True sz now)))) ! nat fd)
              = file_position (open_files (g_fs_state s) ! nat fd) + of_nat k)"
proof (rule conjI; rule impI)
  assume "file_size inode \<le> file_position (open_files (g_fs_state s) ! nat fd)"
  then show "fs_read s fd True sz now = (Inr 0, [], s)"
    using v rd reg perm sz
    by (simp add: fs_read_def load_if_needed_loaded[OF loaded] Let_def)
next
  define h where "h = open_files (g_fs_state s) ! nat fd"
  define st where "st = unat (file_position h)"
  assume a: "file_position (open_files (g_fs_state s) ! nat fd) < file_size inode
          \<and> (\<forall>j < k.
                file_ops_get_data_block inode
                  (block_index_of (unat (file_position (open_files (g_fs_state s) ! nat fd)) + j)) \<noteq> 0
              \<and> disk_check_block_bounds (g_disk_state s)
                   (file_ops_get_data_block inode
                      (block_index_of (unat (file_position (open_files (g_fs_state s) ! nat fd)) + j))))
          \<and> file_ops_get_data_block inode
                (block_index_of (unat (file_position (open_files (g_fs_state s) ! nat fd)) + k)) = 0
          \<and> k < nat sz
          \<and> k < unat (file_size inode - file_position (open_files (g_fs_state s) ! nat fd))"
  then have notEOF: "\<not> file_size inode \<le> file_position h"
    and mapped: "\<forall>j < k. file_ops_get_data_block inode (block_index_of (st + j)) \<noteq> 0
              \<and> disk_check_block_bounds (g_disk_state s)
                   (file_ops_get_data_block inode (block_index_of (st + j)))"
    and unm: "file_ops_get_data_block inode (block_index_of (st + k)) = 0"
    and k1: "k < nat sz" and k2: "k < unat (file_size inode - file_position h)"
    by (auto simp: h_def st_def)
  define sz1 where "sz1 = (if unat (file_size inode - file_position h) < nat sz
                           then unat (file_size inode - file_position h) else nat sz)"
  have ksz: "k < sz1" using k1 k2 by (simp add: sz1_def)
  have align: "0 = k \<or> (st + k) mod BLOCK_SIZE = 0"
  proof (rule ccontr)
    assume "\<not> (0 = k \<or> (st + k) mod BLOCK_SIZE = 0)"
    then have k: "0 < k" and m: "(st + k) mod BLOCK_SIZE \<noteq> 0" by auto
    from block_index_pred[OF m] k have "block_index_of (st + (k - 1)) = block_index_of (st + k)"
      by simp
    moreover from k have "k - 1 < k" by simp
    with mapped have "file_ops_get_data_block inode (block_index_of (st + (k - 1))) \<noteq> 0"
      by blast
    ultimately show False using unm by simp
  qed
  from mapped have mapped': "\<forall>j. 0 \<le> j \<and> j < k \<longrightarrow>
        file_ops_get_data_block inode (block_index_of (st + j)) \<noteq> 0
      \<and> disk_check_block_bounds (g_disk_state s)
            (file_ops_get_data_block inode (block_index_of (st + j)))"
    by simp
  from fs_read_loop_short[OF mapped' unm _ ksz align, of "[]"]
  obtain buf' where loop: "fs_read_loop (g_disk_state s) inode st sz1 [] 0 = (buf', k)" by auto
  from validate_fd_ok[OF v] tbl have fdok: "nat fd < length (open_files (g_fs_state s))" by simp
  show "fst (fs_read s fd True sz now) = Inr (int k)
          \<and> file_position (open_files (g_fs_state (snd (snd (fs_read s fd True sz now)))) ! nat fd)
              = file_position (open_files (g_fs_state s) ! nat fd) + of_nat k"
  proof (cases "k = 0")
    case True
    with v rd reg perm sz notEOF loop show ?thesis
      by (simp add: fs_read_def load_if_needed_loaded[OF loaded] Let_def h_def[symmetric]
          st_def[symmetric] sz1_def[symmetric])
  next
    case False
    then have kpos: "0 < k" by simp
    have "fst (fs_read s fd True sz now) = Inr (int k)
        \<and> open_files (g_fs_state (snd (snd (fs_read s fd True sz now)))) =
            (open_files (g_fs_state s))[nat fd := h\<lparr>file_position := file_position h + of_nat k\<rparr>]"
      using v rd reg perm sz notEOF loop kpos
      by (auto simp: fs_read_def load_if_needed_loaded[OF loaded] Let_def h_def[symmetric]
          st_def[symmetric] sz1_def[symmetric] write_inode_to_disk_def
          split: sum.splits dest!: g_fs_state_write_inode)
    then show ?thesis using fdok by (simp add: h_def)
  qed
qed

theorem fs_read_eof_and_short_read_witness:
  "fst (fs_read (demo_sys demo_file_gap demo_bitmap (demo_table 0) demo_user) 0 True 2000 5)
     = Inr 1024
 \<and> file_position (open_files (g_fs_state (snd (snd (fs_read
         (demo_sys demo_file_gap demo_bitmap (demo_table 0) demo_user) 0 True 2000 5)))) ! 0) = 1024"
proof -
  define s where "s = demo_sys demo_file_gap demo_bitmap (demo_table 0) demo_user"
  have fp: "file_position (open_files (g_fs_state s) ! nat 0) = 0"
    by (simp add: s_def demo_handle_def)
  have h: "file_ops_validate_fd (g_fs_state s) 0 = Inr ()"
    "magic_number (superblock (g_fs_state s)) = FS_MAGIC_NUMBER"
    "length (open_files (g_fs_state s)) = MAX_OPEN_FILES"
    "read_inode_from_disk s (fh_inode_number (open_files (g_fs_state s) ! nat 0)) = Inr demo_file_gap"
    by (simp_all add: s_def read_inode_from_disk_def demo_handle_def demo_read_file)
  have reg: "file_type demo_file_gap = FS_FILE_TYPE_REGULAR"
    by (simp add: demo_file_gap_def demo_file_def)
  have perm: "user_manager_check_permission (g_fs_state s) demo_file_gap FS_PERM_OWNER_READ"
    unfolding s_def by (rule demo_user_may_read) (simp_all add: demo_file_gap_def demo_file_def)
  have idx: "\<And>j. j < 1024 \<Longrightarrow> block_index_of j = 0" "block_index_of 1024 = 1"
    by (simp_all add: block_index_of_def BLOCK_SIZE_def)
  have db: "file_ops_get_data_block demo_file_gap 0 = 157"
    "file_ops_get_data_block demo_file_gap 1 = 0"
    by (simp_all add: file_ops_get_data_block_def demo_file_gap_def demo_file_def
        zero_inode_def DIRECT_BLOCKS_def)
  have bnd: "disk_check_block_bounds (g_disk_state s) 157"
    by (simp add: s_def demo_sys_def disk_check_block_bounds_def)
  have c: "file_position (open_files (g_fs_state s) ! nat 0) < file_size demo_file_gap
          \<and> (\<forall>j < 1024.
                file_ops_get_data_block demo_file_gap
                  (block_index_of (unat (file_position (open_files (g_fs_state s) ! nat 0)) + j)) \<noteq> 0
              \<and> disk_check_block_bounds (g_disk_state s)
                   (file_ops_get_data_block demo_file_gap
                      (block_index_of (unat (file_position (open_files (g_fs_state s) ! nat 0)) + j))))
          \<and> file_ops_get_data_block demo_file_gap
                (block_index_of (unat (file_position (open_files (g_fs_state s) ! nat 0)) + 1024)) = 0
          \<and> 1024 < nat 2000
          \<and> 1024 < unat (file_size demo_file_gap - file_position (open_files (g_fs_state s) ! nat 0))"
    using idx db bnd fp by (simp add: demo_file_gap_def)
  have sz: "(0::int) < 2000" by simp
  from fs_read_eof_and_short_read[OF h reg perm sz, where now = 5 and k = 1024] c
  have "fst (fs_read s 0 True 2000 5) = Inr (int 1024)
          \<and> file_position (open_files (g_fs_state (snd (snd (fs_read s 0 True 2000 5)))) ! nat 0)
              = file_position (open_files (g_fs_state s) ! nat 0) + of_nat 1024"
    by blast
  then show ?thesis using fp by (simp add: s_def)
qed

text \<open>
  C1, counterexample. The file has 2058 bytes and no block at index 0; reading 100 bytes
  from position 0 returns the count 0 and no error.
\<close>

theorem fs_read_hole_counterexample:
  "file_ops_get_data_block demo_file_hole (block_index_of 0) = 0
 \<and> fst (fs_read (demo_sys demo_file_hole demo_bitmap (demo_table 0) demo_user) 0 True 100 5)
     = Inr 0"
proof -
  have g: "file_ops_get_data_block demo_file_hole (block_index_of 0) = 0"
    by (simp add: file_ops_get_data_block_def block_index_of_def demo_file_hole_def demo_file_def
        zero_inode_def DIRECT_BLOCKS_def)
  have loop: "\<And>d n. 0 < n \<Longrightarrow> fs_read_loop d demo_file_hole 0 n [] 0 = ([], 0)"
    using g by (subst fs_read_loop.simps) (simp add: fs_read_body_def Let_def)
  have p: "user_manager_check_permission
       (g_fs_state (demo_sys demo_file_hole demo_bitmap (demo_table 0) demo_user)) demo_file_hole
       FS_PERM_OWNER_READ"
    by (rule demo_user_may_read) (simp_all add: demo_file_hole_def demo_file_def)
  have "fst (fs_read (demo_sys demo_file_hole demo_bitmap (demo_table 0) demo_user) 0 True 100 5)
     = Inr 0"
    using p
    by (simp add: fs_read_def load_if_needed_loaded read_inode_from_disk_def demo_handle_def
        demo_read_file Let_def loop)
       (simp add: demo_file_hole_def demo_file_def FS_FILE_TYPE_REGULAR_def)
  with g show ?thesis by simp
qed



subsection \<open>Bitmap persistence\<close>

lemma sint_nonneg: "unat (x::u32) < 2 ^ 31 \<Longrightarrow> 0 \<le> sint x"
proof -
  assume a: "unat x < 2 ^ 31"
  then have "unat x < 2147483648" by simp
  then have "int (unat x) < 2147483648" by linarith
  then have u: "uint x < 2 ^ 31" by simp
  have z: "0 \<le> uint x" by simp
  have "- (2 ^ 31) \<le> uint x" by (rule order_trans[OF _ z]) simp
  then have "signed_take_bit 31 (uint x) = uint x"
    using u by (rule signed_take_bit_int_eq_self)
  then have "sint x = uint x"
    by (simp add: sint_uint)
  then show ?thesis by simp
qed

lemma unat_start_plus:
  assumes "unat (start :: u32) + j < 2 ^ 32"
  shows "unat (start + of_nat j) = unat start + j"
  using assms by (simp add: unat_word_ariths unat_of_nat)

lemma bounds_in_range:
  assumes "is_initialized d" and "unat (start :: u32) + j < unat (total_blocks d)"
    and "unat (total_blocks d) < 2 ^ 31"
  shows "disk_check_block_bounds d (start + of_nat j)"
proof -
  have lt: "unat start + j < 2 ^ 32" using assms(2,3) by simp
  have u: "unat (start + of_nat j) = unat start + j" by (rule unat_start_plus[OF lt])
  have "unat (start + of_nat j) < 2 ^ 31" using u assms(2,3) by simp
  then have "0 \<le> sint (start + of_nat j)" by (rule sint_nonneg)
  with u assms show ?thesis by (simp add: disk_check_block_bounds_def)
qed

lemma write_bitmap_loop_ok:
  assumes "is_initialized d" "\<not> is_read_only d"
    and "unat start + nb \<le> unat (total_blocks d)" "unat (total_blocks d) < 2 ^ 31"
    and "bw = min (blk * BLOCK_SIZE) n"
  shows "write_bitmap_loop d bytes n start nb blk bw =
         (Inr (), d\<lparr>storage := \<lambda>m.
            if \<exists>j. blk \<le> j \<and> j < nb \<and> j * BLOCK_SIZE < n \<and> m = unat start + j
            then memcpy_at (replicate BLOCK_SIZE 0) 0
                   (slice bytes ((m - unat start) * BLOCK_SIZE)
                      (min (n - (m - unat start) * BLOCK_SIZE) BLOCK_SIZE))
            else storage d m\<rparr>)"
  using assms
proof (induction "nb - blk" arbitrary: d blk bw)
  case 0
  then have stop: "\<not> (blk < nb \<and> bw < n)" by simp
  have feq0: "(\<lambda>m.
            if \<exists>j. blk \<le> j \<and> j < nb \<and> j * BLOCK_SIZE < n \<and> m = unat start + j
            then memcpy_at (replicate BLOCK_SIZE 0) 0
                   (slice bytes ((m - unat start) * BLOCK_SIZE)
                      (min (n - (m - unat start) * BLOCK_SIZE) BLOCK_SIZE))
            else storage d m) = storage d"
    using 0 by (auto simp: fun_eq_iff)
  have "write_bitmap_loop d bytes n start nb blk bw = (Inr (), d)"
    by (subst write_bitmap_loop.simps) (simp only: if_not_P[OF stop])
  then show ?case unfolding feq0 by simp
next
  case (Suc k)
  show ?case
  proof (cases "bw < n")
    case False
    then have ge: "n \<le> blk * BLOCK_SIZE" using Suc.prems(5) by (simp add: min_def split: if_splits)
    have "\<And>j. blk \<le> j \<Longrightarrow> \<not> j * BLOCK_SIZE < n"
    proof -
      fix j assume "blk \<le> j"
      then have "blk * BLOCK_SIZE \<le> j * BLOCK_SIZE" by simp
      with ge show "\<not> j * BLOCK_SIZE < n" by linarith
    qed
    then have feq0: "(\<lambda>m.
            if \<exists>j. blk \<le> j \<and> j < nb \<and> j * BLOCK_SIZE < n \<and> m = unat start + j
            then memcpy_at (replicate BLOCK_SIZE 0) 0
                   (slice bytes ((m - unat start) * BLOCK_SIZE)
                      (min (n - (m - unat start) * BLOCK_SIZE) BLOCK_SIZE))
            else storage d m) = storage d"
      by (auto simp: fun_eq_iff)
    have stop: "\<not> (blk < nb \<and> bw < n)" using False by simp
    have "write_bitmap_loop d bytes n start nb blk bw = (Inr (), d)"
      by (subst write_bitmap_loop.simps) (simp only: if_not_P[OF stop])
    then show ?thesis unfolding feq0 by simp
  next
    case True
    have blk: "blk < nb" using Suc.hyps(2) by simp
    have bweq: "bw = blk * BLOCK_SIZE" and lt: "blk * BLOCK_SIZE < n"
      using True Suc.prems(5) by (simp_all add: min_def split: if_splits)
    define c where "c = min (n - bw) BLOCK_SIZE"
    define buffer where "buffer = memcpy_at (replicate BLOCK_SIZE 0) 0 (slice bytes bw c)"
    define d1 where "d1 = d\<lparr>storage := (storage d)(unat start + blk := buffer)\<rparr>"
    have rng: "unat start + blk < unat (total_blocks d)" using blk Suc.prems(3) by simp
    have bnd: "disk_check_block_bounds d (start + of_nat blk)"
      by (rule bounds_in_range[OF Suc.prems(1) rng Suc.prems(4)])
    have u: "unat (start + of_nat blk) = unat start + blk"
      by (rule unat_start_plus) (use rng Suc.prems(4) in simp)
    have w: "disk_write_block d (start + of_nat blk) (Some buffer) = Inr d1"
      using Suc.prems(1,2) bnd u by (simp add: disk_write_block_def d1_def)
    have k: "k = nb - Suc blk" using Suc.hyps(2) by simp
    have bw': "bw + c = min (Suc blk * BLOCK_SIZE) n"
      using lt by (auto simp add: c_def bweq min_def)
    have ih: "write_bitmap_loop d1 bytes n start nb (Suc blk) (bw + c) =
         (Inr (), d1\<lparr>storage := \<lambda>m.
            if \<exists>j. Suc blk \<le> j \<and> j < nb \<and> j * BLOCK_SIZE < n \<and> m = unat start + j
            then memcpy_at (replicate BLOCK_SIZE 0) 0
                   (slice bytes ((m - unat start) * BLOCK_SIZE)
                      (min (n - (m - unat start) * BLOCK_SIZE) BLOCK_SIZE))
            else storage d1 m\<rparr>)"
      by (rule Suc.hyps(1)[OF k]) (use Suc.prems bw' in \<open>simp_all add: d1_def\<close>)
    have step: "write_bitmap_loop d bytes n start nb blk bw =
                write_bitmap_loop d1 bytes n start nb (Suc blk) (bw + c)"
      using True blk w by (simp add: write_bitmap_loop.simps[of d] Let_def c_def buffer_def)
    have feq: "(\<lambda>m.
            if \<exists>j. Suc blk \<le> j \<and> j < nb \<and> j * BLOCK_SIZE < n \<and> m = unat start + j
            then memcpy_at (replicate BLOCK_SIZE 0) 0
                   (slice bytes ((m - unat start) * BLOCK_SIZE)
                      (min (n - (m - unat start) * BLOCK_SIZE) BLOCK_SIZE))
            else storage d1 m) = (\<lambda>m.
            if \<exists>j. blk \<le> j \<and> j < nb \<and> j * BLOCK_SIZE < n \<and> m = unat start + j
            then memcpy_at (replicate BLOCK_SIZE 0) 0
                   (slice bytes ((m - unat start) * BLOCK_SIZE)
                      (min (n - (m - unat start) * BLOCK_SIZE) BLOCK_SIZE))
            else storage d m)"
    proof (rule ext)
      fix m
      show "(if \<exists>j. Suc blk \<le> j \<and> j < nb \<and> j * BLOCK_SIZE < n \<and> m = unat start + j
            then memcpy_at (replicate BLOCK_SIZE 0) 0
                   (slice bytes ((m - unat start) * BLOCK_SIZE)
                      (min (n - (m - unat start) * BLOCK_SIZE) BLOCK_SIZE))
            else storage d1 m) = (
            if \<exists>j. blk \<le> j \<and> j < nb \<and> j * BLOCK_SIZE < n \<and> m = unat start + j
            then memcpy_at (replicate BLOCK_SIZE 0) 0
                   (slice bytes ((m - unat start) * BLOCK_SIZE)
                      (min (n - (m - unat start) * BLOCK_SIZE) BLOCK_SIZE))
            else storage d m)"
      proof (cases "m = unat start + blk")
        case True
        have no: "\<not> (\<exists>j. Suc blk \<le> j \<and> j < nb \<and> j * BLOCK_SIZE < n \<and> m = unat start + j)"
          using True by auto
        have yes: "\<exists>j. blk \<le> j \<and> j < nb \<and> j * BLOCK_SIZE < n \<and> m = unat start + j"
          using True blk lt by auto
        show ?thesis unfolding if_not_P[OF no] if_P[OF yes]
          using True by (simp add: d1_def buffer_def c_def bweq)
      next
        case False
        have eq: "(\<exists>j. Suc blk \<le> j \<and> j < nb \<and> j * BLOCK_SIZE < n \<and> m = unat start + j)
            = (\<exists>j. blk \<le> j \<and> j < nb \<and> j * BLOCK_SIZE < n \<and> m = unat start + j)"
          using False by (metis Suc_leD Suc_leI le_neq_implies_less)
        have st: "storage d1 m = storage d m" using False by (simp add: d1_def)
        show ?thesis unfolding eq st by (rule refl)
      qed
    qed
    show ?thesis unfolding step ih feq by (simp add: d1_def)
  qed
qed

lemma take_memcpy_at_extend:
  assumes "length cur = n" "length bytes = n" "br + c \<le> n" "take br cur = take br bytes"
  shows "take (br + c) (memcpy_at cur br (slice bytes br c)) = take (br + c) bytes"
proof -
  have l: "length (slice bytes br c) = c" using assms by simp
  have "take (br + c) (memcpy_at cur br (slice bytes br c)) = take br cur @ slice bytes br c"
    using assms l by (simp add: memcpy_at_def)
  also have "\<dots> = take br bytes @ take c (drop br bytes)"
    using assms by (simp add: slice_def)
  also have "\<dots> = take (br + c) bytes" by (simp add: take_add)
  finally show ?thesis .
qed

lemma read_bitmap_loop_ok:
  assumes "is_initialized d"
    and "unat start + nb \<le> unat (total_blocks d)" "unat (total_blocks d) < 2 ^ 31"
    and "length bytes = n" "length cur = n" "take br cur = take br bytes"
    and "br = min (blk * BLOCK_SIZE) n" "n \<le> nb * BLOCK_SIZE"
    and "\<And>j. blk \<le> j \<Longrightarrow> j < nb \<Longrightarrow> j * BLOCK_SIZE < n \<Longrightarrow>
           storage d (unat start + j) =
             memcpy_at (replicate BLOCK_SIZE 0) 0
               (slice bytes (j * BLOCK_SIZE) (min (n - j * BLOCK_SIZE) BLOCK_SIZE))"
  shows "read_bitmap_loop d (Some cur) n start nb blk br = (Inr (), Some bytes)"
  using assms
proof (induction "nb - blk" arbitrary: cur blk br)
  case 0
  then have ge: "nb \<le> blk" by simp
  then have "nb * BLOCK_SIZE \<le> blk * BLOCK_SIZE" by (rule mult_le_mono1)
  with "0.prems"(8) have "n \<le> blk * BLOCK_SIZE" by linarith
  with "0.prems"(7) have br: "br = n" by (simp add: min_def)
  have stop: "\<not> (blk < nb \<and> br < n)" using br by simp
  have "cur = bytes" using "0.prems"(4,5,6) br by simp
  moreover have "read_bitmap_loop d (Some cur) n start nb blk br = (Inr (), Some cur)"
    by (subst read_bitmap_loop.simps) (simp only: if_not_P[OF stop])
  ultimately show ?case by simp
next
  case (Suc k)
  show ?case
  proof (cases "br < n")
    case False
    then have br: "br = n" using Suc.prems(7) by (simp add: min_def split: if_splits)
    have stop: "\<not> (blk < nb \<and> br < n)" using br by simp
    have "cur = bytes" using Suc.prems(4,5,6) br by simp
    moreover have "read_bitmap_loop d (Some cur) n start nb blk br = (Inr (), Some cur)"
      by (subst read_bitmap_loop.simps) (simp only: if_not_P[OF stop])
    ultimately show ?thesis by simp
  next
    case True
    have blk: "blk < nb" using Suc.hyps(2) by simp
    have breq: "br = blk * BLOCK_SIZE" and lt: "blk * BLOCK_SIZE < n"
      using True Suc.prems(7) by (simp_all add: min_def split: if_splits)
    define c where "c = min (n - br) BLOCK_SIZE"
    define buffer where "buffer = memcpy_at (replicate BLOCK_SIZE 0) 0 (slice bytes br c)"
    define cur' where "cur' = memcpy_at cur br (slice buffer 0 c)"
    have cle: "br + c \<le> n" "c \<le> BLOCK_SIZE" using True by (auto simp add: c_def min_def)
    have lsl: "length (slice bytes br c) = c" using cle Suc.prems(4) by simp
    have sb: "slice buffer 0 c = slice bytes br c"
      unfolding buffer_def using lsl cle by (simp add: memcpy_at_def slice_def)
    have rng: "unat start + blk < unat (total_blocks d)" using blk Suc.prems(2) by simp
    have bnd: "disk_check_block_bounds d (start + of_nat blk)"
      by (rule bounds_in_range[OF Suc.prems(1) rng Suc.prems(3)])
    have u: "unat (start + of_nat blk) = unat start + blk"
      by (rule unat_start_plus) (use rng Suc.prems(3) in simp)
    have st: "storage d (unat start + blk) = buffer"
      using Suc.prems(9)[OF le_refl blk lt] by (simp add: buffer_def c_def breq)
    have r: "disk_read_block d (start + of_nat blk) True = Inr buffer"
      using Suc.prems(1) bnd u st by (simp add: disk_read_block_def)
    have k: "k = nb - Suc blk" using Suc.hyps(2) by simp
    have br': "br + c = min (Suc blk * BLOCK_SIZE) n"
      using lt by (auto simp add: c_def breq min_def)
    have len': "length cur' = n" unfolding cur'_def sb using Suc.prems(5) lsl cle by simp
    have tk: "take (br + c) cur' = take (br + c) bytes"
      unfolding cur'_def sb
      by (rule take_memcpy_at_extend[OF Suc.prems(5) Suc.prems(4) cle(1) Suc.prems(6)])
    have ih: "read_bitmap_loop d (Some cur') n start nb (Suc blk) (br + c) = (Inr (), Some bytes)"
      by (rule Suc.hyps(1)[OF k Suc.prems(1,2,3,4) len' tk br' Suc.prems(8)])
         (rule Suc.prems(9), simp_all)
    have step: "read_bitmap_loop d (Some cur) n start nb blk br =
                read_bitmap_loop d (Some cur') n start nb (Suc blk) (br + c)"
      using True blk r by (simp add: read_bitmap_loop.simps[of d "Some cur"] Let_def c_def cur'_def)
    show ?thesis unfolding step ih by (rule refl)
  qed
qed

lemma bitmap_size_check:
  fixes nbits nblocks :: u32
  assumes "bitmap_bytes nbits \<le> unat nblocks * BLOCK_SIZE"
    and "unat nblocks * BLOCK_SIZE < 2 ^ 32"
  shows "\<not> nblocks * 1024 < ((nbits + 7) div 8 + 1024 - 1) div 1024 * 1024"
proof -
  define nbytes where "nbytes = (nbits + 7) div 8"
  define N where "N = unat nbytes"
  define B where "B = unat nblocks"
  have "unat (nbits + 7) < 2 ^ 32" using unsigned_less[of "nbits + 7", where 'a = nat] by simp
  then have "unat (nbits + 7) < 4294967296" by simp
  then have "unat (nbits + 7) div 8 < 536870912" by linarith
  then have N29: "N < 536870912" by (simp add: N_def nbytes_def unat_div)
  have le: "N \<le> B * 1024" and B: "B * 1024 < 4294967296"
    using assms by (simp_all add: N_def nbytes_def B_def bitmap_bytes_def BLOCK_SIZE_def)
  have e0: "nbytes + 1024 - 1 = nbytes + 1023" by simp
  have e1: "unat (nbytes + 1023) = N + 1023"
    using N29 by (simp add: unat_word_ariths N_def)
  define X where "X = (nbytes + 1023) div 1024"
  have e2: "unat X = (N + 1023) div 1024"
    by (simp add: X_def unat_div e1)
  have q: "(N + 1023) div 1024 \<le> B" using le by linarith
  then have q': "(N + 1023) div 1024 * 1024 \<le> B * 1024" by linarith
  have e3: "unat (X * 1024) = (N + 1023) div 1024 * 1024"
    using q' B by (simp add: unat_word_ariths e2)
  have e4: "unat (nblocks * 1024) = B * 1024"
    using B by (simp add: unat_word_ariths B_def)
  have "\<not> unat (nblocks * 1024) < unat (X * 1024)"
    unfolding e3 e4 using q' by simp
  then have "\<not> nblocks * 1024 < X * 1024"
    using word_less_nat_alt[of "nblocks * 1024" "X * 1024"] by blast
  then show ?thesis unfolding nbytes_def[symmetric] e0 X_def .
qed

text \<open>
  C9. For a bitmap whose array is allocated with the length its total\_bits call for, on an
  initialized, writable disk holding the span of nblocks blocks from start, a span large
  enough for the array: fs\_ops\_write\_bitmap succeeds, and fs\_ops\_read\_bitmap of the
  same span into any bitmap of the same total\_bits with an allocated array succeeds and
  leaves exactly the bytes written, hence the same set of allocated bits, with free\_count
  the number of clear bits among the first total\_bits, whatever the counter of the target
  was; if the counter of the written bitmap was that number, it is reproduced.
\<close>

theorem bitmap_write_read_round_trip:
  assumes bm: "bitmap bm = Some bytes" "length bytes = bitmap_bytes (total_bits bm)"
      "unat (total_bits bm) + 7 < 2 ^ 32"
    and bm2: "bitmap bm2 = Some bytes2" "length bytes2 = bitmap_bytes (total_bits bm)"
      "total_bits bm2 = total_bits bm"
    and disk: "is_initialized d" "\<not> is_read_only d"
      "unat start + unat nblocks \<le> unat (total_blocks d)" "unat (total_blocks d) < 2 ^ 31"
    and span: "bitmap_bytes (total_bits bm) \<le> unat nblocks * BLOCK_SIZE"
      "unat nblocks * BLOCK_SIZE < 2 ^ 32"
  shows "fst (fs_ops_write_bitmap d bm start nblocks) = Inr () \<and>
         fs_ops_read_bitmap (snd (fs_ops_write_bitmap d bm start nblocks)) bm2 start nblocks =
           (Inr (), bm2\<lparr>bitmap := Some bytes,
                        free_count := of_nat (count_free bytes (unat (total_bits bm)))\<rparr>) \<and>
         (unat (free_count bm) = count_free bytes (unat (total_bits bm)) \<longrightarrow>
            fs_ops_read_bitmap (snd (fs_ops_write_bitmap d bm start nblocks)) bm2 start nblocks =
              (Inr (), bm2\<lparr>bitmap := bitmap bm, free_count := free_count bm\<rparr>))"
proof -
  define n where "n = bitmap_bytes (total_bits bm)"
  define nb where "nb = unat nblocks"
  define d' where "d' = d\<lparr>storage := \<lambda>m.
            if \<exists>j. 0 \<le> j \<and> j < nb \<and> j * BLOCK_SIZE < n \<and> m = unat start + j
            then memcpy_at (replicate BLOCK_SIZE 0) 0
                   (slice bytes ((m - unat start) * BLOCK_SIZE)
                      (min (n - (m - unat start) * BLOCK_SIZE) BLOCK_SIZE))
            else storage d m\<rparr>"
  have chk: "\<not> nblocks * 1024 < ((total_bits bm + 7) div 8 + 1024 - 1) div 1024 * 1024"
    by (rule bitmap_size_check[OF span])
  have wl: "write_bitmap_loop d bytes n start nb 0 0 = (Inr (), d')"
    unfolding d'_def
    by (rule write_bitmap_loop_ok[OF disk(1,2) disk(3)[folded nb_def] disk(4)]) simp
  have w: "fs_ops_write_bitmap d bm start nblocks = (Inr (), d')"
    using chk wl
    by (simp add: fs_ops_write_bitmap_def bm(1) Let_def n_def nb_def bitmap_bytes_def)
  have d'f: "is_initialized d'" "total_blocks d' = total_blocks d"
    using disk by (simp_all add: d'_def)
  have rl: "read_bitmap_loop d' (Some bytes2) n start nb 0 0 = (Inr (), Some bytes)"
  proof (rule read_bitmap_loop_ok[OF d'f(1)])
    show "unat start + nb \<le> unat (total_blocks d')" using disk(3) by (simp add: d'f nb_def)
    show "unat (total_blocks d') < 2 ^ 31" using disk(4) by (simp add: d'f)
    show "length bytes = n" "length bytes2 = n" using bm(2) bm2(2) by (simp_all add: n_def)
    show "take 0 bytes2 = take 0 bytes" by simp
    show "0 = min (0 * BLOCK_SIZE) n" by simp
    show "n \<le> nb * BLOCK_SIZE" using span(1) by (simp add: n_def nb_def)
  next
    fix j assume j: "0 \<le> j" "j < nb" "j * BLOCK_SIZE < n"
    then have ex: "\<exists>j'. 0 \<le> j' \<and> j' < nb \<and> j' * BLOCK_SIZE < n \<and> unat start + j = unat start + j'"
      by blast
    show "storage d' (unat start + j) =
             memcpy_at (replicate BLOCK_SIZE 0) 0
               (slice bytes (j * BLOCK_SIZE) (min (n - j * BLOCK_SIZE) BLOCK_SIZE))"
      unfolding d'_def using ex by simp
  qed
  have r: "fs_ops_read_bitmap d' bm2 start nblocks =
           (Inr (), bm2\<lparr>bitmap := Some bytes,
                        free_count := of_nat (count_free bytes (unat (total_bits bm)))\<rparr>)"
    using rl by (simp add: fs_ops_read_bitmap_def bm2 n_def nb_def)
  have r2: "fs_ops_read_bitmap d' bm2 start nblocks =
              (Inr (), bm2\<lparr>bitmap := bitmap bm, free_count := free_count bm\<rparr>)"
    if "unat (free_count bm) = count_free bytes (unat (total_bits bm))"
    unfolding r that[symmetric] by (simp add: bm(1))
  show ?thesis unfolding w using r r2 by simp
qed

theorem bitmap_write_read_round_trip_witness:
  "fs_ops_read_bitmap
     (snd (fs_ops_write_bitmap (g_disk_state (demo_sys zero_inode no_bitmap [] demo_user))
             demo_bitmap 2 4)) full_bitmap 2 4 = (Inr (), demo_bitmap)"
proof -
  have cf: "count_free [1, 0, 0, 0, 0, 0] 44 = 43"
    by (simp add: count_free_def bit_is_set_def upt_rec[of _ "numeral _"])
  have "unat (free_count demo_bitmap) = count_free [1, 0, 0, 0, 0, 0] (unat (total_bits demo_bitmap))"
    by (simp add: demo_bitmap_def cf)
  moreover have "full_bitmap\<lparr>bitmap := bitmap demo_bitmap, free_count := free_count demo_bitmap\<rparr>
      = demo_bitmap"
    by (simp add: full_bitmap_def demo_bitmap_def)
  ultimately show ?thesis
    using bitmap_write_read_round_trip[of demo_bitmap "[1, 0, 0, 0, 0, 0]" full_bitmap
        "[255, 255, 255, 255, 255, 15]"
        "g_disk_state (demo_sys zero_inode no_bitmap [] demo_user)" 2 4]
    by (simp add: demo_bitmap_def full_bitmap_def bitmap_bytes_def demo_sys_def BLOCK_SIZE_def)
qed

subsection \<open>Formatting\<close>

lemma init_superblock_fields:
  "magic_number (fs_ops_init_superblock tb now) = FS_MAGIC_NUMBER"
  "sb_total_blocks (fs_ops_init_superblock tb now) = tb"
  "total_inodes (fs_ops_init_superblock tb now) = 1024"
  "inode_table_start (fs_ops_init_superblock tb now) = 8"
  "data_blocks_start (fs_ops_init_superblock tb now) = 156"
  "free_blocks (fs_ops_init_superblock tb now) = tb - 156"
  "free_inodes (fs_ops_init_superblock tb now) = 1023"
  "sb_reserved (fs_ops_init_superblock tb now) = replicate 64 0"
  by (simp_all add: fs_ops_init_superblock_def Let_def
      FS_DEFAULT_MAX_INODES_def FS_INODE_TABLE_START_def INODE_SIZE_def BLOCK_SIZE_def)

lemma superblock_checksum_upd [simp]:
  "superblock_checksum (sb\<lparr>checksum := c\<rparr>) = superblock_checksum sb"
  by (simp add: superblock_checksum_def)

lemma init_superblock_checksum:
  "checksum (fs_ops_init_superblock tb now) = superblock_checksum (fs_ops_init_superblock tb now)"
  unfolding fs_ops_init_superblock_def Let_def
  by (subst superblock_checksum_upd) simp

lemma length_enc_superblock [simp]:
  "length (sb_reserved sb) = 64 \<Longrightarrow> length (enc_superblock sb) = 152"
  by (simp add: enc_superblock_def)

lemma dec_enc_superblock:
  assumes "length (sb_reserved sb) = 64"
  shows "dec_superblock (enc_superblock sb) = sb"
  using assms by (simp add: dec_superblock_def enc_superblock_def slice_def)

lemma read_written_superblock:
  assumes "storage d 0 = memcpy_at (replicate BLOCK_SIZE 0) 0 (enc_superblock sb)"
    and "is_initialized d" "0 < unat (total_blocks d)"
    and "length (sb_reserved sb) = 64" "magic_number sb = FS_MAGIC_NUMBER"
    and "checksum sb = superblock_checksum sb"
  shows "fs_ops_read_superblock d sb_old = (Inr (), sb)"
proof -
  have r: "disk_read_block d FS_SUPERBLOCK_BLOCK True =
           Inr (memcpy_at (replicate BLOCK_SIZE 0) 0 (enc_superblock sb))"
    using assms(1,2,3)
    by (simp add: disk_read_block_def disk_check_block_bounds_def FS_SUPERBLOCK_BLOCK_def)
  have l: "length (enc_superblock sb) = 152" using assms(4) by simp
  have s: "slice (memcpy_at (replicate BLOCK_SIZE 0) 0 (enc_superblock sb)) 0 152 = enc_superblock sb"
    by (rule slice_memcpy_at_same) (simp_all add: l)
  show ?thesis
    using assms(5,6)
    by (simp add: fs_ops_read_superblock_def r s Let_def dec_enc_superblock[OF assms(4)])
qed

lemma disk_write_block_ok:
  assumes "is_initialized d" "\<not> is_read_only d" "unat bn < unat (total_blocks d)"
    and "unat (total_blocks d) < 2 ^ 31"
  shows "disk_write_block d bn (Some b) = Inr (d\<lparr>storage := (storage d)(unat bn := b)\<rparr>)"
proof -
  have "unat bn < 2 ^ 31" using assms(3,4) by simp
  then have "0 \<le> sint bn" by (rule sint_nonneg)
  then show ?thesis using assms by (simp add: disk_write_block_def disk_check_block_bounds_def)
qed

lemma fs_ops_write_superblock_ok:
  assumes "is_initialized d" "\<not> is_read_only d" "0 < unat (total_blocks d)"
    and "unat (total_blocks d) < 2 ^ 31"
  shows "fs_ops_write_superblock d sb =
         Inr (d\<lparr>storage := (storage d)(0 := memcpy_at (replicate BLOCK_SIZE 0) 0 (enc_superblock sb))\<rparr>)"
  using disk_write_block_ok[OF assms(1,2) _ assms(4), of FS_SUPERBLOCK_BLOCK] assms(3)
  by (simp add: fs_ops_write_superblock_def FS_SUPERBLOCK_BLOCK_def)

lemma fs_ops_create_root_directory_ok:
  assumes "is_initialized (g_disk_state s)" "\<not> is_read_only (g_disk_state s)"
    and "156 < unat (total_blocks (g_disk_state s))"
    and "unat (total_blocks (g_disk_state s)) < 2 ^ 31"
    and "data_blocks_start (superblock (g_fs_state s)) = 156"
    and "inode_table_start (superblock (g_fs_state s)) = 8"
  shows "\<exists>d2. fs_ops_create_root_directory s now =
           (Inr (), s\<lparr>g_disk_state := d2,
               g_fs_state := (g_fs_state s)
                 \<lparr>inode_bitmap := set_bitmap_bit (inode_bitmap (g_fs_state s)) 1,
                  block_bitmap := set_bitmap_bit (block_bitmap (g_fs_state s)) 0\<rparr>\<rparr>)
         \<and> is_initialized d2 \<and> \<not> is_read_only d2
         \<and> total_blocks d2 = total_blocks (g_disk_state s)
         \<and> storage d2 0 = storage (g_disk_state s) 0"
proof -
  let ?d = "g_disk_state s"
  let ?d1 = "?d\<lparr>storage := (storage ?d)(unat (156 :: u32) := root_dir_block)\<rparr>"
  have ibn: "inode_block_num (superblock (g_fs_state s)) ROOT_INODE_NUM = 8"
    using assms(6)
    by (simp add: inode_block_num_def inodes_per_block_def BLOCK_SIZE_def INODE_SIZE_def
        ROOT_INODE_NUM_def)
  have w1: "disk_write_block ?d 156 (Some root_dir_block) = Inr ?d1"
    by (rule disk_write_block_ok[OF assms(1,2) _ assms(4)]) (use assms(3) in simp)
  have w2: "disk_write_block ?d1 8 (Some b) = Inr (?d1\<lparr>storage := (storage ?d1)(unat (8 :: u32) := b)\<rparr>)" for b
    by (rule disk_write_block_ok) (use assms(1-4) in simp_all)
  show ?thesis
    apply (simp only: fs_ops_create_root_directory_def Let_def assms(5) ibn w1 w2 sum.case)
    apply (rule exI[of _ "?d1\<lparr>storage := (storage ?d1)(unat (8 :: u32) := _)\<rparr>"])
    using assms(1,2) apply (simp add: ROOT_INODE_NUM_def)
    done
qed

lemma fs_ops_write_bitmap_ok:
  assumes "bitmap bm = Some bytes"
    and "is_initialized d" "\<not> is_read_only d"
    and "unat start + unat nblocks \<le> unat (total_blocks d)" "unat (total_blocks d) < 2 ^ 31"
    and "bitmap_bytes (total_bits bm) \<le> unat nblocks * BLOCK_SIZE"
    and "unat nblocks * BLOCK_SIZE < 2 ^ 32"
  shows "fs_ops_write_bitmap d bm start nblocks =
         (Inr (), d\<lparr>storage := \<lambda>m.
            if \<exists>j. j < unat nblocks \<and> j * BLOCK_SIZE < bitmap_bytes (total_bits bm)
                  \<and> m = unat start + j
            then memcpy_at (replicate BLOCK_SIZE 0) 0
                   (slice bytes ((m - unat start) * BLOCK_SIZE)
                      (min (bitmap_bytes (total_bits bm) - (m - unat start) * BLOCK_SIZE) BLOCK_SIZE))
            else storage d m\<rparr>)"
proof -
  define n where "n = bitmap_bytes (total_bits bm)"
  define nb where "nb = unat nblocks"
  define d' where "d' = d\<lparr>storage := \<lambda>m.
            if \<exists>j. 0 \<le> j \<and> j < nb \<and> j * BLOCK_SIZE < n \<and> m = unat start + j
            then memcpy_at (replicate BLOCK_SIZE 0) 0
                   (slice bytes ((m - unat start) * BLOCK_SIZE)
                      (min (n - (m - unat start) * BLOCK_SIZE) BLOCK_SIZE))
            else storage d m\<rparr>"
  have chk: "\<not> nblocks * 1024 < ((total_bits bm + 7) div 8 + 1024 - 1) div 1024 * 1024"
    by (rule bitmap_size_check[OF assms(6,7)])
  have wl: "write_bitmap_loop d bytes n start nb 0 0 = (Inr (), d')"
    unfolding d'_def
    by (rule write_bitmap_loop_ok[OF assms(2,3) assms(4)[folded nb_def] assms(5)]) simp
  have w: "fs_ops_write_bitmap d bm start nblocks = (Inr (), d')"
    using chk wl
    by (simp add: fs_ops_write_bitmap_def assms(1) Let_def n_def nb_def bitmap_bytes_def)
  have "d' = d\<lparr>storage := \<lambda>m.
            if \<exists>j. j < unat nblocks \<and> j * BLOCK_SIZE < bitmap_bytes (total_bits bm)
                  \<and> m = unat start + j
            then memcpy_at (replicate BLOCK_SIZE 0) 0
                   (slice bytes ((m - unat start) * BLOCK_SIZE)
                      (min (bitmap_bytes (total_bits bm) - (m - unat start) * BLOCK_SIZE) BLOCK_SIZE))
            else storage d m\<rparr>"
    unfolding d'_def n_def nb_def by simp
  with w show ?thesis by simp
qed

lemma fs_ops_write_bitmap_frame:
  assumes "bitmap bm = Some bytes"
    and "is_initialized d" "\<not> is_read_only d"
    and "unat start + unat nblocks \<le> unat (total_blocks d)" "unat (total_blocks d) < 2 ^ 31"
    and "bitmap_bytes (total_bits bm) \<le> unat nblocks * BLOCK_SIZE"
    and "unat nblocks * BLOCK_SIZE < 2 ^ 32"
  shows "\<exists>d'. fs_ops_write_bitmap d bm start nblocks = (Inr (), d')
           \<and> is_initialized d' \<and> \<not> is_read_only d' \<and> total_blocks d' = total_blocks d
           \<and> (\<forall>m < unat start. storage d' m = storage d m)"
  unfolding fs_ops_write_bitmap_ok[OF assms] using assms(2,3) by simp

lemma set_bitmap_bit_fresh:
  assumes "fs_ops_init_bitmap nbits = Inr bm" "k < nbits" "unat nbits + 7 < 2 ^ 32"
  shows "\<exists>bytes. set_bitmap_bit bm k = bm\<lparr>bitmap := Some bytes, free_count := nbits - 1\<rparr>"
    and "total_bits bm = nbits"
proof -
  have bm: "bm = \<lparr>bitmap = Some (replicate (bitmap_bytes nbits) 0), total_bits = nbits,
                free_count = nbits, last_allocated = 0\<rparr>"
    using assms(1) by (simp add: fs_ops_init_bitmap_def split: if_splits)
  have "unat (nbits + 7) = unat nbits + 7" using assms(3) by (simp add: unat_word_ariths)
  then have nb: "bitmap_bytes nbits = (unat nbits + 7) div 8"
    by (simp add: bitmap_bytes_def unat_div)
  have "unat k < unat nbits" using assms(2) by (simp add: word_less_nat_alt)
  then have "unat k div 8 < bitmap_bytes nbits" unfolding nb by linarith
  then have "\<not> bit_is_set (replicate (bitmap_bytes nbits) 0) (unat k)"
    by (simp add: bit_is_set_def)
  then show "\<exists>bytes. set_bitmap_bit bm k = bm\<lparr>bitmap := Some bytes, free_count := nbits - 1\<rparr>"
    using assms(2) by (simp add: set_bitmap_bit_def bm)
  show "total_bits bm = nbits" by (simp add: bm)
qed

lemma unat_plus7:
  "unat (a :: u32) + 7 < 2 ^ 32 \<Longrightarrow> unat (a + 7) = unat a + 7"
  by (simp add: unat_word_ariths)

lemma bitmap_bytes_nowrap:
  "unat (a :: u32) + 7 < 2 ^ 32 \<Longrightarrow> bitmap_bytes a = (unat a + 7) div 8"
  by (simp add: bitmap_bytes_def unat_div unat_plus7)

lemma format_disk_ok:
  assumes init: "is_initialized (g_disk_state s)" and ro: "\<not> is_read_only (g_disk_state s)"
    and bs: "block_size (g_disk_state s) = 1024"
    and lo: "157 \<le> unat (total_blocks (g_disk_state s))"
    and hi: "unat (total_blocks (g_disk_state s)) \<le> 32924"
  shows "\<exists>sb9 d7 fs9.
           format_disk s t1 t2 =
             s\<lparr>g_fs_state := fs9,
               g_disk_state := d7\<lparr>storage := (storage d7)
                 (0 := memcpy_at (replicate BLOCK_SIZE 0) 0 (enc_superblock sb9))\<rparr>\<rparr>
         \<and> superblock fs9 = sb9
         \<and> is_initialized d7 \<and> total_blocks d7 = total_blocks (g_disk_state s)
         \<and> sb9 = (fs_ops_init_superblock (total_blocks (g_disk_state s)) t1)
                   \<lparr>free_inodes := 1023,
                    free_blocks := total_blocks (g_disk_state s) - 156 - 1,
                    checksum := superblock_checksum
                      ((fs_ops_init_superblock (total_blocks (g_disk_state s)) t1)
                        \<lparr>free_inodes := 1023,
                         free_blocks := total_blocks (g_disk_state s) - 156 - 1\<rparr>)\<rparr>"
proof -
  define d where "d = g_disk_state s"
  define tb where "tb = total_blocks d"
  define sb where "sb = fs_ops_init_superblock tb t1"
  have tb31: "unat tb < 2 ^ 31" using hi by (simp add: tb_def d_def)
  have tbpos: "0 < unat tb" using lo by (simp add: tb_def d_def)
  note sbf = init_superblock_fields[of tb t1, folded sb_def]
  define d1 where "d1 = d\<lparr>storage := (storage d)(0 := memcpy_at (replicate BLOCK_SIZE 0) 0 (enc_superblock sb))\<rparr>"
  have w1: "fs_ops_write_superblock d sb = Inr d1"
    unfolding d1_def
    by (rule fs_ops_write_superblock_ok) (use init ro tbpos tb31 in \<open>simp_all add: d_def tb_def\<close>)
  have le156: "(156::u32) \<le> tb" using lo by (simp add: word_le_nat_alt tb_def d_def)
  have ub: "unat (tb - 156) = unat tb - 156" using le156 by (simp add: unat_sub)
  then have nz: "tb - 156 \<noteq> 0" using lo by (auto simp: unat_eq_0 tb_def d_def)
  obtain ibm where ibm: "fs_ops_init_bitmap 1024 = Inr ibm"
    by (simp add: fs_ops_init_bitmap_def)
  obtain bbm where bbm: "fs_ops_init_bitmap (tb - 156) = Inr bbm"
    using nz by (simp add: fs_ops_init_bitmap_def)
  define s4 where "s4 = s\<lparr>g_disk_state := d1,
                            g_fs_state := (g_fs_state s)\<lparr>superblock := sb, inode_bitmap := ibm,
                              block_bitmap := bbm\<rparr>\<rparr>"
  have d1f: "is_initialized d1" "\<not> is_read_only d1" "total_blocks d1 = tb"
    using init ro by (simp_all add: d1_def d_def tb_def)
  from fs_ops_create_root_directory_ok[of s4 t2]
  obtain d2 where cr: "fs_ops_create_root_directory s4 t2 =
           (Inr (), s4\<lparr>g_disk_state := d2,
               g_fs_state := (g_fs_state s4)
                 \<lparr>inode_bitmap := set_bitmap_bit (inode_bitmap (g_fs_state s4)) 1,
                  block_bitmap := set_bitmap_bit (block_bitmap (g_fs_state s4)) 0\<rparr>\<rparr>)"
    and d2f: "is_initialized d2" "\<not> is_read_only d2" "total_blocks d2 = tb"
    using d1f lo tb31 sbf by (auto simp: s4_def tb_def d_def)
  have i1: "(1::u32) < 1024" "unat (1024::u32) + 7 < 2 ^ 32" by simp_all
  from set_bitmap_bit_fresh[OF ibm i1] obtain ibytes where
    ib: "set_bitmap_bit ibm 1 = ibm\<lparr>bitmap := Some ibytes, free_count := 1023\<rparr>"
    and itb: "total_bits ibm = 1024"
    by auto
  have "0 < unat (tb - 156)" using ub lo by (simp add: tb_def d_def)
  then have bl: "(0::u32) < tb - 156" by (simp add: word_less_nat_alt)
  have b7: "unat (tb - 156) + 7 < 2 ^ 32" using ub tb31 by simp
  from set_bitmap_bit_fresh[OF bbm bl b7] obtain bbytes where
    bb: "set_bitmap_bit bbm 0 = bbm\<lparr>bitmap := Some bbytes, free_count := tb - 157\<rparr>"
    and btb: "total_bits bbm = tb - 156"
    by auto
  define ibm' where "ibm' = ibm\<lparr>bitmap := Some ibytes, free_count := 1023\<rparr>"
  define bbm' where "bbm' = bbm\<lparr>bitmap := Some bbytes, free_count := tb - 157\<rparr>"
  have ibb: "bitmap_bytes (total_bits ibm') = 128"
    by (simp add: ibm'_def itb bitmap_bytes_def)
  have "bitmap_bytes (tb - 156) = (unat (tb - 156) + 7) div 8"
    by (rule bitmap_bytes_nowrap[OF b7])
  then have "bitmap_bytes (tb - 156) = (unat tb - 149) div 8"
    using lo unfolding ub by (simp add: tb_def d_def)
  then have bbb: "bitmap_bytes (total_bits bbm') \<le> 4096"
    using hi by (simp add: bbm'_def btb tb_def d_def)
  have tb6: "6 \<le> unat tb" using lo by (simp add: tb_def d_def)
  from fs_ops_write_bitmap_frame[of ibm' ibytes d2 FS_INODE_BITMAP_BLOCK FS_BITMAP_BLOCKS]
  obtain d6 where wb1: "fs_ops_write_bitmap d2 ibm' FS_INODE_BITMAP_BLOCK FS_BITMAP_BLOCKS = (Inr (), d6)"
    and d6f: "is_initialized d6" "\<not> is_read_only d6" "total_blocks d6 = tb"
    using d2f tb6 tb31 ibb
    by (auto simp: ibm'_def FS_INODE_BITMAP_BLOCK_def FS_BITMAP_BLOCKS_def BLOCK_SIZE_def)
  from fs_ops_write_bitmap_frame[of bbm' bbytes d6 FS_DATA_BITMAP_BLOCK FS_BITMAP_BLOCKS]
  obtain d7 where wb2: "fs_ops_write_bitmap d6 bbm' FS_DATA_BITMAP_BLOCK FS_BITMAP_BLOCKS = (Inr (), d7)"
    and d7f: "is_initialized d7" "\<not> is_read_only d7" "total_blocks d7 = tb"
    using d6f tb6 tb31 bbb
    by (auto simp: bbm'_def FS_DATA_BITMAP_BLOCK_def FS_BITMAP_BLOCKS_def BLOCK_SIZE_def)
  define sb8 where "sb8 = sb\<lparr>free_inodes := 1023, free_blocks := tb - 157\<rparr>"
  define sb9 where "sb9 = sb8\<lparr>checksum := superblock_checksum sb8\<rparr>"
  have w2: "fs_ops_write_superblock d7 sb9 =
      Inr (d7\<lparr>storage := (storage d7)(0 := memcpy_at (replicate BLOCK_SIZE 0) 0 (enc_superblock sb9))\<rparr>)"
    by (rule fs_ops_write_superblock_ok) (use d7f tbpos tb31 in simp_all)
  have fci: "free_count ibm' = 1023" and fcb: "free_count bbm' = tb - 157"
    by (simp_all add: ibm'_def bbm'_def)
  have "format_disk s t1 t2 =
          s\<lparr>g_fs_state := (g_fs_state s)\<lparr>superblock := sb9, inode_bitmap := ibm', block_bitmap := bbm'\<rparr>,
            g_disk_state := d7\<lparr>storage := (storage d7)
                 (0 := memcpy_at (replicate BLOCK_SIZE 0) 0 (enc_superblock sb9))\<rparr>\<rparr>"
    unfolding format_disk_def Let_def
    using init bs
    apply (simp add: d_def[symmetric] tb_def[symmetric] sb_def[symmetric] BLOCK_SIZE_def w1 sbf ibm bbm)
    apply (simp add: cr[unfolded s4_def] ib bb ibm'_def[symmetric] bbm'_def[symmetric]
        wb1 wb2)
    apply (simp add: fci fcb sb8_def[symmetric] sb9_def[symmetric] w2)
    apply (simp add: BLOCK_SIZE_def)
    done
  then show ?thesis
    using d7f
    by (intro exI[of _ sb9] exI[of _ d7]
          exI[of _ "(g_fs_state s)\<lparr>superblock := sb9, inode_bitmap := ibm', block_bitmap := bbm'\<rparr>"])
       (simp add: sb9_def sb8_def sb_def tb_def d_def)
qed

text \<open>
  C3 (as amended). For a disk that is initialized and writable, with blocks of 1024 bytes
  and between 157 and 32924 blocks: after format\_disk, fs\_ops\_read\_superblock succeeds and
  the superblock it reads, which is also the one in memory, has free\_inodes equal to
  total\_inodes - 1 and free\_blocks equal to total\_blocks - data\_blocks\_start - 1, with
  total\_inodes 1024 and data\_blocks\_start 156.
\<close>

theorem format_disk_free_counts:
  assumes init: "is_initialized (g_disk_state s)" and ro: "\<not> is_read_only (g_disk_state s)"
    and bs: "block_size (g_disk_state s) = 1024"
    and lo: "157 \<le> unat (total_blocks (g_disk_state s))"
    and hi: "unat (total_blocks (g_disk_state s)) \<le> 32924"
    and rb: "rb = fs_ops_read_superblock (g_disk_state (format_disk s t1 t2)) sb_old"
  shows "fst rb = Inr ()
       \<and> free_inodes (snd rb) = total_inodes (snd rb) - 1
       \<and> free_blocks (snd rb) = total_blocks (g_disk_state s) - data_blocks_start (snd rb) - 1
       \<and> sb_total_blocks (snd rb) = total_blocks (g_disk_state s)
       \<and> total_inodes (snd rb) = 1024 \<and> data_blocks_start (snd rb) = 156
       \<and> superblock (g_fs_state (format_disk s t1 t2)) = snd rb"
proof -
  define tb where "tb = total_blocks (g_disk_state s)"
  define sb8 where "sb8 = (fs_ops_init_superblock tb t1)\<lparr>free_inodes := 1023, free_blocks := tb - 156 - 1\<rparr>"
  from format_disk_ok[OF init ro bs lo hi, of t1 t2]
  obtain sb9 d7 fs9 where f: "format_disk s t1 t2 =
             s\<lparr>g_fs_state := fs9,
               g_disk_state := d7\<lparr>storage := (storage d7)
                 (0 := memcpy_at (replicate BLOCK_SIZE 0) 0 (enc_superblock sb9))\<rparr>\<rparr>"
    and sbfs: "superblock fs9 = sb9"
    and d7f: "is_initialized d7" "total_blocks d7 = tb"
    and sb9: "sb9 = sb8\<lparr>checksum := superblock_checksum sb8\<rparr>"
    unfolding tb_def sb8_def by blast
  note sbf = init_superblock_fields[of tb t1]
  have r64: "length (sb_reserved sb9) = 64" by (simp add: sb9 sb8_def sbf)
  have mg: "magic_number sb9 = FS_MAGIC_NUMBER" by (simp add: sb9 sb8_def sbf)
  have ck: "checksum sb9 = superblock_checksum sb9" by (simp add: sb9)
  have tbpos: "0 < unat tb" using lo by (simp add: tb_def)
  have "fs_ops_read_superblock (g_disk_state (format_disk s t1 t2)) sb_old = (Inr (), sb9)"
    unfolding f
    by (rule read_written_superblock[OF _ _ _ r64 mg ck]) (use d7f tbpos in simp_all)
  then have rb': "rb = (Inr (), sb9)" by (simp add: rb)
  have fields: "free_inodes sb9 = 1023" "total_inodes sb9 = 1024" "free_blocks sb9 = tb - 156 - 1"
    "data_blocks_start sb9 = 156" "sb_total_blocks sb9 = tb"
    by (simp_all add: sb9 sb8_def sbf)
  have sf: "superblock (g_fs_state (format_disk s t1 t2)) = sb9"
    unfolding f using sbfs by simp
  show ?thesis
    unfolding rb' sf by (simp add: fields tb_def[symmetric])
qed

theorem format_disk_free_counts_witness:
  "fst (fs_ops_read_superblock (g_disk_state (format_disk (fresh_sys 200) 0 0)) zero_superblock) = Inr ()
 \<and> free_inodes (snd (fs_ops_read_superblock (g_disk_state (format_disk (fresh_sys 200) 0 0))
       zero_superblock)) = 1023
 \<and> free_blocks (snd (fs_ops_read_superblock (g_disk_state (format_disk (fresh_sys 200) 0 0))
       zero_superblock)) = 43"
proof -
  have h: "is_initialized (g_disk_state (fresh_sys 200))"
    "\<not> is_read_only (g_disk_state (fresh_sys 200))"
    "block_size (g_disk_state (fresh_sys 200)) = 1024"
    "157 \<le> unat (total_blocks (g_disk_state (fresh_sys 200)))"
    "unat (total_blocks (g_disk_state (fresh_sys 200))) \<le> 32924"
    by (simp_all add: fresh_sys_def)
  have tb: "total_blocks (g_disk_state (fresh_sys 200)) = 200" by (simp add: fresh_sys_def)
  from format_disk_free_counts[OF h refl, of 0 0 zero_superblock]
  show ?thesis unfolding tb by simp
qed

lemma format_disk_large:
  assumes init: "is_initialized (g_disk_state s)" and ro: "\<not> is_read_only (g_disk_state s)"
    and bs: "block_size (g_disk_state s) = 1024"
    and tb: "total_blocks (g_disk_state s) = 40000"
  shows "fs_ops_read_superblock (g_disk_state (format_disk s t1 t2)) sb_old
           = (Inr (), fs_ops_init_superblock 40000 t1)"
proof -
  define d where "d = g_disk_state s"
  define sb where "sb = fs_ops_init_superblock 40000 t1"
  have tbd: "total_blocks d = 40000" using tb by (simp add: d_def)
  note sbf = init_superblock_fields[of 40000 t1, folded sb_def]
  define d1 where "d1 = d\<lparr>storage := (storage d)(0 := memcpy_at (replicate BLOCK_SIZE 0) 0 (enc_superblock sb))\<rparr>"
  have w1: "fs_ops_write_superblock d sb = Inr d1"
    unfolding d1_def
    by (rule fs_ops_write_superblock_ok) (use init ro tbd in \<open>simp_all add: d_def\<close>)
  obtain ibm where ibm: "fs_ops_init_bitmap 1024 = Inr ibm"
    by (simp add: fs_ops_init_bitmap_def)
  obtain bbm where bbm: "fs_ops_init_bitmap 39844 = Inr bbm"
    by (simp add: fs_ops_init_bitmap_def)
  define s4 where "s4 = s\<lparr>g_disk_state := d1,
                            g_fs_state := (g_fs_state s)\<lparr>superblock := sb, inode_bitmap := ibm,
                              block_bitmap := bbm\<rparr>\<rparr>"
  have d1f: "is_initialized d1" "\<not> is_read_only d1" "total_blocks d1 = 40000"
    using init ro tbd by (simp_all add: d1_def d_def)
  from fs_ops_create_root_directory_ok[of s4 t2]
  obtain d2 where cr: "fs_ops_create_root_directory s4 t2 =
           (Inr (), s4\<lparr>g_disk_state := d2,
               g_fs_state := (g_fs_state s4)
                 \<lparr>inode_bitmap := set_bitmap_bit (inode_bitmap (g_fs_state s4)) 1,
                  block_bitmap := set_bitmap_bit (block_bitmap (g_fs_state s4)) 0\<rparr>\<rparr>)"
    and d2f: "is_initialized d2" "\<not> is_read_only d2" "total_blocks d2 = 40000"
    and d20: "storage d2 0 = storage d1 0"
    using d1f sbf by (auto simp: s4_def)
  have i1: "(1::u32) < 1024" "unat (1024::u32) + 7 < 2 ^ 32" by simp_all
  from set_bitmap_bit_fresh[OF ibm i1] obtain ibytes where
    ib: "set_bitmap_bit ibm 1 = ibm\<lparr>bitmap := Some ibytes, free_count := 1023\<rparr>"
    and itb: "total_bits ibm = 1024"
    by auto
  have b1: "(0::u32) < 39844" "unat (39844::u32) + 7 < 2 ^ 32" by simp_all
  from set_bitmap_bit_fresh[OF bbm b1] obtain bbytes where
    bb: "set_bitmap_bit bbm 0 = bbm\<lparr>bitmap := Some bbytes, free_count := 39843\<rparr>"
    and btb: "total_bits bbm = 39844"
    by auto
  define ibm' where "ibm' = ibm\<lparr>bitmap := Some ibytes, free_count := 1023\<rparr>"
  define bbm' where "bbm' = bbm\<lparr>bitmap := Some bbytes, free_count := 39843\<rparr>"
  have ibb: "bitmap_bytes (total_bits ibm') = 128"
    by (simp add: ibm'_def itb bitmap_bytes_def)
  from fs_ops_write_bitmap_frame[of ibm' ibytes d2 FS_INODE_BITMAP_BLOCK FS_BITMAP_BLOCKS]
  obtain d6 where wb1: "fs_ops_write_bitmap d2 ibm' FS_INODE_BITMAP_BLOCK FS_BITMAP_BLOCKS = (Inr (), d6)"
    and d6f: "is_initialized d6" "\<not> is_read_only d6" "total_blocks d6 = 40000"
    and d60: "storage d6 0 = storage d2 0"
    using d2f ibb
    by (auto simp: ibm'_def FS_INODE_BITMAP_BLOCK_def FS_BITMAP_BLOCKS_def BLOCK_SIZE_def)
  have wb2: "fs_ops_write_bitmap d6 bbm' FS_DATA_BITMAP_BLOCK FS_BITMAP_BLOCKS
               = (Inl FS_ERROR_NO_SPACE, d6)"
    by (simp add: fs_ops_write_bitmap_def bbm'_def btb FS_BITMAP_BLOCKS_def Let_def)
  have fd: "g_disk_state (format_disk s t1 t2) = d6"
    unfolding format_disk_def Let_def
    using init bs
    apply (simp add: d_def[symmetric] tbd sb_def[symmetric] BLOCK_SIZE_def w1 sbf ibm bbm)
    apply (simp add: cr[unfolded s4_def] ib bb ibm'_def[symmetric] bbm'_def[symmetric]
        wb1 wb2 format_cleanup_def)
    done
  have st0: "storage d6 0 = memcpy_at (replicate BLOCK_SIZE 0) 0 (enc_superblock sb)"
    unfolding d60 d20 by (simp add: d1_def)
  show ?thesis
    unfolding fd sb_def[symmetric]
    by (rule read_written_superblock[OF st0 d6f(1)])
       (simp_all add: d6f sbf init_superblock_checksum[of 40000 t1, folded sb_def])
qed

lemma format_disk_small:
  assumes init: "is_initialized (g_disk_state s)" and ro: "\<not> is_read_only (g_disk_state s)"
    and bs: "block_size (g_disk_state s) = 1024"
    and tb: "total_blocks (g_disk_state s) = 156"
  shows "fs_ops_read_superblock (g_disk_state (format_disk s t1 t2)) sb_old
           = (Inr (), fs_ops_init_superblock 156 t1)"
proof -
  define d where "d = g_disk_state s"
  define sb where "sb = fs_ops_init_superblock 156 t1"
  have tbd: "total_blocks d = 156" using tb by (simp add: d_def)
  note sbf = init_superblock_fields[of 156 t1, folded sb_def]
  define d1 where "d1 = d\<lparr>storage := (storage d)(0 := memcpy_at (replicate BLOCK_SIZE 0) 0 (enc_superblock sb))\<rparr>"
  have w1: "fs_ops_write_superblock d sb = Inr d1"
    unfolding d1_def
    by (rule fs_ops_write_superblock_ok) (use init ro tbd in \<open>simp_all add: d_def\<close>)
  have d1f: "is_initialized d1" "total_blocks d1 = 156"
    using init tbd by (simp_all add: d1_def d_def)
  have fd: "g_disk_state (format_disk s t1 t2) = d1"
    unfolding format_disk_def Let_def
    using init bs
    by (simp add: d_def[symmetric] tbd sb_def[symmetric] BLOCK_SIZE_def w1 sbf fs_ops_init_bitmap_def)
  have st0: "storage d1 0 = memcpy_at (replicate BLOCK_SIZE 0) 0 (enc_superblock sb)"
    by (simp add: d1_def)
  show ?thesis
    unfolding fd sb_def[symmetric]
    by (rule read_written_superblock[OF st0 d1f(1)])
       (simp_all add: d1f sbf init_superblock_checksum[of 156 t1, folded sb_def])
qed

text \<open>
  C3, counterexample. On a new disk of 40000 blocks the block bitmap does not fit into the
  four blocks kept for it: fs\_ops\_write\_bitmap refuses it, format\_disk stops, and the
  superblock on disk is the one written first, with free\_blocks 39844, which is total\_blocks
  - data\_blocks\_start. On a new disk of 156 blocks there is no data block: format\_disk
  stops at the bitmap of no bits and the superblock on disk has free\_blocks 0.
\<close>

theorem format_disk_counterexample:
  "fst (fs_ops_read_superblock (g_disk_state (format_disk (fresh_sys 40000) 0 0)) zero_superblock) = Inr ()
 \<and> free_blocks (snd (fs_ops_read_superblock (g_disk_state (format_disk (fresh_sys 40000) 0 0))
       zero_superblock)) = 39844
 \<and> free_blocks (snd (fs_ops_read_superblock (g_disk_state (format_disk (fresh_sys 40000) 0 0))
       zero_superblock))
     \<noteq> total_blocks (g_disk_state (fresh_sys 40000))
         - data_blocks_start (snd (fs_ops_read_superblock
             (g_disk_state (format_disk (fresh_sys 40000) 0 0)) zero_superblock)) - 1
 \<and> fst (fs_ops_read_superblock (g_disk_state (format_disk (fresh_sys 156) 0 0)) zero_superblock) = Inr ()
 \<and> free_blocks (snd (fs_ops_read_superblock (g_disk_state (format_disk (fresh_sys 156) 0 0))
       zero_superblock)) = 0
 \<and> free_blocks (snd (fs_ops_read_superblock (g_disk_state (format_disk (fresh_sys 156) 0 0))
       zero_superblock))
     \<noteq> total_blocks (g_disk_state (fresh_sys 156))
         - data_blocks_start (snd (fs_ops_read_superblock
             (g_disk_state (format_disk (fresh_sys 156) 0 0)) zero_superblock)) - 1"
proof -
  have h: "is_initialized (g_disk_state (fresh_sys 40000))"
    "\<not> is_read_only (g_disk_state (fresh_sys 40000))"
    "block_size (g_disk_state (fresh_sys 40000)) = 1024"
    "total_blocks (g_disk_state (fresh_sys 40000)) = 40000"
    by (simp_all add: fresh_sys_def)
  have g: "is_initialized (g_disk_state (fresh_sys 156))"
    "\<not> is_read_only (g_disk_state (fresh_sys 156))"
    "block_size (g_disk_state (fresh_sys 156)) = 1024"
    "total_blocks (g_disk_state (fresh_sys 156)) = 156"
    by (simp_all add: fresh_sys_def)
  show ?thesis
    unfolding format_disk_large[OF h] h(4) format_disk_small[OF g] g(4)
    by (simp add: init_superblock_fields)
qed


end
